(* ===== verification/Prelude.thy ===== *)
theory Prelude
  imports
    Main
    "HOL-Library.Word"
    "HOL-Library.Multiset"
    "HOL-Library.AList"
    "HOL-Library.Char_ord"
    "HOL-Library.List_Lexorder"
    "HOL-Library.Product_Lexorder"
    "HOL-Library.Sublist"
begin

text \<open>
  Shared vocabulary of the development: the types every component uses (Go errors, results,
  machine words), the exchange sort that the cache writes twice over two entry types, and the
  generic lemmas on lists and association lists the component proofs rest on.
\<close>

section \<open>Types\<close>

text \<open>
  A Go string is a sequence of bytes, and so is \<open>string\<close> here (one \<open>char\<close> per byte).
  A Go error is modelled by the text its \<open>Error\<close> method returns, a fallible call by a sum:
  \<open>Inl\<close> the error, \<open>Inr\<close> the value. A Go map is an association list with distinct keys,
  read by \<open>map_of\<close> and written by \<open>AList.update\<close>; its \<open>len\<close> is the list's length.
\<close>

type_synonym go_error = string
type_synonym 'a result = "go_error + 'a"
type_synonym bytes = string
type_synonym int64 = "64 word"
type_synonym uint32 = "32 word"
type_synonym ('k, 'v) gomap = "('k \<times> 'v) list"

named_theorems frame_simps \<open>fields an operation leaves alone\<close>
named_theorems step_simps \<open>one operation unfolded on one branch\<close>

fun is_ok :: "'a result \<Rightarrow> bool" where
  "is_ok (Inl _) = False"
| "is_ok (Inr _) = True"

lemma is_ok_iff: "is_ok r \<longleftrightarrow> (\<exists>x. r = Inr x)"
  by (cases r) auto

section \<open>Lists\<close>

lemma find_first:
  "find P xs = Some x \<Longrightarrow> \<exists>ys zs. xs = ys @ x # zs \<and> P x \<and> (\<forall>y\<in>set ys. \<not> P y)"
proof (induction xs)
  case Nil
  then show ?case by simp
next
  case (Cons a xs)
  show ?case
  proof (cases "P a")
    case True
    with Cons.prems have "a # xs = [] @ x # xs \<and> P x \<and> (\<forall>y\<in>set []. \<not> P y)" by simp
    then show ?thesis by blast
  next
    case False
    with Cons.prems have "find P xs = Some x" by simp
    from Cons.IH[OF this] obtain ys zs
      where "xs = ys @ x # zs" "P x" "\<forall>y\<in>set ys. \<not> P y" by blast
    with False have "a # xs = (a # ys) @ x # zs \<and> P x \<and> (\<forall>y\<in>set (a # ys). \<not> P y)" by simp
    then show ?thesis by blast
  qed
qed

lemma find_None_set: "find P xs = None \<longleftrightarrow> (\<forall>x\<in>set xs. \<not> P x)"
  by (auto simp: find_None_iff)

lemma find_SomeD: "find P xs = Some x \<Longrightarrow> x \<in> set xs \<and> P x"
  using find_first by fastforce

lemma find_append:
  "find P (xs @ ys) = (case find P xs of None \<Rightarrow> find P ys | Some x \<Rightarrow> Some x)"
  by (induction xs) auto

lemma find_cong_set:
  "(\<And>x. x \<in> set xs \<Longrightarrow> P x = Q x) \<Longrightarrow> find P xs = find Q xs"
  by (induction xs) auto

text \<open>In a list sorted by a relation, the first element that satisfies a predicate is
  related to every other one that does.\<close>

lemma find_sorted_wrt:
  assumes "sorted_wrt R xs" and "find P xs = Some x" and "y \<in> set xs" and "P y"
  shows "x = y \<or> R x y"
proof -
  from find_first[OF assms(2)] obtain ys zs
    where xs: "xs = ys @ x # zs" and "P x" and ys: "\<forall>y\<in>set ys. \<not> P y" by blast
  from assms(3,4) ys xs have "y = x \<or> y \<in> set zs" by auto
  moreover from assms(1) xs have "\<forall>z\<in>set zs. R x z" by (simp add: sorted_wrt_append)
  ultimately show ?thesis by auto
qed

section \<open>Association lists as Go maps\<close>

lemma map_of_update [simp]:
  "map_of (AList.update k v m) = (map_of m)(k \<mapsto> v)"
  by (rule update_conv')

lemma distinct_update_keys [simp]:
  "distinct (map fst m) \<Longrightarrow> distinct (map fst (AList.update k v m))"
  by (rule distinct_update)

lemma length_gomap: "distinct (map fst m) \<Longrightarrow> length m = card (dom (map_of m))"
  using distinct_card[of "map fst m"] by (simp add: dom_map_of_conv_image_fst)

section \<open>The exchange sort of the caches\<close>

text \<open>
  \<open>sort_inner better i j s\<close> is the inner loop of \<open>sortSuffixes\<close> and \<open>sortHostSuffixes\<close>
  from index \<open>j\<close> on, \<open>sort_outer\<close> the outer loop from index \<open>i\<close> on; \<open>better\<close> is the
  condition of the swap.
\<close>

function sort_inner :: "('e \<Rightarrow> 'e \<Rightarrow> bool) \<Rightarrow> nat \<Rightarrow> nat \<Rightarrow> 'e list \<Rightarrow> 'e list" where
  "sort_inner better i j s =
     (if j < length s
      then sort_inner better i (j + 1)
             (if better (s ! j) (s ! i) then s[i := s ! j, j := s ! i] else s)
      else s)"
  by pat_completeness auto
termination
  by (relation "measure (\<lambda>(better, i, j, s). length s - j)") auto

declare sort_inner.simps [simp del]

lemma length_sort_inner [simp]: "length (sort_inner better i j s) = length s"
proof (induction better i j s rule: sort_inner.induct)
  case (1 better i j s)
  then show ?case by (simp add: sort_inner.simps[of better i j s])
qed

function sort_outer :: "('e \<Rightarrow> 'e \<Rightarrow> bool) \<Rightarrow> nat \<Rightarrow> 'e list \<Rightarrow> 'e list" where
  "sort_outer better i s =
     (if i < length s then sort_outer better (i + 1) (sort_inner better i (i + 1) s) else s)"
  by pat_completeness auto
termination
  by (relation "measure (\<lambda>(better, i, s). length s - i)") auto

declare sort_outer.simps [simp del]

lemma length_sort_outer [simp]: "length (sort_outer better i s) = length s"
proof (induction better i s rule: sort_outer.induct)
  case (1 better i s)
  then show ?case by (simp add: sort_outer.simps[of better i s])
qed

lemma mset_swap2:
  "i < length s \<Longrightarrow> j < length s \<Longrightarrow> mset (s[i := s ! j, j := s ! i]) = mset s"
  using mset_swap[of j s i] by (cases "i = j") (simp_all add: list_update_swap)

lemma mset_sort_inner:
  "i < length s \<Longrightarrow> mset (sort_inner better i j s) = mset s"
proof (induction better i j s rule: sort_inner.induct)
  case (1 better i j s)
  show ?case
  proof (cases "j < length s")
    case True
    with 1 show ?thesis
      by (subst sort_inner.simps) (simp add: mset_swap2)
  next
    case False
    then show ?thesis by (subst sort_inner.simps) simp
  qed
qed

lemma mset_sort_outer: "mset (sort_outer better i s) = mset s"
proof (induction better i s rule: sort_outer.induct)
  case (1 better i s)
  then show ?case by (subst sort_outer.simps) (simp add: mset_sort_inner)
qed

text \<open>The inner loop leaves everything before position \<open>i\<close> alone.\<close>

lemma sort_inner_before:
  "k < i \<Longrightarrow> i < j \<Longrightarrow> sort_inner better i j s ! k = s ! k"
proof (induction better i j s rule: sort_inner.induct)
  case (1 better i j s)
  then show ?case
    by (subst sort_inner.simps) (auto simp: nth_list_update)
qed

text \<open>
  A sort by a key: \<open>better\<close> holds when its first argument has the strictly greater key. After
  the inner loop position \<open>i\<close> holds a greatest key of the positions from \<open>i\<close> on.
\<close>

lemma sort_inner_greatest:
  fixes key :: "'e \<Rightarrow> 'k::linorder"
  assumes better: "\<And>x y. better x y \<longleftrightarrow> key y < key x"
    and "i < j" and "j \<le> length s" and "\<And>k. i < k \<Longrightarrow> k < j \<Longrightarrow> key (s ! k) \<le> key (s ! i)"
    and "i < k" and "k < length s"
  shows "key (sort_inner better i j s ! k) \<le> key (sort_inner better i j s ! i)"
  using assms(2-)
proof (induction "length s - j" arbitrary: j s)
  case 0
  then show ?case by (simp add: sort_inner.simps[of better i j s])
next
  case (Suc n)
  define t where "t = (if better (s ! j) (s ! i) then s[i := s ! j, j := s ! i] else s)"
  have j: "j < length s" and len: "length t = length s"
    using Suc.hyps(2) by (simp_all add: t_def)
  have "key (t ! l) \<le> key (t ! i)" if "i < l" "l < j + 1" for l
  proof (cases "l = j")
    case True
    with j that Suc.prems(1) show ?thesis by (auto simp: t_def better nth_list_update)
  next
    case False
    with that have "key (s ! l) \<le> key (s ! i)" using Suc.prems(3) by simp
    with False that j show ?thesis by (auto simp: t_def better nth_list_update)
  qed
  with Suc.hyps(1)[of t "j + 1"] Suc.hyps(2) Suc.prems j len
  have "key (sort_inner better i (j + 1) t ! k) \<le> key (sort_inner better i (j + 1) t ! i)"
    by simp
  with j show ?case by (simp add: sort_inner.simps[of better i j s] t_def)
qed

lemma mset_drop_sort_inner:
  assumes "i < j" and "i < length s"
  shows "mset (drop i (sort_inner better i j s)) = mset (drop i s)"
proof -
  let ?t = "sort_inner better i j s"
  have "take i ?t = take i s"
    using assms by (intro nth_equalityI) (auto simp: sort_inner_before)
  moreover have "mset (take i ?t) + mset (drop i ?t) = mset (take i s) + mset (drop i s)"
    using mset_sort_inner[OF assms(2), of better j] by (metis append_take_drop_id mset_append)
  ultimately show ?thesis by simp
qed

lemma sort_outer_descending:
  fixes key :: "'e \<Rightarrow> 'k::linorder"
  assumes better: "\<And>x y. better x y \<longleftrightarrow> key y < key x"
    and "\<And>a b. a < i \<Longrightarrow> a < b \<Longrightarrow> b < length s \<Longrightarrow> key (s ! b) \<le> key (s ! a)"
    and "a < b" and "b < length s"
  shows "key (sort_outer better i s ! b) \<le> key (sort_outer better i s ! a)"
  using assms(2-)
proof (induction "length s - i" arbitrary: i s)
  case 0
  then show ?case by (simp add: sort_outer.simps[of better i s])
next
  case (Suc n)
  let ?t = "sort_inner better i (i + 1) s"
  have i: "i < length s" using Suc.hyps(2) by simp
  have "key (?t ! d) \<le> key (?t ! c)" if "c < i + 1" "c < d" "d < length ?t" for c d
  proof (cases "c = i")
    case True
    with that sort_inner_greatest[OF better, where i = i and j = "i + 1" and s = s and k = d] i show ?thesis by simp
  next
    case False
    with that have c: "c < i" by simp
    have t_c: "?t ! c = s ! c" using c by (simp add: sort_inner_before)
    show ?thesis
    proof (cases "d < i")
      case True
      with c that Suc.prems(1) show ?thesis by (simp add: sort_inner_before)
    next
      case False
      with that have "?t ! d \<in> set (drop i ?t)"
        by (auto simp: in_set_conv_nth intro!: exI[of _ "d - i"])
      then have "?t ! d \<in> set (drop i s)"
        using mset_drop_sort_inner[of i "i + 1" s better] i by (metis less_add_one set_mset_mset)
      then obtain e where "e < length s - i" "?t ! d = s ! (i + e)"
        by (auto simp: in_set_conv_nth)
      with c t_c Suc.prems(1)[of c "i + e"] show ?thesis by simp
    qed
  qed
  with Suc.hyps(1)[of ?t "i + 1"] Suc.hyps(2) Suc.prems(2,3)
  have "key (sort_outer better (i + 1) ?t ! b) \<le> key (sort_outer better (i + 1) ?t ! a)"
    by simp
  with i show ?case by (simp add: sort_outer.simps[of better i s])
qed

lemma sorted_sort_outer:
  fixes key :: "'e \<Rightarrow> 'k::linorder"
  assumes "\<And>x y. better x y \<longleftrightarrow> key y < key x"
  shows "sorted_wrt (\<lambda>x y. key y \<le> key x) (sort_outer better 0 s)"
proof -
  have "key (sort_outer better 0 s ! b) \<le> key (sort_outer better 0 s ! a)"
    if "a < b" "b < length s" for a b
    using assms that by (intro sort_outer_descending) simp_all
  then show ?thesis by (simp add: sorted_wrt_iff_nth_less)
qed

end
