(* ===== verification/DataModel.thy ===== *)
theory DataModel
  imports Prelude
begin

text \<open>
  \<open>internal/model/model.go\<close>: the structs the components exchange. A pointer field (a field the
  client may leave out of its JSON) is an \<open>option\<close>, an \<open>int\<close> or \<open>int64\<close> that is never
  incremented is an \<open>int\<close>, and \<open>time.Time\<close> is a number, since no decision of the program
  depends on it.
\<close>

type_synonym go_time = int

record domain_rule =
  dr_ID :: int
  dr_Domain :: string
  dr_Mode :: string
  dr_Upstream :: string
  dr_Enabled :: bool
  dr_CreatedAt :: go_time
  dr_UpdatedAt :: go_time

record rule_create =
  rc_Domain :: string
  rc_Mode :: string
  rc_Upstream :: string
  rc_Enabled :: "bool option"

record rule_update =
  ru_Domain :: "string option"
  ru_Mode :: "string option"
  ru_Upstream :: "string option"
  ru_Enabled :: "bool option"

record host_record =
  hr_ID :: int
  hr_Domain :: string
  hr_Type :: string
  hr_MatchMode :: string
  hr_Value :: string
  hr_TTL :: int
  hr_Comment :: string
  hr_Enabled :: bool
  hr_CreatedAt :: go_time
  hr_UpdatedAt :: go_time

record host_create =
  hc_Domain :: string
  hc_Type :: string
  hc_MatchMode :: string
  hc_Value :: string
  hc_TTL :: "int option"
  hc_Comment :: string
  hc_Enabled :: "bool option"

record host_update =
  hu_Domain :: "string option"
  hu_Type :: "string option"
  hu_MatchMode :: "string option"
  hu_Value :: "string option"
  hu_TTL :: "int option"
  hu_Comment :: "string option"
  hu_Enabled :: "bool option"

text \<open>Two structs no code uses; the handlers of the status and of the settings build their JSON from
  maps.\<close>

record status_info =
  si_Rules :: int
  si_Hosts :: int
  si_CacheHits :: int64
  si_CacheMisses :: int64
  si_Forwards :: int64
  si_LocalHits :: int64

record config_info =
  ci_DNSAddr :: string
  ci_DoHAddr :: string
  ci_HTTPAddr :: string
  ci_DefaultUpstream :: string
  ci_DBPath :: string
  ci_CertFile :: string
  ci_KeyFile :: string
  ci_AdminUser :: string

end
