(* ===== verification/GoStrings.thy ===== *)
theory GoStrings
  imports Prelude
begin

text \<open>
  The functions of Go's \<open>strings\<close> and \<open>strconv\<close> packages that the program calls, on byte
  strings. \<open>ToLower\<close> and \<open>ToUpper\<close> map the ASCII letters and keep every other byte: the Unicode
  case tables Go consults for text that is not ASCII are not modelled. \<open>TrimSpace\<close> strips the
  whole set of Unicode white space, in its UTF-8 encoding. \<open>ParseInt\<close> is base 10 and 64 bits,
  which is also \<open>Atoi\<close> on the platforms the program is built for; the kind of its error is
  not kept, since no caller reads it.
\<close>

section \<open>Bytes\<close>

definition code :: "char \<Rightarrow> int" where
  "code c = of_char c"

lemma code_bounds [simp]: "0 \<le> code c" "code c < 256"
proof -
  have "code c = code c mod 256" by (simp add: code_def)
  then show "0 \<le> code c" "code c < 256" by (metis pos_mod_bound pos_mod_sign zero_less_numeral)+
qed

lemma code_char_of [simp]: "0 \<le> n \<Longrightarrow> n < 256 \<Longrightarrow> code (char_of n) = n"
  by (simp add: code_def)

lemma char_of_code [simp]: "char_of (code c) = c"
  by (simp add: code_def)

lemma code_eq_iff [simp]: "code c = code d \<longleftrightarrow> c = d"
  by (simp add: code_def)

section \<open>Letter case\<close>

definition lower_char :: "char \<Rightarrow> char" where
  "lower_char c = (if 65 \<le> code c \<and> code c \<le> 90 then char_of (code c + 32) else c)"

definition upper_char :: "char \<Rightarrow> char" where
  "upper_char c = (if 97 \<le> code c \<and> code c \<le> 122 then char_of (code c - 32) else c)"

definition ToLower :: "string \<Rightarrow> string" where
  "ToLower s = map lower_char s"

definition ToUpper :: "string \<Rightarrow> string" where
  "ToUpper s = map upper_char s"

lemma lower_char_idem [simp]: "lower_char (lower_char c) = lower_char c"
  by (simp add: lower_char_def)

lemma upper_char_idem [simp]: "upper_char (upper_char c) = upper_char c"
  by (simp add: upper_char_def)

lemma ToLower_idem [simp]: "ToLower (ToLower s) = ToLower s"
  by (simp add: ToLower_def)

lemma ToUpper_idem [simp]: "ToUpper (ToUpper s) = ToUpper s"
  by (simp add: ToUpper_def)

lemma ToLower_Nil [simp]: "ToLower [] = []" "ToLower s = [] \<longleftrightarrow> s = []"
  by (simp_all add: ToLower_def)

lemma ToUpper_Nil [simp]: "ToUpper [] = []" "ToUpper s = [] \<longleftrightarrow> s = []"
  by (simp_all add: ToUpper_def)

lemma ToUpper_A [simp]: "ToUpper ''A'' = ''A''"
  by (simp add: ToUpper_def upper_char_def code_def)

lemma lower_char_dot [simp]: "lower_char CHR ''.'' = CHR ''.''"
  by (simp add: lower_char_def code_def)

section \<open>Prefixes and suffixes\<close>

definition HasPrefix :: "string \<Rightarrow> string \<Rightarrow> bool" where
  "HasPrefix s p \<longleftrightarrow> length p \<le> length s \<and> take (length p) s = p"

definition HasSuffix :: "string \<Rightarrow> string \<Rightarrow> bool" where
  "HasSuffix s p \<longleftrightarrow> length p \<le> length s \<and> drop (length s - length p) s = p"

definition TrimPrefix :: "string \<Rightarrow> string \<Rightarrow> string" where
  "TrimPrefix s p = (if HasPrefix s p then drop (length p) s else s)"

definition TrimSuffix :: "string \<Rightarrow> string \<Rightarrow> string" where
  "TrimSuffix s p = (if HasSuffix s p then take (length s - length p) s else s)"

lemma HasPrefix_iff: "HasPrefix s p \<longleftrightarrow> (\<exists>t. s = p @ t)"
proof
  assume "HasPrefix s p"
  then have "s = p @ drop (length p) s"
    unfolding HasPrefix_def by (metis append_take_drop_id)
  then show "\<exists>t. s = p @ t" by blast
qed (auto simp: HasPrefix_def)

lemma HasSuffix_iff: "HasSuffix s p \<longleftrightarrow> (\<exists>t. s = t @ p)"
proof
  assume "HasSuffix s p"
  then have "s = take (length s - length p) s @ p"
    unfolding HasSuffix_def by (metis append_take_drop_id)
  then show "\<exists>t. s = t @ p" by blast
qed (auto simp: HasSuffix_def)

lemma HasSuffix_suffix: "HasSuffix s p \<longleftrightarrow> suffix p s"
  by (auto simp: HasSuffix_iff suffix_def)

lemma HasPrefix_append [simp]: "HasPrefix (p @ t) p"
  by (auto simp: HasPrefix_iff)

lemma HasSuffix_append [simp]: "HasSuffix (t @ p) p"
  by (auto simp: HasSuffix_iff)

lemma HasPrefix_rev: "HasPrefix (rev s) (rev p) \<longleftrightarrow> HasSuffix s p"
  by (metis HasPrefix_iff HasSuffix_iff rev_append rev_rev_ident)

lemma HasSuffix_single: "HasSuffix s [c] \<longleftrightarrow> s \<noteq> [] \<and> last s = c"
  by (cases s rule: rev_cases) (auto simp: HasSuffix_iff)

lemma HasPrefix_butlast:
  assumes "HasPrefix (s @ [c]) r" and "c \<notin> set r"
  shows "HasPrefix s r"
proof -
  from assms(1) obtain t where t: "s @ [c] = r @ t" by (auto simp: HasPrefix_iff)
  with assms(2) have "t \<noteq> []" by (metis append.right_neutral in_set_conv_decomp)
  then obtain u d where "t = u @ [d]" by (cases t rule: rev_cases) auto
  with t show ?thesis by (auto simp: HasPrefix_iff)
qed

section \<open>Counting and searching\<close>

definition CountByte :: "string \<Rightarrow> char \<Rightarrow> nat" where
  "CountByte s c = length (filter (\<lambda>d. d = c) s)"

fun Contains :: "string \<Rightarrow> string \<Rightarrow> bool" where
  "Contains [] sub = (sub = [])"
| "Contains (c # cs) sub = (HasPrefix (c # cs) sub \<or> Contains cs sub)"

fun IndexByte :: "string \<Rightarrow> char \<Rightarrow> nat option" where
  "IndexByte [] c = None"
| "IndexByte (d # ds) c = (if d = c then Some 0 else map_option Suc (IndexByte ds c))"

fun LastIndexByte :: "string \<Rightarrow> char \<Rightarrow> nat option" where
  "LastIndexByte [] c = None"
| "LastIndexByte (d # ds) c =
     (case LastIndexByte ds c of
        Some i \<Rightarrow> Some (Suc i)
      | None \<Rightarrow> if d = c then Some 0 else None)"

text \<open>\<open>strings.Cut\<close> with a separator of one byte: the text before and after its first occurrence.\<close>

fun CutByte :: "string \<Rightarrow> char \<Rightarrow> (string \<times> string) option" where
  "CutByte [] c = None"
| "CutByte (d # ds) c =
     (if d = c then Some ([], ds) else map_option (\<lambda>(a, b). (d # a, b)) (CutByte ds c))"

lemma CountByte_append [simp]: "CountByte (s @ t) c = CountByte s c + CountByte t c"
  by (simp add: CountByte_def)

lemma CountByte_Cons [simp]: "CountByte (d # s) c = (if d = c then 1 else 0) + CountByte s c"
  by (simp add: CountByte_def)

lemma CountByte_Nil [simp]: "CountByte [] c = 0"
  by (simp add: CountByte_def)

lemma IndexByte_None: "IndexByte s c = None \<longleftrightarrow> c \<notin> set s"
  by (induction s) auto

lemma LastIndexByte_None: "LastIndexByte s c = None \<longleftrightarrow> c \<notin> set s"
  by (induction s) (auto split: option.splits)

lemma IndexByte_first [simp]: "c \<notin> set s \<Longrightarrow> IndexByte (s @ c # t) c = Some (length s)"
  by (induction s) auto

lemma LastIndexByte_last [simp]: "c \<notin> set t \<Longrightarrow> LastIndexByte (s @ c # t) c = Some (length s)"
  using LastIndexByte_None[of t c] by (induction s) auto

lemma CutByte_first [simp]: "c \<notin> set s \<Longrightarrow> CutByte (s @ c # t) c = Some (s, t)"
  by (induction s) auto

section \<open>White space\<close>

text \<open>
  \<open>unicode.IsSpace\<close>: tab to carriage return, space, U+0085, U+00A0, U+1680, U+2000 to U+200A,
  U+2028, U+2029, U+202F, U+205F and U+3000, each as the bytes of its encoding.
\<close>

definition space_runes :: "string list" where
  "space_runes =
     [[CHR 0x09], [CHR 0x0A], [CHR 0x0B], [CHR 0x0C], [CHR 0x0D], [CHR 0x20],
      [CHR 0xC2, CHR 0x85], [CHR 0xC2, CHR 0xA0], [CHR 0xE1, CHR 0x9A, CHR 0x80],
      [CHR 0xE2, CHR 0x80, CHR 0x80], [CHR 0xE2, CHR 0x80, CHR 0x81],
      [CHR 0xE2, CHR 0x80, CHR 0x82], [CHR 0xE2, CHR 0x80, CHR 0x83],
      [CHR 0xE2, CHR 0x80, CHR 0x84], [CHR 0xE2, CHR 0x80, CHR 0x85],
      [CHR 0xE2, CHR 0x80, CHR 0x86], [CHR 0xE2, CHR 0x80, CHR 0x87],
      [CHR 0xE2, CHR 0x80, CHR 0x88], [CHR 0xE2, CHR 0x80, CHR 0x89],
      [CHR 0xE2, CHR 0x80, CHR 0x8A], [CHR 0xE2, CHR 0x80, CHR 0xA8],
      [CHR 0xE2, CHR 0x80, CHR 0xA9], [CHR 0xE2, CHR 0x80, CHR 0xAF],
      [CHR 0xE2, CHR 0x81, CHR 0x9F], [CHR 0xE3, CHR 0x80, CHR 0x80]]"

lemma drop_prefix_shorter:
  "r \<noteq> [] \<Longrightarrow> HasPrefix s r \<Longrightarrow> length s - length r < length s"
  by (cases s) (auto simp: HasPrefix_def)

function trim_left_runes :: "string list \<Rightarrow> string \<Rightarrow> string" where
  "trim_left_runes rs s =
     (case find (\<lambda>r. r \<noteq> [] \<and> HasPrefix s r) rs of
        None \<Rightarrow> s
      | Some r \<Rightarrow> trim_left_runes rs (drop (length r) s))"
  by pat_completeness auto
termination
  by (relation "measure (\<lambda>(rs, s). length s)") (auto dest!: find_SomeD intro: drop_prefix_shorter)

declare trim_left_runes.simps [simp del]

definition TrimSpace :: "string \<Rightarrow> string" where
  "TrimSpace s =
     rev (trim_left_runes (map rev space_runes) (rev (trim_left_runes space_runes s)))"

definition starts_in :: "string list \<Rightarrow> string \<Rightarrow> bool" where
  "starts_in rs s \<longleftrightarrow> (\<exists>r\<in>set rs. r \<noteq> [] \<and> HasPrefix s r)"

lemma trim_left_runes_fix: "\<not> starts_in rs s \<Longrightarrow> trim_left_runes rs s = s"
proof -
  assume "\<not> starts_in rs s"
  then have "find (\<lambda>r. r \<noteq> [] \<and> HasPrefix s r) rs = None"
    by (auto simp: starts_in_def find_None_set)
  then show ?thesis by (simp add: trim_left_runes.simps[of rs s])
qed

lemma trim_left_runes_spec:
  "\<not> starts_in rs (trim_left_runes rs s) \<and> suffix (trim_left_runes rs s) s"
proof (induction rs s rule: trim_left_runes.induct)
  case (1 rs s)
  show ?case
  proof (cases "find (\<lambda>r. r \<noteq> [] \<and> HasPrefix s r) rs")
    case None
    then have "\<not> starts_in rs s" by (auto simp: starts_in_def find_None_set)
    then show ?thesis by (simp add: trim_left_runes_fix)
  next
    case (Some r)
    with 1 have "\<not> starts_in rs (trim_left_runes rs (drop (length r) s))"
      and "suffix (trim_left_runes rs (drop (length r) s)) (drop (length r) s)" by auto
    with Some show ?thesis
      by (auto simp: trim_left_runes.simps[of rs s] intro: suffix_order.trans suffix_drop)
  qed
qed

definition trimmed :: "string \<Rightarrow> bool" where
  "trimmed s \<longleftrightarrow> \<not> starts_in space_runes s \<and> \<not> starts_in (map rev space_runes) (rev s)"

lemma starts_in_prefix: "starts_in rs s \<Longrightarrow> starts_in rs (s @ t)"
  by (fastforce simp: starts_in_def HasPrefix_iff)

lemma trimmed_TrimSpace: "trimmed (TrimSpace s)"
proof -
  define l where "l = trim_left_runes space_runes s"
  define r where "r = trim_left_runes (map rev space_runes) (rev l)"
  have l: "\<not> starts_in space_runes l"
    unfolding l_def using trim_left_runes_spec by blast
  have r: "\<not> starts_in (map rev space_runes) r" and "suffix r (rev l)"
    unfolding r_def using trim_left_runes_spec by blast+
  then obtain u where "rev l = u @ r" by (auto simp: suffix_def)
  then have "l = rev r @ rev u" by (metis rev_append rev_rev_ident)
  with l have "\<not> starts_in space_runes (rev r)" using starts_in_prefix by metis
  with r show ?thesis by (simp add: trimmed_def TrimSpace_def l_def r_def)
qed

lemma TrimSpace_fix: "trimmed s \<Longrightarrow> TrimSpace s = s"
  by (simp add: trimmed_def TrimSpace_def trim_left_runes_fix)

lemma TrimSpace_idem [simp]: "TrimSpace (TrimSpace s) = TrimSpace s"
  by (rule TrimSpace_fix[OF trimmed_TrimSpace])

lemma set_TrimSpace: "set (TrimSpace s) \<subseteq> set s"
proof -
  have "set (trim_left_runes rs t) \<subseteq> set t" for rs t
    using trim_left_runes_spec by (auto dest: set_mono_suffix)
  then show ?thesis unfolding TrimSpace_def set_rev by (metis set_rev subset_trans)
qed

lemma dot_not_space: "r \<in> set space_runes \<Longrightarrow> CHR ''.'' \<notin> set r"
  by (auto simp: space_runes_def)

lemma trimmed_snoc_dot:
  assumes "trimmed s"
  shows "trimmed (s @ [CHR ''.''])"
  unfolding trimmed_def starts_in_def
proof (intro conjI notI; elim bexE conjE)
  fix r
  assume r: "r \<in> set space_runes" "r \<noteq> []" "HasPrefix (s @ [CHR ''.'']) r"
  then have "HasPrefix s r" using HasPrefix_butlast dot_not_space by blast
  with r assms show False by (auto simp: trimmed_def starts_in_def)
next
  fix r
  assume r: "r \<in> set (map rev space_runes)" "r \<noteq> []" "HasPrefix (rev (s @ [CHR ''.''])) r"
  from r(2,3) have "CHR ''.'' \<in> set r" by (cases r) (auto simp: HasPrefix_iff)
  with r(1) dot_not_space show False by auto
qed

text \<open>Changing the case of a string neither makes nor removes white space at its ends.\<close>

lemma lower_char_eq:
  "lower_char c = b \<Longrightarrow> \<not> (97 \<le> code b \<and> code b \<le> 122) \<Longrightarrow> c = b"
  by (auto simp: lower_char_def split: if_splits)

lemma space_rune_caseless:
  "r \<in> set space_runes \<Longrightarrow> b \<in> set r \<Longrightarrow> \<not> (97 \<le> code b \<and> code b \<le> 122)"
  by (auto simp: space_runes_def code_def)

lemma map_lower_eq:
  "map lower_char t = r \<Longrightarrow> (\<And>b. b \<in> set r \<Longrightarrow> \<not> (97 \<le> code b \<and> code b \<le> 122)) \<Longrightarrow> t = r"
proof (induction t arbitrary: r)
  case Nil
  then show ?case by simp
next
  case (Cons c t)
  from Cons.prems(1) obtain q where r: "r = lower_char c # q" "map lower_char t = q" by auto
  have "c = lower_char c" by (rule lower_char_eq[OF refl]) (use Cons.prems(2) r(1) in simp)
  moreover have "t = q" by (rule Cons.IH[OF r(2)]) (use Cons.prems(2) r(1) in simp)
  ultimately show ?case using r(1) by simp
qed

lemma starts_in_map_lower:
  assumes "starts_in rs (map lower_char s)"
    and "\<And>r b. r \<in> set rs \<Longrightarrow> b \<in> set r \<Longrightarrow> \<not> (97 \<le> code b \<and> code b \<le> 122)"
  shows "starts_in rs s"
proof -
  from assms(1) obtain r where r: "r \<in> set rs" "r \<noteq> []" "length r \<le> length s"
    "map lower_char (take (length r) s) = r"
    by (auto simp: starts_in_def HasPrefix_def take_map)
  then have "take (length r) s = r" using map_lower_eq assms(2) by metis
  with r show ?thesis by (auto simp: starts_in_def HasPrefix_def)
qed

lemma trimmed_ToLower:
  assumes "trimmed s"
  shows "trimmed (ToLower s)"
proof -
  have "\<not> starts_in space_runes (map lower_char s)"
    using assms starts_in_map_lower[of space_runes s] space_rune_caseless
    by (auto simp: trimmed_def)
  moreover have "\<not> starts_in (map rev space_runes) (map lower_char (rev s))"
    using assms starts_in_map_lower[of "map rev space_runes" "rev s"] space_rune_caseless
    by (force simp: trimmed_def)
  ultimately show ?thesis by (simp add: trimmed_def ToLower_def rev_map)
qed

lemma set_ToLower_fix: "(\<And>c. c \<in> set s \<Longrightarrow> lower_char c = c) \<Longrightarrow> ToLower s = s"
  by (simp add: ToLower_def map_idI)

section \<open>Numbers\<close>

definition is_digit :: "char \<Rightarrow> bool" where
  "is_digit c \<longleftrightarrow> 48 \<le> code c \<and> code c \<le> 57"

definition digit_val :: "char \<Rightarrow> int" where
  "digit_val c = code c - 48"

definition digit_char :: "int \<Rightarrow> char" where
  "digit_char d = char_of (48 + d)"

definition decimal :: "string \<Rightarrow> int" where
  "decimal s = foldl (\<lambda>n c. 10 * n + digit_val c) 0 s"

definition ParseUint :: "string \<Rightarrow> int option" where
  "ParseUint s =
     (if s = [] then None
      else if \<not> list_all is_digit s then None
      else if 2 ^ 64 \<le> decimal s then None
      else Some (decimal s))"

definition ParseInt :: "string \<Rightarrow> int option" where
  "ParseInt s =
     (case s of
        [] \<Rightarrow> None
      | c # cs \<Rightarrow>
          let neg = (c = CHR ''-'');
              body = (if c = CHR ''+'' \<or> c = CHR ''-'' then cs else s)
          in case ParseUint body of
               None \<Rightarrow> None
             | Some n \<Rightarrow>
                 if \<not> neg \<and> 2 ^ 63 \<le> n then None
                 else if neg \<and> 2 ^ 63 < n then None
                 else Some (if neg then - n else n))"

function FormatUint :: "int \<Rightarrow> string" where
  "FormatUint n =
     (if n < 10 then [digit_char n] else FormatUint (n div 10) @ [digit_char (n mod 10)])"
  by pat_completeness auto
termination
  by (relation "measure nat") auto

declare FormatUint.simps [simp del]

definition FormatInt :: "int \<Rightarrow> string" where
  "FormatInt i = (if i < 0 then CHR ''-'' # FormatUint (- i) else FormatUint i)"

lemma code_digit_char [simp]: "0 \<le> d \<Longrightarrow> d < 10 \<Longrightarrow> code (digit_char d) = 48 + d"
  by (simp add: digit_char_def)

lemma is_digit_char [simp]: "0 \<le> d \<Longrightarrow> d < 10 \<Longrightarrow> is_digit (digit_char d)"
  by (simp add: is_digit_def)

lemma digit_val_char [simp]: "0 \<le> d \<Longrightarrow> d < 10 \<Longrightarrow> digit_val (digit_char d) = d"
  by (simp add: digit_val_def)

lemma decimal_snoc: "decimal (s @ [c]) = 10 * decimal s + digit_val c"
  by (simp add: decimal_def)

lemma FormatUint_spec:
  "0 \<le> n \<Longrightarrow> list_all is_digit (FormatUint n) \<and> decimal (FormatUint n) = n \<and> FormatUint n \<noteq> []"
proof (induction n rule: FormatUint.induct)
  case (1 n)
  show ?case
  proof (cases "n < 10")
    case True
    with "1.prems" show ?thesis by (simp add: FormatUint.simps[of n] decimal_def)
  next
    case False
    with 1 show ?thesis by (simp add: FormatUint.simps[of n] decimal_snoc)
  qed
qed

lemma FormatUint_not_sign:
  assumes "FormatUint n = c # cs" and "0 \<le> n"
  shows "c \<noteq> CHR ''+'' \<and> c \<noteq> CHR ''-''"
proof -
  have "is_digit c" using FormatUint_spec[of n] assms by simp
  then show ?thesis by (auto simp: is_digit_def code_def)
qed

lemma ParseUint_FormatUint: "0 \<le> n \<Longrightarrow> n < 2 ^ 64 \<Longrightarrow> ParseUint (FormatUint n) = Some n"
  using FormatUint_spec[of n] by (simp add: ParseUint_def)

lemma ParseInt_FormatInt:
  assumes "- (2 ^ 63) \<le> i" and "i < 2 ^ 63"
  shows "ParseInt (FormatInt i) = Some i"
proof (cases "i < 0")
  case True
  with assms have "- i < 2 ^ 64" "\<not> 2 ^ 63 < - i" by auto
  with True ParseUint_FormatUint[of "- i"] show ?thesis
    by (simp add: ParseInt_def FormatInt_def)
next
  case False
  with assms have n: "0 \<le> i" "i < 2 ^ 64" "\<not> 2 ^ 63 \<le> i" by auto
  obtain c cs where c: "FormatUint i = c # cs"
    using FormatUint_spec[of i] n by (cases "FormatUint i") auto
  with FormatUint_not_sign[OF c n(1)] n ParseUint_FormatUint[OF n(1,2)] False show ?thesis
    by (simp add: ParseInt_def FormatInt_def)
qed

lemma ParseUint_nonneg: "ParseUint s = Some n \<Longrightarrow> 0 \<le> n"
proof -
  have "0 \<le> foldl (\<lambda>n c. 10 * n + digit_val c) a t" if "list_all is_digit t" "0 \<le> a" for t a
    using that by (induction t arbitrary: a) (auto simp: is_digit_def digit_val_def)
  then show "ParseUint s = Some n \<Longrightarrow> 0 \<le> n"
    by (auto simp: ParseUint_def decimal_def split: if_splits)
qed

lemma ParseInt_bounds: "ParseInt s = Some i \<Longrightarrow> - (2 ^ 63) \<le> i \<and> i < 2 ^ 63"
  by (auto simp: ParseInt_def Let_def dest: ParseUint_nonneg
      split: list.splits option.splits if_splits)

end
