(* ===== verification/SuffixTable.thy ===== *)
theory SuffixTable
  imports GoStrings
begin

text \<open>
  What the two caches of \<open>internal/cache/rule_cache.go\<close> share: the canonical form of a name
  (\<open>normalize_domain\<close>, the
  code's \<open>normalize\<close>), the number of its labels, the suffix test, and the interface
  \<open>suffix_table\<close> of a table that is sorted once and then searched for its first match. Both
  caches implement the interface with their own entry type and their own copy of the sort.
\<close>

section \<open>Names\<close>

definition normalize_domain :: "string \<Rightarrow> string" where
  "normalize_domain d =
     (let d' = TrimSpace (ToLower d)
      in if d' = [] then [] else if \<not> HasSuffix d' ''.'' then d' @ ''.'' else d')"

definition labelsCount :: "string \<Rightarrow> nat" where
  "labelsCount fqdn = (if fqdn = ''.'' then 0 else CountByte fqdn CHR ''.'')"

text \<open>The test of the suffix loops: the name itself, or a name below the domain.\<close>

definition covers :: "string \<Rightarrow> string \<Rightarrow> bool" where
  "covers domain fqdn \<longleftrightarrow> fqdn = domain \<or> HasSuffix fqdn (''.'' @ domain)"

lemma normalize_Nil_iff: "normalize_domain d = [] \<longleftrightarrow> TrimSpace (ToLower d) = []"
  by (simp add: normalize_domain_def Let_def)

lemma normalize_ends_dot: "normalize_domain d \<noteq> [] \<Longrightarrow> last (normalize_domain d) = CHR ''.''"
  by (auto simp: normalize_domain_def Let_def HasSuffix_single split: if_splits)

lemma lower_TrimSpace_ToLower: "c \<in> set (TrimSpace (ToLower d)) \<Longrightarrow> lower_char c = c"
  using set_TrimSpace[of "ToLower d"] by (auto simp: ToLower_def)

lemma ToLower_normalize [simp]: "ToLower (normalize_domain d) = normalize_domain d"
  by (rule set_ToLower_fix)
    (auto simp: normalize_domain_def Let_def dest: lower_TrimSpace_ToLower split: if_splits)

lemma trimmed_normalize: "trimmed (normalize_domain d)"
proof -
  have "trimmed []" by (auto simp: trimmed_def starts_in_def HasPrefix_iff)
  with trimmed_TrimSpace[of "ToLower d"] show ?thesis
    by (auto simp: normalize_domain_def Let_def intro: trimmed_snoc_dot)
qed

lemma normalize_idem [simp]: "normalize_domain (normalize_domain d) = normalize_domain d"
proof -
  have "TrimSpace (ToLower (normalize_domain d)) = normalize_domain d"
    by (simp add: TrimSpace_fix trimmed_normalize)
  then show ?thesis
    using normalize_ends_dot[of d] by (simp add: normalize_domain_def[of "normalize_domain d"] HasSuffix_single Let_def)
qed

lemma covers_suffix: "covers d q \<Longrightarrow> suffix d q"
  by (auto simp: covers_def HasSuffix_suffix intro: suffix_ConsD)

lemma covers_refl [simp]: "covers d d"
  by (simp add: covers_def)

lemma covers_sub: "covers d (p @ ''.'' @ d)"
  by (auto simp: covers_def HasSuffix_iff)

lemma covers_set: "covers d q \<Longrightarrow> set d \<subseteq> set q"
  by (auto dest: covers_suffix set_mono_suffix)

text \<open>Two domains that cover the same name are suffixes of each other: the longer one has at
  least as many labels, and domains of the same length are equal.\<close>

lemma covers_suffix_of:
  assumes "covers d q" and "covers e q" and "length d \<le> length e"
  shows "suffix d e"
  using assms by (meson covers_suffix suffix_length_suffix)

lemma covers_same_length: "covers d q \<Longrightarrow> covers e q \<Longrightarrow> length d = length e \<Longrightarrow> d = e"
  using covers_suffix_of[of d q e] by (auto simp: suffix_def)

lemma labelsCount_mono:
  assumes "suffix d e" and "length d < length e"
  shows "labelsCount d \<le> labelsCount e"
proof -
  from assms(1) obtain u where e: "e = u @ d" by (auto simp: suffix_def)
  show ?thesis
  proof (cases "e = ''.''")
    case True
    with assms(2) have "d = []" by simp
    then show ?thesis by (simp add: labelsCount_def)
  next
    case False
    with e show ?thesis by (simp add: labelsCount_def)
  qed
qed

section \<open>The interface of a sorted suffix table\<close>

text \<open>
  \<open>labels\<close> and \<open>domain\<close> read an entry, \<open>sorter\<close> orders the table: it permutes its argument
  and leaves no entry before one with more labels, or with as many and a longer domain. The
  client searches for the first entry that covers a name and satisfies a condition of its own.
\<close>

locale suffix_table =
  fixes labels :: "'e \<Rightarrow> nat"
    and domain :: "'e \<Rightarrow> string"
    and sorter :: "'e list \<Rightarrow> 'e list"
  assumes sorter_mset: "mset (sorter s) = mset s"
    and sorter_order: "sorted_wrt (\<lambda>x y. (labels y, length (domain y)) \<le> (labels x, length (domain x))) (sorter s)"
begin

lemma set_sorter: "set (sorter s) = set s"
  using sorter_mset by (metis set_mset_mset)

lemma search_None:
  "find (\<lambda>e. covers (domain e) q \<and> P e) (sorter s) = None \<longleftrightarrow>
     (\<forall>e\<in>set s. covers (domain e) q \<longrightarrow> \<not> P e)"
  by (auto simp: find_None_set set_sorter)

lemma search_Some:
  assumes "find (\<lambda>e. covers (domain e) q \<and> P e) (sorter s) = Some e"
  shows "e \<in> set s" and "covers (domain e) q" and "P e"
  using find_SomeD[OF assms] by (auto simp: set_sorter)

lemma search_longest:
  assumes found: "find (\<lambda>e. covers (domain e) q \<and> P e) (sorter s) = Some e"
    and wf: "\<And>x. x \<in> set s \<Longrightarrow> labels x = labelsCount (domain x)"
    and other: "x \<in> set s" "covers (domain x) q" "P x"
  shows "length (domain x) \<le> length (domain e)"
proof (rule ccontr)
  assume "\<not> ?thesis"
  then have longer: "length (domain e) < length (domain x)" by simp
  have "e = x \<or> (labels x, length (domain x)) \<le> (labels e, length (domain e))"
    using find_sorted_wrt[OF sorter_order found, of x] other by (simp add: set_sorter)
  with longer have "labels x < labels e" by (auto simp: less_eq_prod_def)
  moreover have "labelsCount (domain e) \<le> labelsCount (domain x)"
    using covers_suffix_of[of "domain e" q "domain x"] search_Some(2)[OF found] other(2) longer
    by (intro labelsCount_mono) simp_all
  ultimately show False using wf[OF other(1)] wf[OF search_Some(1)[OF found]] by simp
qed

text \<open>Of two matches with domains of the same length, both have the same domain.\<close>

lemma search_unique_domain:
  assumes "find (\<lambda>e. covers (domain e) q \<and> P e) (sorter s) = Some e"
    and "covers (domain x) q" "length (domain x) = length (domain e)"
  shows "domain x = domain e"
  using covers_same_length assms(2,3) search_Some(2)[OF assms(1)] by blast

end

end
