(* ===== verification/RuleCache.thy ===== *)
theory RuleCache
  imports DataModel SuffixTable
begin

text \<open>
  \<open>RuleCache\<close> of \<open>internal/cache/rule_cache.go\<close>: the forwarding rules in the form the
  resolver reads. \<open>Load\<close> builds an exact map, a suffix table sorted from the most to the least
  specific entry and a default upstream from the stored rules; \<open>Match\<close> looks a name up and
  counts hits and misses. The read-write lock makes each of them atomic and is not part of the
  record. The theory ends with the specification of \<open>Match\<close> in terms of the stored rules.
\<close>

section \<open>State and operations\<close>

record suffix_entry =
  se_labelCount :: nat
  se_domain :: string
  se_upstream :: string

record rule_cache =
  rc_exact :: "(string, string) gomap"
  rc_suffix :: "suffix_entry list"
  rc_defaultUpstream :: string
  rc_hits :: int64
  rc_misses :: int64

definition RuleCache_New :: rule_cache where
  "RuleCache_New =
     \<lparr>rc_exact = [], rc_suffix = [], rc_defaultUpstream = [], rc_hits = 0, rc_misses = 0\<rparr>"

definition suffix_better :: "suffix_entry \<Rightarrow> suffix_entry \<Rightarrow> bool" where
  "suffix_better x y \<longleftrightarrow>
     se_labelCount x > se_labelCount y \<or>
     (se_labelCount x = se_labelCount y \<and> length (se_domain x) > length (se_domain y))"

definition sortSuffixes :: "suffix_entry list \<Rightarrow> suffix_entry list" where
  "sortSuffixes s = sort_outer suffix_better 0 s"

text \<open>The three tables under construction, and the body of the loop over the rules.\<close>

type_synonym rule_tables = "(string, string) gomap \<times> suffix_entry list \<times> string"

fun load_rule :: "rule_tables \<Rightarrow> domain_rule \<Rightarrow> rule_tables" where
  "load_rule (exact, suffs, defaultUpstream) r =
     (if \<not> dr_Enabled r then (exact, suffs, defaultUpstream)
      else
        let rawDomain = TrimSpace (dr_Domain r) in
        if rawDomain = [] then (exact, suffs, defaultUpstream)
        else if rawDomain = ''*'' then (exact, suffs, dr_Upstream r)
        else
          let fqdn = normalize_domain rawDomain in
          if fqdn = [] then (exact, suffs, defaultUpstream)
          else if dr_Mode r = ''exact'' then
            (AList.update fqdn (dr_Upstream r) exact, suffs, defaultUpstream)
          else
            (exact,
             suffs @ [\<lparr>se_labelCount = labelsCount fqdn, se_domain = fqdn,
                          se_upstream = dr_Upstream r\<rparr>],
             defaultUpstream))"

definition build_tables :: "domain_rule list \<Rightarrow> rule_tables" where
  "build_tables rules = foldl load_rule ([], [], []) rules"

definition RuleCache_Load :: "rule_cache \<Rightarrow> domain_rule list \<Rightarrow> rule_cache" where
  "RuleCache_Load c rules =
     (case build_tables rules of (exact, suffs, defaultUpstream) \<Rightarrow>
        c\<lparr>rc_exact := exact, rc_suffix := sortSuffixes suffs,
          rc_defaultUpstream := defaultUpstream\<rparr>)"

definition RuleCache_Match :: "rule_cache \<Rightarrow> string \<Rightarrow> (string \<times> bool) \<times> rule_cache" where
  "RuleCache_Match c name =
     (let fqdn = normalize_domain name in
      case map_of (rc_exact c) fqdn of
        Some u \<Rightarrow> ((u, True), c\<lparr>rc_hits := rc_hits c + 1\<rparr>)
      | None \<Rightarrow>
          (case find (\<lambda>s. covers (se_domain s) fqdn) (rc_suffix c) of
             Some s \<Rightarrow> ((se_upstream s, True), c\<lparr>rc_hits := rc_hits c + 1\<rparr>)
           | None \<Rightarrow>
               if rc_defaultUpstream c \<noteq> [] then
                 ((rc_defaultUpstream c, True), c\<lparr>rc_hits := rc_hits c + 1\<rparr>)
               else (([], False), c\<lparr>rc_misses := rc_misses c + 1\<rparr>)))"

definition RuleCache_Size :: "rule_cache \<Rightarrow> nat" where
  "RuleCache_Size c =
     (let n = length (rc_exact c) + length (rc_suffix c)
      in if rc_defaultUpstream c \<noteq> [] then n + 1 else n)"

section \<open>The suffix table\<close>

lemma suffix_better_key:
  "suffix_better x y \<longleftrightarrow>
     (se_labelCount y, length (se_domain y)) < (se_labelCount x, length (se_domain x))"
  by (auto simp: suffix_better_def less_prod_def)

interpretation rules: suffix_table se_labelCount se_domain sortSuffixes
proof
  fix s :: "suffix_entry list"
  show "mset (sortSuffixes s) = mset s"
    by (simp add: sortSuffixes_def mset_sort_outer)
  show "sorted_wrt (\<lambda>x y. (se_labelCount y, length (se_domain y))
      \<le> (se_labelCount x, length (se_domain x))) (sortSuffixes s)"
    unfolding sortSuffixes_def
    by (rule sorted_sort_outer[where key = "\<lambda>e. (se_labelCount e, length (se_domain e))"])
      (rule suffix_better_key)
qed

section \<open>What a stored rule stands for\<close>

text \<open>
  A rule is skipped, names the default upstream, or is filed under its canonical domain as an
  exact or as a suffix rule.
\<close>

datatype rule_class = Skipped | Default | ExactFor string | SuffixFor string

definition classify :: "domain_rule \<Rightarrow> rule_class" where
  "classify r =
     (let raw = TrimSpace (dr_Domain r) in
      if \<not> dr_Enabled r \<or> raw = [] then Skipped
      else if raw = ''*'' then Default
      else if dr_Mode r = ''exact'' then ExactFor (normalize_domain raw)
      else SuffixFor (normalize_domain raw))"

lemma normalize_TrimSpace_nonempty:
  "TrimSpace d \<noteq> [] \<Longrightarrow> normalize_domain (TrimSpace d) \<noteq> []"
  by (simp add: normalize_Nil_iff TrimSpace_fix trimmed_ToLower trimmed_TrimSpace)

definition entry_of :: "domain_rule \<Rightarrow> string \<Rightarrow> suffix_entry" where
  "entry_of r d = \<lparr>se_labelCount = labelsCount d, se_domain = d, se_upstream = dr_Upstream r\<rparr>"

text \<open>The loop body, by class. The test for an empty canonical name never fires.\<close>

lemma load_rule_classify:
  "load_rule (exact, suffs, dflt) r =
     (case classify r of
        Skipped \<Rightarrow> (exact, suffs, dflt)
      | Default \<Rightarrow> (exact, suffs, dr_Upstream r)
      | ExactFor d \<Rightarrow> (AList.update d (dr_Upstream r) exact, suffs, dflt)
      | SuffixFor d \<Rightarrow>
          (exact, suffs @ [entry_of r d], dflt))"
  by (auto simp: classify_def Let_def normalize_TrimSpace_nonempty entry_of_def)

declare load_rule.simps [simp del]

section \<open>The tables after a load\<close>

definition last_such :: "('a \<Rightarrow> bool) \<Rightarrow> 'a list \<Rightarrow> 'a option" where
  "last_such P xs = find P (rev xs)"

lemma last_such_snoc [simp]:
  "last_such P (xs @ [x]) = (if P x then Some x else last_such P xs)"
  by (simp add: last_such_def)

lemma last_such_Nil [simp]: "last_such P [] = None"
  by (simp add: last_such_def)

lemma build_tables_snoc:
  "build_tables (rules @ [r]) = load_rule (build_tables rules) r"
  by (simp add: build_tables_def)

lemma build_tables_spec:
  assumes "build_tables rules = (exact, suffs, dflt)"
  shows "map_of exact q = map_option dr_Upstream (last_such (\<lambda>r. classify r = ExactFor q) rules)"
    and "set suffs = {entry_of r d | r d. r \<in> set rules \<and> classify r = SuffixFor d}"
    and "dflt = (case last_such (\<lambda>r. classify r = Default) rules of None \<Rightarrow> [] | Some r \<Rightarrow> dr_Upstream r)"
    and "distinct (map fst exact)"
proof -
  have "map_of exact q = map_option dr_Upstream (last_such (\<lambda>r. classify r = ExactFor q) rules) \<and>
    set suffs = {entry_of r d | r d. r \<in> set rules \<and> classify r = SuffixFor d} \<and>
    dflt = (case last_such (\<lambda>r. classify r = Default) rules of None \<Rightarrow> [] | Some r \<Rightarrow> dr_Upstream r) \<and>
    distinct (map fst exact)"
    using assms
  proof (induction rules arbitrary: exact suffs dflt rule: rev_induct)
    case Nil
    then show ?case by (simp add: build_tables_def)
  next
    case (snoc r rules)
    obtain e s d where prev: "build_tables rules = (e, s, d)" by (cases "build_tables rules") auto
    note IH = snoc.IH[OF prev]
    from snoc.prems prev have step: "load_rule (e, s, d) r = (exact, suffs, dflt)"
      by (simp add: build_tables_snoc)
    show ?case
    proof (cases "classify r")
      case (SuffixFor x)
      with step IH have "suffs = s @ [entry_of r x]" "exact = e" "dflt = d"
        by (simp_all add: load_rule_classify)
      with SuffixFor IH show ?thesis by auto
    qed (use step IH in \<open>auto simp: load_rule_classify\<close>)
  qed
  then show "map_of exact q = map_option dr_Upstream (last_such (\<lambda>r. classify r = ExactFor q) rules)"
    and "set suffs = {entry_of r d | r d. r \<in> set rules \<and> classify r = SuffixFor d}"
    and "dflt = (case last_such (\<lambda>r. classify r = Default) rules of None \<Rightarrow> [] | Some r \<Rightarrow> dr_Upstream r)"
    and "distinct (map fst exact)"
    by blast+
qed

text \<open>Every entry of the suffix table carries the label count of its own domain.\<close>

lemma entry_of_sel [simp]:
  "se_labelCount (entry_of r d) = labelsCount d" "se_domain (entry_of r d) = d"
  "se_upstream (entry_of r d) = dr_Upstream r"
  by (simp_all add: entry_of_def)

lemma build_tables_wf:
  "build_tables rules = (exact, suffs, dflt) \<Longrightarrow> e \<in> set suffs \<Longrightarrow>
     se_labelCount e = labelsCount (se_domain e)"
  by (auto simp: build_tables_spec(2))

section \<open>Specification of the lookup\<close>

text \<open>
  What the stored rules select for a canonical name: the last exact rule for the name; else a
  suffix rule that covers it, none of the other covering ones being longer; else the last rule
  for the default, unless its upstream is empty.
\<close>

definition suffix_rule_for :: "domain_rule list \<Rightarrow> string \<Rightarrow> domain_rule \<Rightarrow> string \<Rightarrow> bool" where
  "suffix_rule_for rules q r d \<longleftrightarrow> r \<in> set rules \<and> classify r = SuffixFor d \<and> covers d q"

definition rule_spec :: "domain_rule list \<Rightarrow> string \<Rightarrow> string \<times> bool \<Rightarrow> bool" where
  "rule_spec rules q res \<longleftrightarrow>
     (case last_such (\<lambda>r. classify r = ExactFor q) rules of
        Some r \<Rightarrow> res = (dr_Upstream r, True)
      | None \<Rightarrow>
          (if \<exists>r d. suffix_rule_for rules q r d then
             \<exists>r d. suffix_rule_for rules q r d \<and> res = (dr_Upstream r, True) \<and>
               (\<forall>r' d'. suffix_rule_for rules q r' d' \<longrightarrow> length d' \<le> length d \<and> suffix d' d)
           else
             (case last_such (\<lambda>r. classify r = Default) rules of
                None \<Rightarrow> res = ([], False)
              | Some r \<Rightarrow> res = (dr_Upstream r, dr_Upstream r \<noteq> []))))"

lemma Match_suffix_stage:
  assumes tables: "build_tables rules = (exact, suffs, dflt)"
    and found: "find (\<lambda>s. covers (se_domain s) q) (sortSuffixes suffs) = Some s"
  shows "\<exists>r d. suffix_rule_for rules q r d \<and> se_upstream s = dr_Upstream r \<and>
           (\<forall>r' d'. suffix_rule_for rules q r' d' \<longrightarrow> length d' \<le> length d \<and> suffix d' d)"
proof -
  from found have f: "find (\<lambda>e. covers (se_domain e) q \<and> True) (sortSuffixes suffs) = Some s" by simp
  from rules.search_Some(1,2)[OF f] build_tables_spec(2)[OF tables]
  obtain r d where s: "s = entry_of r d" and r: "suffix_rule_for rules q r d"
    by (auto simp: suffix_rule_for_def)
  have "length d' \<le> length d \<and> suffix d' d" if "suffix_rule_for rules q r' d'" for r' d'
  proof -
    from that have "entry_of r' d' \<in> set suffs" "covers d' q"
      by (auto simp: build_tables_spec(2)[OF tables] suffix_rule_for_def)
    then have "length d' \<le> length d"
      using rules.search_longest[OF f build_tables_wf[OF tables], of "entry_of r' d'"] s by simp
    with \<open>covers d' q\<close> r show ?thesis
      by (auto simp: suffix_rule_for_def intro: covers_suffix_of)
  qed
  with r s show ?thesis by auto
qed

lemma Match_no_suffix:
  assumes "build_tables rules = (exact, suffs, dflt)"
    and "find (\<lambda>s. covers (se_domain s) q) (sortSuffixes suffs) = None"
  shows "\<not> suffix_rule_for rules q r d"
proof
  assume "suffix_rule_for rules q r d"
  then have "entry_of r d \<in> set suffs" "covers d q"
    by (auto simp: build_tables_spec(2)[OF assms(1)] suffix_rule_for_def)
  with assms(2) rules.search_None[of q "\<lambda>_. True" suffs] show False by force
qed

lemma Match_refines:
  "rule_spec rules (normalize_domain name) (fst (RuleCache_Match (RuleCache_Load c rules) name))"
proof -
  obtain exact suffs dflt where t: "build_tables rules = (exact, suffs, dflt)"
    by (cases "build_tables rules") auto
  let ?q = "normalize_domain name"
  show ?thesis
  proof (cases "last_such (\<lambda>r. classify r = ExactFor ?q) rules")
    case (Some r)
    then show ?thesis
      by (simp add: rule_spec_def RuleCache_Match_def RuleCache_Load_def Let_def t
          build_tables_spec(1)[OF t])
  next
    case exact: None
    show ?thesis
    proof (cases "find (\<lambda>s. covers (se_domain s) ?q) (sortSuffixes suffs)")
      case (Some s)
      from Match_suffix_stage[OF t Some] exact Some show ?thesis
        by (auto simp: rule_spec_def RuleCache_Match_def RuleCache_Load_def Let_def t
            build_tables_spec(1)[OF t])
    next
      case None
      with exact Match_no_suffix[OF t None] build_tables_spec(3)[OF t] show ?thesis
        by (auto simp: rule_spec_def RuleCache_Match_def RuleCache_Load_def Let_def t
            build_tables_spec(1)[OF t] split: option.splits)
    qed
  qed
qed

text \<open>C3: after a load, \<open>Match\<close> returns for every name what the stored rules select for its
  canonical form: exact rules first (the last one stored wins), then the longest covering suffix
  rule, then the default upstream, and a miss when there is none.\<close>

theorem Match_refines_rules:
  "rule_spec rules (normalize_domain name) (fst (RuleCache_Match (RuleCache_Load c rules) name))"
  by (rule Match_refines)

text \<open>The spelling of a name does not matter: \<open>Match\<close> gives the same answer and the same
  counters for a name and for its canonical form, whatever the cache holds.\<close>

theorem Match_canonical: "RuleCache_Match c (normalize_domain name) = RuleCache_Match c name"
  by (simp add: RuleCache_Match_def)

text \<open>A lookup counts exactly one hit or one miss, as it reports, and leaves the tables
  alone; the counters wrap around at 64 bits.\<close>

theorem Match_counts:
  "let ((u, ok), c') = RuleCache_Match c name in
     rc_exact c' = rc_exact c \<and> rc_suffix c' = rc_suffix c \<and>
     rc_defaultUpstream c' = rc_defaultUpstream c \<and>
     rc_hits c' = rc_hits c + (if ok then 1 else 0) \<and>
     rc_misses c' = rc_misses c + (if ok then 0 else 1)"
  by (auto simp: RuleCache_Match_def Let_def split: option.split)

text \<open>The sort of the suffix table loses and invents nothing and never leaves an entry
  before one with more labels, or with as many labels and a longer domain.\<close>

theorem sortSuffixes_correct:
  "mset (sortSuffixes s) = mset s \<and> sorted_wrt (\<lambda>x y. \<not> suffix_better y x) (sortSuffixes s)"
proof -
  have "(\<lambda>x y. \<not> suffix_better y x) =
      (\<lambda>x y. (se_labelCount y, length (se_domain y)) \<le> (se_labelCount x, length (se_domain x)))"
    by (intro ext) (auto simp: suffix_better_def less_eq_prod_def)
  then show ?thesis using rules.sorter_mset[of s] rules.sorter_order[of s] by simp
qed

text \<open>The number of rules a cache reports after a load.\<close>

lemma Size_Load:
  assumes "build_tables rules = (exact, suffs, dflt)"
  shows "RuleCache_Size (RuleCache_Load c rules) =
    card (dom (map_of exact)) + length suffs + (if dflt = [] then 0 else 1)"
proof -
  have "size (mset (sortSuffixes suffs)) = length suffs" using rules.sorter_mset by simp
  then show ?thesis
    using build_tables_spec(4)[OF assms]
    by (simp add: RuleCache_Size_def RuleCache_Load_def assms length_gomap)
qed

text \<open>C40: a rule written with a wildcard label, such as \<open>*.example.com\<close>, never takes effect
  on a name without an asterisk: where all rules are of that form, every such name is a miss.\<close>

theorem wildcard_rules_never_match:
  assumes "\<forall>r\<in>set rules. CHR ''*'' \<in> set (normalize_domain (TrimSpace (dr_Domain r))) \<and>
      TrimSpace (dr_Domain r) \<noteq> ''*''"
    and "CHR ''*'' \<notin> set (normalize_domain name)"
  shows "fst (RuleCache_Match (RuleCache_Load c rules) name) = ([], False)"
proof -
  let ?q = "normalize_domain name"
  have "classify r \<noteq> ExactFor ?q" "classify r \<noteq> Default" "classify r \<noteq> SuffixFor d \<or> \<not> covers d ?q"
    if "r \<in> set rules" for r d
    using assms that covers_set[of d ?q] by (auto simp: classify_def Let_def split: if_splits)
  then have "last_such (\<lambda>r. classify r = ExactFor ?q) rules = None"
    and "last_such (\<lambda>r. classify r = Default) rules = None"
    and "suffix_rule_for rules ?q = (\<lambda>_ _. False)"
    by (auto simp: last_such_def find_None_set suffix_rule_for_def fun_eq_iff)
  with Match_refines[of rules name c] show ?thesis by (simp add: rule_spec_def)
qed

definition example_rule :: "int \<Rightarrow> string \<Rightarrow> string \<Rightarrow> string \<Rightarrow> domain_rule" where
  "example_rule i domain mode upstream =
     \<lparr>dr_ID = i, dr_Domain = domain, dr_Mode = mode, dr_Upstream = upstream, dr_Enabled = True,
      dr_CreatedAt = 0, dr_UpdatedAt = 0\<rparr>"

theorem wildcard_rules_never_match_witness:
  "fst (RuleCache_Match (RuleCache_Load RuleCache_New
      [example_rule 1 ''*.example.com'' ''suffix'' ''10.0.0.1:53'']) ''www.example.com'') = ([], False)"
proof (rule wildcard_rules_never_match)
  have "TrimSpace ''*.example.com'' = ''*.example.com''" by code_simp
  moreover have "normalize_domain ''*.example.com'' = ''*.example.com.''" by code_simp
  ultimately show "\<forall>r\<in>set [example_rule 1 ''*.example.com'' ''suffix'' ''10.0.0.1:53''].
      CHR ''*'' \<in> set (normalize_domain (TrimSpace (dr_Domain r))) \<and> TrimSpace (dr_Domain r) \<noteq> ''*''"
    by (simp add: example_rule_def)
  have "normalize_domain ''www.example.com'' = ''www.example.com.''" by code_simp
  then show "CHR ''*'' \<notin> set (normalize_domain ''www.example.com'')" by simp
qed

text \<open>The sort is not stable, so which of two suffix rules for one domain applies depends on
  rules for other names: alone the first stored wins, beside a rule for a longer name the second.\<close>

theorem duplicate_suffix_unstable:
  "let a = example_rule 1 ''lan'' ''suffix'' ''10.0.0.1:53'';
       b = example_rule 2 ''lan'' ''suffix'' ''10.0.0.2:53'';
       other = example_rule 3 ''www.example.com'' ''suffix'' ''10.0.0.3:53'';
       ask = (\<lambda>rules. fst (RuleCache_Match (RuleCache_Load RuleCache_New rules) ''nas.lan''))
   in ask [a, b] = (''10.0.0.1:53'', True) \<and> ask [a, b, other] = (''10.0.0.2:53'', True)"
  by code_simp

end
