(* ===== verification/HostCache.thy ===== *)
theory HostCache
  imports DataModel SuffixTable
begin

text \<open>
  \<open>HostCache\<close> of \<open>internal/cache/rule_cache.go\<close>: the local records in the form the resolver
  reads, with \<open>Load\<close>, \<open>Lookup\<close> and the filter by record type, and the specification of
  \<open>Lookup\<close> in terms of the stored records. As in \<open>RuleCache\<close>, the lock is not part of the record.
\<close>

section \<open>State and operations\<close>

record host_entry =
  he_Type :: string
  he_Value :: string
  he_TTL :: uint32

record suffix_host_entry =
  sh_labelCount :: nat
  sh_domain :: string
  sh_entries :: "host_entry list"

record host_cache =
  ch_exact :: "(string, host_entry list) gomap"
  ch_suffix :: "suffix_host_entry list"
  ch_hits :: int64

definition NewHostCache :: host_cache where
  "NewHostCache = \<lparr>ch_exact = [], ch_suffix = [], ch_hits = 0\<rparr>"

definition host_better :: "suffix_host_entry \<Rightarrow> suffix_host_entry \<Rightarrow> bool" where
  "host_better x y \<longleftrightarrow>
     sh_labelCount x > sh_labelCount y \<or>
     (sh_labelCount x = sh_labelCount y \<and> length (sh_domain x) > length (sh_domain y))"

definition sortHostSuffixes :: "suffix_host_entry list \<Rightarrow> suffix_host_entry list" where
  "sortHostSuffixes s = sort_outer host_better 0 s"

type_synonym host_tables = "(string, host_entry list) gomap \<times> suffix_host_entry list"

definition append_at :: "string \<Rightarrow> 'a \<Rightarrow> (string, 'a list) gomap \<Rightarrow> (string, 'a list) gomap" where
  "append_at k x m =
     AList.update k ((case map_of m k of None \<Rightarrow> [] | Some xs \<Rightarrow> xs) @ [x]) m"

fun load_host :: "host_tables \<Rightarrow> host_record \<Rightarrow> host_tables" where
  "load_host (exact, suffs) r =
     (if \<not> hr_Enabled r then (exact, suffs)
      else
        let origDomain = TrimSpace (hr_Domain r) in
        if origDomain = [] then (exact, suffs)
        else
          let ttl = (word_of_int (hr_TTL r) :: uint32);
              entry = \<lparr>he_Type = ToUpper (hr_Type r), he_Value = hr_Value r, he_TTL = ttl\<rparr>;
              suffixDomain = (if HasPrefix origDomain ''*.'' then drop 2 origDomain else origDomain);
              fqdn = normalize_domain suffixDomain
          in if fqdn = [] then (exact, suffs)
             else
               let mode' = ToLower (TrimSpace (hr_MatchMode r));
                   mode = (if mode' = [] then ''exact'' else mode');
                   exact' = append_at fqdn entry exact
               in if mode = ''suffix'' then
                    (exact',
                     suffs @ [\<lparr>sh_labelCount = labelsCount fqdn, sh_domain = fqdn,
                                sh_entries = [entry]\<rparr>])
                  else (exact', suffs))"

definition build_host_tables :: "host_record list \<Rightarrow> host_tables" where
  "build_host_tables recs = foldl load_host ([], []) recs"

definition HostCache_Load :: "host_cache \<Rightarrow> host_record list \<Rightarrow> host_cache" where
  "HostCache_Load c recs =
     (case build_host_tables recs of (exact, suffs) \<Rightarrow>
        c\<lparr>ch_exact := exact, ch_suffix := sortHostSuffixes suffs\<rparr>)"

definition filterEntries :: "host_entry list \<Rightarrow> string \<Rightarrow> host_entry list" where
  "filterEntries entries qtype = filter (\<lambda>h. he_Type h = qtype \<or> qtype = ''ANY'') entries"

definition HostCache_Lookup ::
  "host_cache \<Rightarrow> string \<Rightarrow> string \<Rightarrow> (host_entry list \<times> bool) \<times> host_cache" where
  "HostCache_Lookup c name qt =
     (let fqdn = normalize_domain name;
          qtype' = ToUpper (TrimSpace qt);
          qtype = (if qtype' = [] then ''A'' else qtype');
          direct = (case map_of (ch_exact c) fqdn of
                      None \<Rightarrow> []
                    | Some entries \<Rightarrow> filterEntries entries qtype)
      in if direct \<noteq> [] then ((direct, True), c\<lparr>ch_hits := ch_hits c + 1\<rparr>)
         else
           case find (\<lambda>s. covers (sh_domain s) fqdn \<and> filterEntries (sh_entries s) qtype \<noteq> [])
                  (ch_suffix c) of
             Some s \<Rightarrow>
               ((filterEntries (sh_entries s) qtype, True), c\<lparr>ch_hits := ch_hits c + 1\<rparr>)
           | None \<Rightarrow> (([], False), c))"

definition HostCache_Size :: "host_cache \<Rightarrow> nat" where
  "HostCache_Size c = length (ch_exact c)"

section \<open>The suffix table\<close>

lemma host_better_key:
  "host_better x y \<longleftrightarrow>
     (sh_labelCount y, length (sh_domain y)) < (sh_labelCount x, length (sh_domain x))"
  by (auto simp: host_better_def less_prod_def)

interpretation hosts: suffix_table sh_labelCount sh_domain sortHostSuffixes
proof
  fix s :: "suffix_host_entry list"
  show "mset (sortHostSuffixes s) = mset s"
    by (simp add: sortHostSuffixes_def mset_sort_outer)
  show "sorted_wrt (\<lambda>x y. (sh_labelCount y, length (sh_domain y))
      \<le> (sh_labelCount x, length (sh_domain x))) (sortHostSuffixes s)"
    unfolding sortHostSuffixes_def
    by (rule sorted_sort_outer[where key = "\<lambda>e. (sh_labelCount e, length (sh_domain e))"])
      (rule host_better_key)
qed

section \<open>What a stored record stands for\<close>

text \<open>The canonical domain of a record and whether it also answers for the names below it;
  \<open>None\<close> for a record that is left out of the cache.\<close>

definition host_class :: "host_record \<Rightarrow> (string \<times> bool) option" where
  "host_class r =
     (let fqdn = normalize_domain (TrimPrefix (TrimSpace (hr_Domain r)) ''*.'') in
      if \<not> hr_Enabled r \<or> fqdn = [] then None
      else Some (fqdn, ToLower (TrimSpace (hr_MatchMode r)) = ''suffix''))"

definition host_entry_of :: "host_record \<Rightarrow> host_entry" where
  "host_entry_of r =
     \<lparr>he_Type = ToUpper (hr_Type r), he_Value = hr_Value r, he_TTL = word_of_int (hr_TTL r)\<rparr>"

definition host_suffix_of :: "host_record \<Rightarrow> string \<Rightarrow> suffix_host_entry" where
  "host_suffix_of r d =
     \<lparr>sh_labelCount = labelsCount d, sh_domain = d, sh_entries = [host_entry_of r]\<rparr>"

lemma host_suffix_of_sel [simp]:
  "sh_labelCount (host_suffix_of r d) = labelsCount d" "sh_domain (host_suffix_of r d) = d"
  "sh_entries (host_suffix_of r d) = [host_entry_of r]"
  by (simp_all add: host_suffix_of_def)

lemma normalize_blank [simp]: "normalize_domain [] = []"
proof -
  have "trimmed []" by (auto simp: trimmed_def starts_in_def HasPrefix_iff)
  then show ?thesis by (simp add: normalize_domain_def TrimSpace_fix)
qed

lemma TrimPrefix_star:
  "TrimPrefix s ''*.'' = (if HasPrefix s ''*.'' then drop 2 s else s)"
  by (simp add: TrimPrefix_def numeral_2_eq_2)

lemma load_host_class:
  "load_host (exact, suffs) r =
     (case host_class r of
        None \<Rightarrow> (exact, suffs)
      | Some (d, sfx) \<Rightarrow>
          (append_at d (host_entry_of r) exact,
           if sfx then suffs @ [host_suffix_of r d] else suffs))"
  by (auto simp: host_class_def host_entry_of_def host_suffix_of_def TrimPrefix_star Let_def)

declare load_host.simps [simp del]

section \<open>The tables after a load\<close>

text \<open>The entries filed under a name, in the order of the records.\<close>

definition entries_at :: "host_record list \<Rightarrow> string \<Rightarrow> host_entry list" where
  "entries_at recs q = map host_entry_of (filter (\<lambda>r. \<exists>sfx. host_class r = Some (q, sfx)) recs)"

lemma map_of_append_at:
  "map_of (append_at k x m) q =
     (if q = k then Some ((case map_of m k of None \<Rightarrow> [] | Some xs \<Rightarrow> xs) @ [x]) else map_of m q)"
  by (simp add: append_at_def)

lemma build_host_tables_snoc:
  "build_host_tables (recs @ [r]) = load_host (build_host_tables recs) r"
  by (simp add: build_host_tables_def)

lemma build_host_tables_all:
  assumes "build_host_tables recs = (exact, suffs)"
  shows "(\<forall>q. map_of exact q = (if entries_at recs q = [] then None else Some (entries_at recs q))) \<and>
    set suffs = {host_suffix_of r d | r d. r \<in> set recs \<and> host_class r = Some (d, True)} \<and>
    distinct (map fst exact)"
  using assms
proof (induction recs arbitrary: exact suffs rule: rev_induct)
  case Nil
  then show ?case by (simp add: build_host_tables_def entries_at_def)
next
  case (snoc r recs)
  obtain e s where prev: "build_host_tables recs = (e, s)" by (cases "build_host_tables recs") auto
  note IH = snoc.IH[OF prev]
  from snoc.prems prev have step: "load_host (e, s) r = (exact, suffs)"
    by (simp add: build_host_tables_snoc)
  show ?case
  proof (cases "host_class r")
    case None
    with step IH show ?thesis by (auto simp: load_host_class entries_at_def)
  next
    case (Some c)
    obtain d sfx where c: "c = (d, sfx)" by (cases c) auto
    from step Some c have ex: "exact = append_at d (host_entry_of r) e"
      and su: "suffs = (if sfx then s @ [host_suffix_of r d] else s)"
      by (simp_all add: load_host_class)
    have "map_of exact q =
        (if entries_at (recs @ [r]) q = [] then None else Some (entries_at (recs @ [r]) q))" for q
      using IH Some c by (auto simp: ex map_of_append_at entries_at_def)
    moreover have "set suffs =
        {host_suffix_of r' d' | r' d'. r' \<in> set (recs @ [r]) \<and> host_class r' = Some (d', True)}"
      using IH Some c by (cases sfx) (auto simp: su)
    ultimately show ?thesis using IH by (simp add: ex append_at_def)
  qed
qed

lemma build_host_tables_spec:
  assumes "build_host_tables recs = (exact, suffs)"
  shows "map_of exact q = (if entries_at recs q = [] then None else Some (entries_at recs q))"
    and "set suffs = {host_suffix_of r d | r d. r \<in> set recs \<and> host_class r = Some (d, True)}"
    and "distinct (map fst exact)"
  using build_host_tables_all[OF assms] by blast+

lemma host_tables_wf:
  "build_host_tables recs = (exact, suffs) \<Longrightarrow> e \<in> set suffs \<Longrightarrow>
     sh_labelCount e = labelsCount (sh_domain e)"
  by (auto simp: build_host_tables_spec(2))

section \<open>Specification of the lookup\<close>

definition query_type :: "string \<Rightarrow> string" where
  "query_type qt = (let t = ToUpper (TrimSpace qt) in if t = [] then ''A'' else t)"

definition type_matches :: "string \<Rightarrow> host_entry \<Rightarrow> bool" where
  "type_matches t e \<longleftrightarrow> he_Type e = t \<or> t = ''ANY''"

definition suffix_record_for ::
  "host_record list \<Rightarrow> string \<Rightarrow> string \<Rightarrow> host_record \<Rightarrow> string \<Rightarrow> bool" where
  "suffix_record_for recs q t r d \<longleftrightarrow>
     r \<in> set recs \<and> host_class r = Some (d, True) \<and> covers d q \<and> type_matches t (host_entry_of r)"

text \<open>
  What the stored records answer for a canonical name and a type: all records of the type filed
  under the name itself, in their order; if there are none, a single suffix record of the type
  that covers the name, none of the other such records having a longer domain.
\<close>

definition host_spec ::
  "host_record list \<Rightarrow> string \<Rightarrow> string \<Rightarrow> host_entry list \<times> bool \<Rightarrow> bool" where
  "host_spec recs q t res \<longleftrightarrow>
     (let direct = filter (type_matches t) (entries_at recs q) in
      if direct \<noteq> [] then res = (direct, True)
      else if \<exists>r d. suffix_record_for recs q t r d then
        \<exists>r d. suffix_record_for recs q t r d \<and> res = ([host_entry_of r], True) \<and>
          (\<forall>r' d'. suffix_record_for recs q t r' d' \<longrightarrow> length d' \<le> length d \<and> suffix d' d)
      else res = ([], False))"

lemma filterEntries_matches: "filterEntries es t = filter (type_matches t) es"
  by (auto simp: filterEntries_def type_matches_def intro: filter_cong)

lemma Lookup_unfold:
  "HostCache_Lookup c name qt =
     (let q = normalize_domain name; t = query_type qt;
          direct = filter (type_matches t) (case map_of (ch_exact c) q of None \<Rightarrow> [] | Some es \<Rightarrow> es)
      in if direct \<noteq> [] then ((direct, True), c\<lparr>ch_hits := ch_hits c + 1\<rparr>)
         else case find (\<lambda>s. covers (sh_domain s) q \<and> filter (type_matches t) (sh_entries s) \<noteq> [])
                     (ch_suffix c) of
                Some s \<Rightarrow> ((filter (type_matches t) (sh_entries s), True), c\<lparr>ch_hits := ch_hits c + 1\<rparr>)
              | None \<Rightarrow> (([], False), c))"
  by (simp add: HostCache_Lookup_def query_type_def filterEntries_matches Let_def split: option.split)

lemma Lookup_suffix_stage:
  assumes t: "build_host_tables recs = (exact, suffs)"
    and found: "find (\<lambda>s. covers (sh_domain s) q \<and> filterEntries (sh_entries s) qt \<noteq> [])
      (sortHostSuffixes suffs) = Some s"
  shows "\<exists>r d. suffix_record_for recs q qt r d \<and> filterEntries (sh_entries s) qt = [host_entry_of r] \<and>
           (\<forall>r' d'. suffix_record_for recs q qt r' d' \<longrightarrow> length d' \<le> length d \<and> suffix d' d)"
proof -
  from hosts.search_Some[OF found] build_host_tables_spec(2)[OF t]
  obtain r d where s: "s = host_suffix_of r d" and r: "suffix_record_for recs q qt r d"
    by (auto simp: suffix_record_for_def filterEntries_matches split: if_splits)
  have "length d' \<le> length d \<and> suffix d' d" if other: "suffix_record_for recs q qt r' d'" for r' d'
  proof -
    from other have "host_suffix_of r' d' \<in> set suffs" "covers d' q"
      "filterEntries (sh_entries (host_suffix_of r' d')) qt \<noteq> []"
      by (auto simp: build_host_tables_spec(2)[OF t] suffix_record_for_def filterEntries_matches)
    then have "length d' \<le> length d"
      using hosts.search_longest[OF found host_tables_wf[OF t], of "host_suffix_of r' d'"] s by simp
    with \<open>covers d' q\<close> r show ?thesis
      by (auto simp: suffix_record_for_def intro: covers_suffix_of)
  qed
  with r s show ?thesis by (auto simp: suffix_record_for_def filterEntries_matches)
qed

lemma Lookup_no_suffix:
  assumes t: "build_host_tables recs = (exact, suffs)"
    and "find (\<lambda>s. covers (sh_domain s) q \<and> filterEntries (sh_entries s) qt \<noteq> [])
      (sortHostSuffixes suffs) = None"
  shows "\<not> suffix_record_for recs q qt r d"
proof
  assume "suffix_record_for recs q qt r d"
  then have "host_suffix_of r d \<in> set suffs" "covers d q"
    "filterEntries (sh_entries (host_suffix_of r d)) qt \<noteq> []"
    by (auto simp: build_host_tables_spec(2)[OF t] suffix_record_for_def filterEntries_matches)
  with assms(2) hosts.search_None[of q "\<lambda>s. filterEntries (sh_entries s) qt \<noteq> []" suffs]
  show False by force
qed

lemma Lookup_shape:
  assumes "build_host_tables recs = (exact, suffs)"
  shows "fst (HostCache_Lookup (HostCache_Load c recs) name qt) =
    (let q = normalize_domain name; t = query_type qt;
         direct = filter (type_matches t) (entries_at recs q)
     in if direct \<noteq> [] then (direct, True)
        else case find (\<lambda>s. covers (sh_domain s) q \<and> filterEntries (sh_entries s) t \<noteq> [])
                    (sortHostSuffixes suffs) of
               Some s \<Rightarrow> (filterEntries (sh_entries s) t, True)
             | None \<Rightarrow> ([], False))"
  by (auto simp: Lookup_unfold HostCache_Load_def assms build_host_tables_spec(1)[OF assms]
      filterEntries_matches Let_def split: option.splits)

lemma Lookup_refines:
  "host_spec recs (normalize_domain name) (query_type qt)
     (fst (HostCache_Lookup (HostCache_Load c recs) name qt))"
proof -
  obtain exact suffs where t: "build_host_tables recs = (exact, suffs)"
    by (cases "build_host_tables recs") auto
  let ?q = "normalize_domain name" and ?t = "query_type qt"
  show ?thesis
  proof (cases "find (\<lambda>s. covers (sh_domain s) ?q \<and> filterEntries (sh_entries s) ?t \<noteq> [])
      (sortHostSuffixes suffs)")
    case None
    then have "suffix_record_for recs ?q ?t = (\<lambda>_ _. False)"
      using Lookup_no_suffix[OF t None] by (auto simp: fun_eq_iff)
    with None show ?thesis by (simp add: host_spec_def Lookup_shape[OF t] Let_def)
  next
    case (Some s)
    with Lookup_suffix_stage[OF t Some] show ?thesis
      by (auto simp: host_spec_def Lookup_shape[OF t] Let_def)
  qed
qed

text \<open>C4: after a load, \<open>Lookup\<close> returns for every name and type what the stored records answer:
  all records of the type under the name, else one record of the longest covering suffix domain
  that has the type, else nothing.\<close>

theorem Lookup_refines_records:
  "host_spec recs (normalize_domain name) (query_type qt)
     (fst (HostCache_Lookup (HostCache_Load c recs) name qt))"
  by (rule Lookup_refines)

text \<open>Every entry a lookup returns has the type asked for, or the question was for all types;
  the lookup succeeds exactly when it returns something, counts one hit then and changes
  nothing else.\<close>

lemma Lookup_entries:
  assumes "HostCache_Lookup c name qt = ((es, ok), c')"
  shows "\<forall>e\<in>set es. he_Type e = query_type qt \<or> query_type qt = ''ANY''" and "ok \<longleftrightarrow> es \<noteq> []"
    and "c' = c\<lparr>ch_hits := ch_hits c + (if ok then 1 else 0)\<rparr>"
  using assms unfolding Lookup_unfold Let_def
  by (auto simp: type_matches_def dest: find_SomeD split: option.splits if_splits)

text \<open>A name that has no records of its own is answered with one record at most, even when
  several suffix records of the type are stored for the domain that covers it.\<close>

theorem subdomain_single_answer:
  assumes "entries_at recs (normalize_domain name) = []"
  shows "length (fst (fst (HostCache_Lookup (HostCache_Load c recs) name qt))) \<le> 1"
  using Lookup_refines[of recs name qt c] assms
  by (auto simp: host_spec_def split: if_splits)

text \<open>The time to live reaches the cache unchanged exactly when it fits 32 bits; otherwise it
  is reduced modulo \<open>2 ^ 32\<close>.\<close>

theorem host_ttl_conversion:
  "uint (he_TTL (host_entry_of r)) = hr_TTL r mod 2 ^ 32 \<and>
   (uint (he_TTL (host_entry_of r)) = hr_TTL r \<longleftrightarrow> 0 \<le> hr_TTL r \<and> hr_TTL r < 2 ^ 32)"
proof -
  have "uint (he_TTL (host_entry_of r)) = hr_TTL r mod 2 ^ 32"
    by (simp add: host_entry_of_def uint_word_of_int)
  moreover have "hr_TTL r mod 2 ^ 32 = hr_TTL r \<longleftrightarrow> 0 \<le> hr_TTL r \<and> hr_TTL r < 2 ^ 32"
    by (metis mod_pos_pos_trivial pos_mod_bound pos_mod_sign zero_less_numeral zero_less_power)
  ultimately show ?thesis by simp
qed

text \<open>A record whose domain is written \<open>*.d\<close> is filed under \<open>d\<close> itself: in exact mode it
  answers for \<open>d\<close> and for no name below it.\<close>

theorem wildcard_exact_record:
  assumes "HasPrefix (TrimSpace (hr_Domain r)) ''*.''"
    and "ToLower (TrimSpace (hr_MatchMode r)) \<noteq> ''suffix''"
    and "fst (HostCache_Lookup (HostCache_Load c [r]) name qt) = (es, True)"
  shows "normalize_domain name = normalize_domain (drop 2 (TrimSpace (hr_Domain r)))"
  using Lookup_refines[of "[r]" name qt c] assms
  by (auto simp: host_spec_def entries_at_def suffix_record_for_def host_class_def TrimPrefix_star
      Let_def split: if_splits)

definition example_host :: "int \<Rightarrow> string \<Rightarrow> string \<Rightarrow> string \<Rightarrow> string \<Rightarrow> int \<Rightarrow> host_record" where
  "example_host i domain ty mode val ttl =
     \<lparr>hr_ID = i, hr_Domain = domain, hr_Type = ty, hr_MatchMode = mode, hr_Value = val,
      hr_TTL = ttl, hr_Comment = [], hr_Enabled = True, hr_CreatedAt = 0, hr_UpdatedAt = 0\<rparr>"

theorem subdomain_single_answer_witness:
  "length (fst (fst (HostCache_Lookup (HostCache_Load NewHostCache
      [example_host 1 ''lan'' ''A'' ''suffix'' ''10.0.0.1'' 300,
       example_host 2 ''lan'' ''A'' ''suffix'' ''10.0.0.2'' 300]) ''nas.lan'' ''A''))) \<le> 1"
proof (rule subdomain_single_answer)
  show "entries_at [example_host 1 ''lan'' ''A'' ''suffix'' ''10.0.0.1'' 300,
      example_host 2 ''lan'' ''A'' ''suffix'' ''10.0.0.2'' 300] (normalize_domain ''nas.lan'') = []"
  proof -
    have "TrimSpace ''lan'' = ''lan''" by code_simp
    moreover have "normalize_domain ''lan'' = ''lan.''" by code_simp
    moreover have "normalize_domain ''nas.lan'' = ''nas.lan.''" by code_simp
    moreover have "TrimPrefix ''lan'' ''*.'' = ''lan''" by code_simp
    ultimately show ?thesis by (simp add: entries_at_def host_class_def example_host_def)
  qed
qed

theorem wildcard_exact_record_witness:
  "normalize_domain ''Lan'' = normalize_domain (drop 2 (TrimSpace ''*.lan''))"
proof -
  let ?r = "example_host 1 ''*.lan'' ''A'' ''exact'' ''10.0.0.1'' 300"
  have "normalize_domain ''Lan'' = normalize_domain (drop 2 (TrimSpace (hr_Domain ?r)))"
  proof (rule wildcard_exact_record)
    show "HasPrefix (TrimSpace (hr_Domain ?r)) ''*.''" by code_simp
    show "ToLower (TrimSpace (hr_MatchMode ?r)) \<noteq> ''suffix''" by code_simp
    show "fst (HostCache_Lookup (HostCache_Load NewHostCache [?r]) ''Lan'' ''a'') =
        ([\<lparr>he_Type = ''A'', he_Value = ''10.0.0.1'', he_TTL = 300\<rparr>], True)" by code_simp
  qed
  then show ?thesis by (simp add: example_host_def)
qed

end
