(* ===== verification/GoBase64.thy ===== *)
theory GoBase64
  imports GoStrings
begin

text \<open>
  Go's \<open>encoding/base64\<close>: the standard padded encoding (stored credentials, HTTP basic
  authentication) and the raw URL encoding (the \<open>dns\<close> parameter of a DoH request). The decoder
  skips carriage returns and line feeds wherever they stand, so they are removed first.
\<close>

definition std_alphabet :: string where
  "std_alphabet = ''ABCDEFGHIJKLMNOPQRSTUVWXYZabcdefghijklmnopqrstuvwxyz0123456789+/''"

definition url_alphabet :: string where
  "url_alphabet = ''ABCDEFGHIJKLMNOPQRSTUVWXYZabcdefghijklmnopqrstuvwxyz0123456789-_''"

definition byte1 :: "int \<Rightarrow> int \<Rightarrow> char" where
  "byte1 p q = char_of (p * 4 + q div 16)"

definition byte2 :: "int \<Rightarrow> int \<Rightarrow> char" where
  "byte2 q r = char_of (q mod 16 * 16 + r div 4)"

definition byte3 :: "int \<Rightarrow> int \<Rightarrow> char" where
  "byte3 r s = char_of (r mod 4 * 64 + s)"

text \<open>A six-bit value and its character.\<close>

definition b64_char :: "string \<Rightarrow> int \<Rightarrow> char" where
  "b64_char al v = al ! nat v"

definition b64_val :: "string \<Rightarrow> char \<Rightarrow> int option" where
  "b64_val al c = map_option int (IndexByte al c)"

text \<open>Encoding three bytes at a time; the last group is padded.\<close>

fun b64_encode :: "string \<Rightarrow> bytes \<Rightarrow> string" where
  "b64_encode al [] = []"
| "b64_encode al [a] =
     [b64_char al (code a div 4), b64_char al (code a mod 4 * 16), CHR ''='', CHR ''='']"
| "b64_encode al [a, b] =
     [b64_char al (code a div 4), b64_char al (code a mod 4 * 16 + code b div 16),
      b64_char al (code b mod 16 * 4), CHR ''='']"
| "b64_encode al (a # b # c # rest) =
     [b64_char al (code a div 4), b64_char al (code a mod 4 * 16 + code b div 16),
      b64_char al (code b mod 16 * 4 + code c div 64), b64_char al (code c mod 64)]
     @ b64_encode al rest"

text \<open>Decoding four characters at a time; \<open>pad\<close> says whether the encoding is padded.\<close>

fun b64_decode :: "string \<Rightarrow> bool \<Rightarrow> string \<Rightarrow> bytes option" where
  "b64_decode al pad [] = Some []"
| "b64_decode al pad [a] = None"
| "b64_decode al pad [a, b] =
     (case (b64_val al a, b64_val al b) of
        (Some p, Some q) \<Rightarrow> if pad then None else Some [byte1 p q]
      | _ \<Rightarrow> None)"
| "b64_decode al pad [a, b, c] =
     (case (b64_val al a, b64_val al b, b64_val al c) of
        (Some p, Some q, Some r) \<Rightarrow> if pad then None else Some [byte1 p q, byte2 q r]
      | _ \<Rightarrow> None)"
| "b64_decode al pad (a # b # c # d # rest) =
     (case (b64_val al a, b64_val al b) of
        (Some p, Some q) \<Rightarrow>
          (case b64_val al c of
             None \<Rightarrow>
               if pad \<and> c = CHR ''='' \<and> d = CHR ''='' \<and> rest = [] then Some [byte1 p q] else None
           | Some r \<Rightarrow>
               (case b64_val al d of
                  None \<Rightarrow>
                    if pad \<and> d = CHR ''='' \<and> rest = [] then Some [byte1 p q, byte2 q r] else None
                | Some s \<Rightarrow>
                    map_option (\<lambda>t. byte1 p q # byte2 q r # byte3 r s # t)
                      (b64_decode al pad rest)))
      | _ \<Rightarrow> None)"

definition drop_newlines :: "string \<Rightarrow> string" where
  "drop_newlines s = filter (\<lambda>c. c \<noteq> CHR 0x0A \<and> c \<noteq> CHR 0x0D) s"

definition StdEncodeToString :: "bytes \<Rightarrow> string" where
  "StdEncodeToString bs = b64_encode std_alphabet bs"

definition StdDecodeString :: "string \<Rightarrow> bytes result" where
  "StdDecodeString s =
     (case b64_decode std_alphabet True (drop_newlines s) of
        None \<Rightarrow> Inl ''illegal base64 data''
      | Some bs \<Rightarrow> Inr bs)"

definition RawURLDecodeString :: "string \<Rightarrow> bytes result" where
  "RawURLDecodeString s =
     (case b64_decode url_alphabet False (drop_newlines s) of
        None \<Rightarrow> Inl ''illegal base64 data''
      | Some bs \<Rightarrow> Inr bs)"

section \<open>The round trip\<close>

lemma IndexByte_nth: "i < length s \<Longrightarrow> distinct s \<Longrightarrow> IndexByte s (s ! i) = Some i"
proof (induction s arbitrary: i)
  case Nil
  then show ?case by simp
next
  case (Cons d ds)
  then show ?case by (cases i) (auto dest: nth_mem)
qed

lemma std_alphabet_facts: "length std_alphabet = 64" "distinct std_alphabet"
  "CHR ''='' \<notin> set std_alphabet" "CHR 0x0A \<notin> set std_alphabet" "CHR 0x0D \<notin> set std_alphabet"
  by (simp_all add: std_alphabet_def)

lemma b64_val_char [simp]:
  "0 \<le> v \<Longrightarrow> v < 64 \<Longrightarrow> b64_val std_alphabet (b64_char std_alphabet v) = Some v"
  by (simp add: b64_val_def b64_char_def IndexByte_nth std_alphabet_facts nat_less_iff)

lemma b64_char_mem [simp]:
  "0 \<le> v \<Longrightarrow> v < 64 \<Longrightarrow> b64_char std_alphabet v \<in> set std_alphabet"
  by (simp add: b64_char_def std_alphabet_facts nat_less_iff)

lemma b64_val_pad [simp]: "b64_val std_alphabet CHR ''='' = None"
  using std_alphabet_facts(3) by (simp add: b64_val_def IndexByte_None)

lemma six_bits [simp]:
  "0 \<le> code a div 4" "code a div 4 < 64"
  "0 \<le> code a mod 4 * 16" "code a mod 4 * 16 < 64"
  "0 \<le> code a mod 4 * 16 + code b div 16" "code a mod 4 * 16 + code b div 16 < 64"
  "0 \<le> code b mod 16 * 4" "code b mod 16 * 4 < 64"
  "0 \<le> code b mod 16 * 4 + code c div 64" "code b mod 16 * 4 + code c div 64 < 64"
  "0 \<le> code c mod 64" "code c mod 64 < 64"
  using code_bounds[of a] code_bounds[of b] code_bounds[of c] by presburger+

lemma bytes_back [simp]:
  "byte1 (code a div 4) (code a mod 4 * 16 + code b div 16) = a"
  "byte1 (code a div 4) (code a mod 4 * 16) = a"
  "byte2 (code a mod 4 * 16 + code b div 16) (code b mod 16 * 4 + code c div 64) = b"
  "byte2 (code a mod 4 * 16 + code b div 16) (code b mod 16 * 4) = b"
  "byte3 (code b mod 16 * 4 + code c div 64) (code c mod 64) = c"
proof -
  have b: "code b div 16 div 16 = 0" "code b div 16 mod 16 = code b div 16"
    and c: "code c div 64 div 4 = 0" "code c div 64 mod 4 = code c div 64"
  proof -
    have "0 \<le> code b div 16" "code b div 16 < 16" "0 \<le> code c div 64" "code c div 64 < 4"
      using code_bounds[of b] code_bounds[of c] by linarith+
    then show "code b div 16 div 16 = 0" "code b div 16 mod 16 = code b div 16"
      "code c div 64 div 4 = 0" "code c div 64 mod 4 = code c div 64"
      by (simp_all only: div_pos_pos_trivial mod_pos_pos_trivial)
  qed
  have low: "(x * 16 + y) div 16 = x + y div 16" "(x * 16 + y) mod 16 = y mod 16"
    "(x * 4 + y) div 4 = x + y div 4" "(x * 4 + y) mod 4 = y mod 4" for x y :: int
    by simp_all
  show "byte1 (code a div 4) (code a mod 4 * 16 + code b div 16) = a"
    "byte1 (code a div 4) (code a mod 4 * 16) = a"
    by (simp_all add: byte1_def low b)
  show "byte2 (code a mod 4 * 16 + code b div 16) (code b mod 16 * 4 + code c div 64) = b"
    "byte2 (code a mod 4 * 16 + code b div 16) (code b mod 16 * 4) = b"
    by (simp_all add: byte2_def low b c)
  show "byte3 (code b mod 16 * 4 + code c div 64) (code c mod 64) = c"
    by (simp add: byte3_def low c)
qed

lemma b64_decode_encode: "b64_decode std_alphabet True (b64_encode std_alphabet bs) = Some bs"
  by (induction std_alphabet bs rule: b64_encode.induct) simp_all

lemma set_b64_encode: "set (b64_encode std_alphabet bs) \<subseteq> insert CHR ''='' (set std_alphabet)"
  by (induction std_alphabet bs rule: b64_encode.induct) simp_all

lemma drop_newlines_encode [simp]:
  "drop_newlines (b64_encode std_alphabet bs) = b64_encode std_alphabet bs"
  unfolding drop_newlines_def filter_id_conv
  using set_b64_encode[of bs] std_alphabet_facts by auto

lemma StdDecodeString_encode [simp]: "StdDecodeString (StdEncodeToString bs) = Inr bs"
  by (simp add: StdDecodeString_def StdEncodeToString_def b64_decode_encode)

end
