(* ===== verification/Crypto.thy ===== *)
theory Crypto
  imports GoBase64
begin

text \<open>
  \<open>internal/crypto/aes.go\<close>: sealing and opening a text with AES-GCM under base64, and the
  constant-time comparison of \<open>crypto/subtle\<close> that the handlers use on credentials. The AEAD
  itself is a parameter, a pair of functions; \<open>gcm_ok\<close> is the documented contract of
  \<open>cipher.AEAD\<close>: opening what was sealed under the same key and nonce gives the plaintext back.
\<close>

section \<open>Sealing and opening\<close>

record gcm_env =
  gcm_Seal :: "bytes \<Rightarrow> bytes \<Rightarrow> bytes \<Rightarrow> bytes"
  gcm_Open :: "bytes \<Rightarrow> bytes \<Rightarrow> bytes \<Rightarrow> bytes result"

definition NonceSize :: nat where
  "NonceSize = 12"

definition gcm_ok :: "gcm_env \<Rightarrow> bool" where
  "gcm_ok G \<longleftrightarrow> (\<forall>k n p. length n = NonceSize \<longrightarrow> gcm_Open G k n (gcm_Seal G k n p) = Inr p)"

text \<open>\<open>aes.NewCipher\<close> accepts keys of 16, 24 and 32 bytes; \<open>cipher.NewGCM\<close> accepts every AES
  cipher, so its error branch is not taken.\<close>

definition NewCipher :: "bytes \<Rightarrow> unit result" where
  "NewCipher key =
     (if length key \<in> {16, 24, 32} then Inr ()
      else Inl (''crypto/aes: invalid key size '' @ FormatInt (int (length key))))"

definition EncryptAES :: "gcm_env \<Rightarrow> bytes result \<Rightarrow> string \<Rightarrow> string \<Rightarrow> string result" where
  "EncryptAES G nonce plaintext key =
     (case NewCipher key of
        Inl e \<Rightarrow> Inl e
      | Inr _ \<Rightarrow>
          (case nonce of
             Inl e \<Rightarrow> Inl e
           | Inr n \<Rightarrow> Inr (StdEncodeToString (n @ gcm_Seal G key n plaintext))))"

text \<open>A text too short to hold a nonce is answered with the \<open>err\<close> of the call before, which is
  nil there: the function reports success.\<close>

definition DecryptAES :: "gcm_env \<Rightarrow> string \<Rightarrow> string \<Rightarrow> string result" where
  "DecryptAES G ciphertext key =
     (case StdDecodeString ciphertext of
        Inl e \<Rightarrow> Inl e
      | Inr data \<Rightarrow>
          (case NewCipher key of
             Inl e \<Rightarrow> Inl e
           | Inr _ \<Rightarrow>
               if length data < NonceSize then Inr []
               else
                 (case gcm_Open G key (take NonceSize data) (drop NonceSize data) of
                    Inl e \<Rightarrow> Inl e
                  | Inr plaintext \<Rightarrow> Inr plaintext)))"

definition valid_key :: "bytes \<Rightarrow> bool" where
  "valid_key key \<longleftrightarrow> length key \<in> {16, 24, 32}"

lemma NewCipher_valid [simp]: "valid_key key \<Longrightarrow> NewCipher key = Inr ()"
  by (simp add: NewCipher_def valid_key_def)

lemma EncryptAES_ok:
  "valid_key key \<Longrightarrow> EncryptAES G (Inr n) p key = Inr (StdEncodeToString (n @ gcm_Seal G key n p))"
  by (simp add: EncryptAES_def)

lemma DecryptAES_sealed:
  "gcm_ok G \<Longrightarrow> valid_key key \<Longrightarrow> length n = NonceSize \<Longrightarrow>
     DecryptAES G (StdEncodeToString (n @ gcm_Seal G key n p)) key = Inr p"
  by (simp add: DecryptAES_def gcm_ok_def)

text \<open>C17: what \<open>EncryptAES\<close> returns, \<open>DecryptAES\<close> turns back into the plaintext under the same
  key, for every text, nonce and AEAD that keeps its contract.\<close>

theorem DecryptAES_EncryptAES:
  assumes "gcm_ok G" and "length n = NonceSize" and "EncryptAES G (Inr n) p key = Inr c"
  shows "DecryptAES G c key = Inr p"
proof -
  have "valid_key key"
    using assms(3) by (auto simp: EncryptAES_def NewCipher_def valid_key_def split: if_splits)
  with assms show ?thesis by (auto simp: EncryptAES_ok DecryptAES_sealed)
qed

text \<open>A stored text that decodes to fewer bytes than a nonce is not an error: under every
  AEAD and every valid key \<open>DecryptAES\<close> reports success with the empty plaintext.\<close>

theorem DecryptAES_short_accepted:
  assumes "StdDecodeString c = Inr data" and "length data < NonceSize" and "valid_key key"
  shows "DecryptAES G c key = Inr []"
  using assms by (simp add: DecryptAES_def)

text \<open>An AEAD that keeps the contract: the plaintext followed by a tag of 16 zero bytes.\<close>

definition plain_gcm :: gcm_env where
  "plain_gcm =
     \<lparr>gcm_Seal = (\<lambda>k n p. p @ replicate 16 CHR 0x00),
      gcm_Open = (\<lambda>k n c. if length c < 16 then Inl ''cipher: message authentication failed''
                          else Inr (take (length c - 16) c))\<rparr>"

lemma plain_gcm_ok [simp]: "gcm_ok plain_gcm"
  by (simp add: gcm_ok_def plain_gcm_def)

theorem DecryptAES_EncryptAES_witness:
  "DecryptAES plain_gcm
     (StdEncodeToString (replicate 12 CHR ''n'' @ gcm_Seal plain_gcm (replicate 32 CHR ''k'') (replicate 12 CHR ''n'') ''admin''))
     (replicate 32 CHR ''k'') = Inr ''admin''"
  by (rule DecryptAES_EncryptAES[where n = "replicate 12 CHR ''n''"])
    (simp_all add: NonceSize_def EncryptAES_ok valid_key_def)

theorem DecryptAES_short_accepted_witness:
  "DecryptAES plain_gcm ''YWJj'' (replicate 32 CHR ''k'') = Inr []"
proof (rule DecryptAES_short_accepted)
  show "StdDecodeString ''YWJj'' = Inr ''abc''" by code_simp
  show "length ''abc'' < NonceSize" by (simp add: NonceSize_def)
  show "valid_key (replicate 32 CHR ''k'')" by (simp add: valid_key_def)
qed

section \<open>Constant-time comparison\<close>

unbundle bit_operations_syntax

text \<open>The accumulated difference of two byte strings of the same length.\<close>

fun byte_diff :: "8 word \<Rightarrow> bytes \<Rightarrow> bytes \<Rightarrow> 8 word" where
  "byte_diff v (a # x) (b # y) =
     byte_diff (v OR (word_of_int (code a) XOR word_of_int (code b))) x y"
| "byte_diff v _ _ = v"

definition ConstantTimeCompare :: "bytes \<Rightarrow> bytes \<Rightarrow> int" where
  "ConstantTimeCompare x y =
     (if length x \<noteq> length y then 0 else if byte_diff 0 x y = 0 then 1 else 0)"

lemma word_or_zero_iff: "(v OR w = 0) \<longleftrightarrow> v = 0 \<and> w = (0 :: 8 word)"
  by (auto simp: or_eq_0_iff)

lemma word_xor_zero_iff: "(v XOR w = 0) \<longleftrightarrow> v = (w :: 8 word)"
  by (auto simp: bit_eq_iff bit_xor_iff)

lemma word_code_eq: "(word_of_int (code a) = (word_of_int (code b) :: 8 word)) \<longleftrightarrow> a = b"
proof
  assume "word_of_int (code a) = (word_of_int (code b) :: 8 word)"
  then have "uint (word_of_int (code a) :: 8 word) = uint (word_of_int (code b) :: 8 word)" by simp
  then show "a = b" by (simp add: uint_word_of_int)
qed simp

lemma byte_diff_zero: "length x = length y \<Longrightarrow> byte_diff v x y = 0 \<longleftrightarrow> v = 0 \<and> x = y"
proof (induction v x y rule: byte_diff.induct)
  case (1 v a x b y)
  then show ?case by (auto simp: word_or_zero_iff word_xor_zero_iff word_code_eq)
qed auto

lemma ConstantTimeCompare_iff [simp]: "ConstantTimeCompare x y = 1 \<longleftrightarrow> x = y"
  by (auto simp: ConstantTimeCompare_def byte_diff_zero)

end
