(* ===== verification/IdTable.thy ===== *)
theory IdTable
  imports Prelude
begin

text \<open>
  The form both SQL tables of the store have: rows under an \<open>INTEGER PRIMARY KEY AUTOINCREMENT\<close>
  and the greatest key ever given out (SQLite keeps it in \<open>sqlite_sequence\<close>). The four
  operations are the meaning of the statements \<open>SELECT ... WHERE id = ?\<close>, \<open>INSERT\<close>,
  \<open>UPDATE ... WHERE id = ?\<close> and \<open>DELETE ... WHERE id = ?\<close>; the interface \<open>keyed_rows\<close> gives
  what they keep and return once, for any type of row.
\<close>

record 'r id_table =
  t_rows :: "'r list"
  t_seq :: int

definition tab_empty :: "'r id_table" where
  "tab_empty = \<lparr>t_rows = [], t_seq = 0\<rparr>"

definition tab_find :: "('r \<Rightarrow> int) \<Rightarrow> int \<Rightarrow> 'r id_table \<Rightarrow> 'r option" where
  "tab_find rid i t = find (\<lambda>r. rid r = i) (t_rows t)"

text \<open>An insertion fails when the greatest key has been given out.\<close>

definition tab_insert ::
  "(int \<Rightarrow> 'r \<Rightarrow> 'r) \<Rightarrow> 'r \<Rightarrow> 'r id_table \<Rightarrow> (int \<times> 'r id_table) result" where
  "tab_insert set_id r t =
     (if t_seq t \<ge> 2 ^ 63 - 1 then Inl ''database or disk is full (13)''
      else Inr (t_seq t + 1,
                t\<lparr>t_rows := t_rows t @ [set_id (t_seq t + 1) r], t_seq := t_seq t + 1\<rparr>))"

definition tab_update :: "('r \<Rightarrow> int) \<Rightarrow> int \<Rightarrow> ('r \<Rightarrow> 'r) \<Rightarrow> 'r id_table \<Rightarrow> 'r id_table" where
  "tab_update rid i f t = t\<lparr>t_rows := map (\<lambda>r. if rid r = i then f r else r) (t_rows t)\<rparr>"

text \<open>The number of rows deleted and the table without them.\<close>

definition tab_delete :: "('r \<Rightarrow> int) \<Rightarrow> int \<Rightarrow> 'r id_table \<Rightarrow> nat \<times> 'r id_table" where
  "tab_delete rid i t =
     (length (filter (\<lambda>r. rid r = i) (t_rows t)),
      t\<lparr>t_rows := filter (\<lambda>r. rid r \<noteq> i) (t_rows t)\<rparr>)"

definition tab_wf :: "('r \<Rightarrow> int) \<Rightarrow> 'r id_table \<Rightarrow> bool" where
  "tab_wf rid t \<longleftrightarrow>
     distinct (map rid (t_rows t)) \<and> 0 \<le> t_seq t \<and> t_seq t < 2 ^ 63 \<and>
     (\<forall>r\<in>set (t_rows t). 1 \<le> rid r \<and> rid r \<le> t_seq t)"

locale keyed_rows =
  fixes rid :: "'r \<Rightarrow> int"
    and set_id :: "int \<Rightarrow> 'r \<Rightarrow> 'r"
  assumes rid_set_id [simp]: "rid (set_id i r) = i"
begin

lemma wf_empty: "tab_wf rid tab_empty"
  by (simp add: tab_wf_def tab_empty_def)

lemma wf_insert: "tab_wf rid t \<Longrightarrow> tab_insert set_id r t = Inr (i, t') \<Longrightarrow> tab_wf rid t'"
  by (fastforce simp: tab_wf_def tab_insert_def split: if_splits)

lemma wf_update: "tab_wf rid t \<Longrightarrow> (\<And>r. rid (f r) = rid r) \<Longrightarrow> tab_wf rid (tab_update rid i f t)"
proof -
  assume wf: "tab_wf rid t" and f: "\<And>r. rid (f r) = rid r"
  have "rid \<circ> (\<lambda>r. if rid r = i then f r else r) = rid" by (auto simp: f)
  with wf show ?thesis by (auto simp: tab_wf_def tab_update_def f)
qed

lemma wf_delete: "tab_wf rid t \<Longrightarrow> tab_wf rid (snd (tab_delete rid i t))"
  by (auto simp: tab_wf_def tab_delete_def distinct_map_filter)

lemma find_fresh: "tab_wf rid t \<Longrightarrow> tab_find rid (t_seq t + 1) t = None"
  by (auto simp: tab_wf_def tab_find_def find_None_set)

lemma insert_key: "tab_insert set_id r t = Inr (i, t') \<Longrightarrow> i = t_seq t + 1 \<and> t_seq t' = i"
  by (auto simp: tab_insert_def split: if_splits)

lemma find_insert:
  assumes "tab_wf rid t" and "tab_insert set_id r t = Inr (i, t')"
  shows "tab_find rid i t' = Some (set_id i r)"
proof -
  have t': "t_rows t' = t_rows t @ [set_id i r]" and "i = t_seq t + 1"
    using assms(2) by (auto simp: tab_insert_def split: if_splits)
  with find_fresh[OF assms(1)] have "find (\<lambda>r. rid r = i) (t_rows t) = None"
    by (simp add: tab_find_def)
  then show ?thesis
    by (simp add: tab_find_def t' find_append)
qed

lemma find_insert_other:
  assumes "tab_insert set_id r t = Inr (i, t')" and "j \<noteq> i"
  shows "tab_find rid j t' = tab_find rid j t"
  using assms by (auto simp: tab_find_def tab_insert_def find_append split: if_splits option.splits)

lemma find_update:
  assumes "\<And>r. rid (f r) = rid r"
  shows "tab_find rid j (tab_update rid i f t) =
    (if j = i then map_option f (tab_find rid j t) else tab_find rid j t)"
proof -
  have "find (\<lambda>r. rid r = j) (map (\<lambda>r. if rid r = i then f r else r) xs) =
      (if j = i then map_option f (find (\<lambda>r. rid r = j) xs) else find (\<lambda>r. rid r = j) xs)" for xs
    by (induction xs) (auto simp: assms)
  then show ?thesis by (simp add: tab_find_def tab_update_def)
qed

lemma find_delete:
  "tab_find rid j (snd (tab_delete rid i t)) = (if j = i then None else tab_find rid j t)"
proof -
  have "find (\<lambda>r. rid r = j) (filter (\<lambda>r. rid r \<noteq> i) xs) =
      (if j = i then None else find (\<lambda>r. rid r = j) xs)" for xs
    by (induction xs) auto
  then show ?thesis by (simp add: tab_find_def tab_delete_def)
qed

lemma delete_count:
  "fst (tab_delete rid i t) = 0 \<longleftrightarrow> tab_find rid i t = None"
  by (auto simp: tab_delete_def tab_find_def find_None_set filter_empty_conv)

lemma delete_absent:
  "tab_find rid i t = None \<Longrightarrow> snd (tab_delete rid i t) = t"
  by (simp add: tab_delete_def tab_find_def find_None_set)

lemma update_absent:
  "tab_find rid i t = None \<Longrightarrow> tab_update rid i f t = t"
proof -
  assume "tab_find rid i t = None"
  then have "map (\<lambda>r. if rid r = i then f r else r) (t_rows t) = t_rows t"
    by (intro map_idI) (auto simp: tab_find_def find_None_set)
  then show ?thesis by (simp add: tab_update_def)
qed

lemma find_in_rows: "tab_find rid i t = Some r \<Longrightarrow> r \<in> set (t_rows t) \<and> rid r = i"
  unfolding tab_find_def by (rule find_SomeD)

lemma rows_find: "tab_wf rid t \<Longrightarrow> r \<in> set (t_rows t) \<Longrightarrow> tab_find rid (rid r) t = Some r"
proof -
  assume wf: "tab_wf rid t" and r: "r \<in> set (t_rows t)"
  then obtain r' where "tab_find rid (rid r) t = Some r'"
    by (cases "tab_find rid (rid r) t") (auto simp: tab_find_def find_None_set)
  moreover have "r' = r" if "tab_find rid (rid r) t = Some r'" for r'
    using find_in_rows[OF that] r wf by (auto simp: tab_wf_def distinct_map inj_on_def)
  ultimately show ?thesis by simp
qed

end

end
