(* ===== verification/Storage.thy ===== *)
theory Storage
  imports DataModel GoStrings Crypto IdTable
begin

text \<open>
  \<open>internal/storage/sqlite.go\<close>: the store of rules, local records and administrator
  credentials. The state is the content of the three tables; every statement of the source is a
  definition with the meaning of its SQL text. What the source leaves to the database engine and
  the operating system is the record \<open>sql_env\<close>: which statement fails and with what error, the
  text of \<open>CURRENT_TIMESTAMP\<close>, the order of rows \<open>ORDER BY\<close> does not fix, the instant a stored
  text stands for, and the random nonces. A statement that fails leaves the tables alone.
\<close>

section \<open>Tables and environment\<close>

record rule_row =
  rw_id :: int
  rw_domain :: string
  rw_mode :: string
  rw_upstream :: string
  rw_enabled :: int
  rw_created_at :: "string option"
  rw_updated_at :: "string option"

record host_row =
  hw_id :: int
  hw_domain :: string
  hw_type :: string
  hw_match_mode :: string
  hw_value :: string
  hw_ttl :: int
  hw_comment :: "string option"
  hw_enabled :: int
  hw_created_at :: "string option"
  hw_updated_at :: "string option"

record db =
  domain_rules :: "rule_row id_table"
  host_records :: "host_row id_table"
  app_config :: "(string, string option) gomap"
  stmt_count :: nat
  rand_count :: nat

record sql_env =
  stmt_error :: "nat \<Rightarrow> go_error option"
  current_timestamp :: "nat \<Rightarrow> string"
  rules_order :: "rule_row list \<Rightarrow> rule_row list"
  hosts_order :: "host_row list \<Rightarrow> host_row list"
  time_of_text :: "string \<Rightarrow> go_time"
  rand_nonce :: "nat \<Rightarrow> bytes result"
  sql_gcm :: gcm_env

text \<open>The contract of \<open>ORDER BY domain ASC\<close> and \<open>ORDER BY domain ASC, type ASC\<close>: the rows,
  sorted by the bytes of the key, ties in any order.\<close>

definition order_ok :: "sql_env \<Rightarrow> bool" where
  "order_ok E \<longleftrightarrow>
     (\<forall>rs. mset (rules_order E rs) = mset rs \<and> sorted (map rw_domain (rules_order E rs))) \<and>
     (\<forall>rs. mset (hosts_order E rs) = mset rs \<and>
        sorted (map (\<lambda>r. (hw_domain r, hw_type r)) (hosts_order E rs)))"

text \<open>The \<open>n\<close>-th statement of the connection.\<close>

definition run_stmt :: "sql_env \<Rightarrow> (db \<Rightarrow> 'a result \<times> db) \<Rightarrow> db \<Rightarrow> 'a result \<times> db" where
  "run_stmt E f s =
     (let s' = s\<lparr>stmt_count := stmt_count s + 1\<rparr> in
      case stmt_error E (stmt_count s) of
        Some e \<Rightarrow> (Inl e, s')
      | None \<Rightarrow> f s')"

text \<open>\<open>CURRENT_TIMESTAMP\<close> inside the statement that is running.\<close>

definition now_text :: "sql_env \<Rightarrow> db \<Rightarrow> string" where
  "now_text E s = current_timestamp E (stmt_count s)"

definition no_rows :: go_error where
  "no_rows = ''sql: no rows in result set''"

definition null_scan :: "string \<Rightarrow> string \<Rightarrow> go_error" where
  "null_scan index column =
     ''sql: Scan error on column index '' @ index @ '', name '' @ [CHR 0x22] @ column @ [CHR 0x22] @
     '': converting NULL to string is unsupported''"

section \<open>Domain rules\<close>

text \<open>\<open>rowToRule\<close> and the loop body of \<open>rowsToRules\<close>.\<close>

definition rowToRule :: "sql_env \<Rightarrow> rule_row \<Rightarrow> domain_rule result" where
  "rowToRule E r =
     (case rw_created_at r of
        None \<Rightarrow> Inl (null_scan ''5'' ''created_at'')
      | Some created \<Rightarrow>
          (case rw_updated_at r of
             None \<Rightarrow> Inl (null_scan ''6'' ''updated_at'')
           | Some updated \<Rightarrow>
               Inr \<lparr>dr_ID = rw_id r, dr_Domain = rw_domain r, dr_Mode = rw_mode r,
                    dr_Upstream = rw_upstream r, dr_Enabled = (rw_enabled r = 1),
                    dr_CreatedAt = time_of_text E created,
                    dr_UpdatedAt = time_of_text E updated\<rparr>))"

fun scan_rows :: "('r \<Rightarrow> 'v result) \<Rightarrow> 'r list \<Rightarrow> 'v list result" where
  "scan_rows f [] = Inr []"
| "scan_rows f (r # rs) =
     (case f r of
        Inl e \<Rightarrow> Inl e
      | Inr v \<Rightarrow> (case scan_rows f rs of Inl e \<Rightarrow> Inl e | Inr vs \<Rightarrow> Inr (v # vs)))"

definition ListRules :: "sql_env \<Rightarrow> db \<Rightarrow> domain_rule list result \<times> db" where
  "ListRules E =
     run_stmt E (\<lambda>s. (scan_rows (rowToRule E) (rules_order E (t_rows (domain_rules s))), s))"

definition GetRule :: "sql_env \<Rightarrow> int \<Rightarrow> db \<Rightarrow> domain_rule result \<times> db" where
  "GetRule E i =
     run_stmt E (\<lambda>s.
       (case tab_find rw_id i (domain_rules s) of
          None \<Rightarrow> Inl no_rows
        | Some r \<Rightarrow> rowToRule E r, s))"

definition insert_rule ::
  "sql_env \<Rightarrow> string \<Rightarrow> string \<Rightarrow> string \<Rightarrow> int \<Rightarrow> db \<Rightarrow> int result \<times> db" where
  "insert_rule E domain mode upstream enabled =
     run_stmt E (\<lambda>s.
       let row = \<lparr>rw_id = 0, rw_domain = domain, rw_mode = mode, rw_upstream = upstream,
                  rw_enabled = enabled, rw_created_at = Some (now_text E s),
                  rw_updated_at = Some (now_text E s)\<rparr>
       in case tab_insert (\<lambda>i r. r\<lparr>rw_id := i\<rparr>) row (domain_rules s) of
            Inl e \<Rightarrow> (Inl e, s)
          | Inr (i, t) \<Rightarrow> (Inr i, s\<lparr>domain_rules := t\<rparr>))"

definition CreateRule :: "sql_env \<Rightarrow> rule_create \<Rightarrow> db \<Rightarrow> domain_rule result \<times> db" where
  "CreateRule E c s =
     (let enabled = (case rc_Enabled c of None \<Rightarrow> 1 | Some b \<Rightarrow> if \<not> b then 0 else 1);
          mode = (if rc_Mode c \<noteq> ''exact'' \<and> rc_Mode c \<noteq> ''suffix'' then ''suffix'' else rc_Mode c)
      in case insert_rule E (rc_Domain c) mode (rc_Upstream c) enabled s of
           (Inl e, s') \<Rightarrow> (Inl e, s')
         | (Inr i, s') \<Rightarrow> GetRule E i s')"

text \<open>The assignments of \<open>UpdateRule\<close> to the rule it read.\<close>

definition apply_rule_update :: "rule_update \<Rightarrow> domain_rule \<Rightarrow> domain_rule" where
  "apply_rule_update u cur =
     cur\<lparr>dr_Domain := (case ru_Domain u of None \<Rightarrow> dr_Domain cur | Some d \<Rightarrow> d),
         dr_Mode := (case ru_Mode u of None \<Rightarrow> dr_Mode cur | Some m \<Rightarrow> m),
         dr_Upstream := (case ru_Upstream u of None \<Rightarrow> dr_Upstream cur | Some p \<Rightarrow> p),
         dr_Enabled := (case ru_Enabled u of None \<Rightarrow> dr_Enabled cur | Some b \<Rightarrow> b)\<rparr>"

definition update_rule_stmt ::
  "sql_env \<Rightarrow> string \<Rightarrow> string \<Rightarrow> string \<Rightarrow> int \<Rightarrow> int \<Rightarrow> db \<Rightarrow> unit result \<times> db" where
  "update_rule_stmt E domain mode upstream enabled i =
     run_stmt E (\<lambda>s.
       (Inr (), s\<lparr>domain_rules :=
          tab_update rw_id i
            (\<lambda>r. r\<lparr>rw_domain := domain, rw_mode := mode, rw_upstream := upstream,
                   rw_enabled := enabled, rw_updated_at := Some (now_text E s)\<rparr>)
            (domain_rules s)\<rparr>))"

definition UpdateRule :: "sql_env \<Rightarrow> int \<Rightarrow> rule_update \<Rightarrow> db \<Rightarrow> domain_rule result \<times> db" where
  "UpdateRule E i u s =
     (case GetRule E i s of
        (Inl e, s1) \<Rightarrow> (Inl e, s1)
      | (Inr cur0, s1) \<Rightarrow>
          let cur = apply_rule_update u cur0;
              enabled = (if dr_Enabled cur then 1 else 0)
          in case update_rule_stmt E (dr_Domain cur) (dr_Mode cur) (dr_Upstream cur) enabled i s1 of
               (Inl e, s2) \<Rightarrow> (Inl e, s2)
             | (Inr _, s2) \<Rightarrow> GetRule E i s2)"

definition DeleteRule :: "sql_env \<Rightarrow> int \<Rightarrow> db \<Rightarrow> unit result \<times> db" where
  "DeleteRule E i =
     run_stmt E (\<lambda>s.
       case tab_delete rw_id i (domain_rules s) of
         (n, t) \<Rightarrow> (if n = 0 then Inl ''not found'' else Inr (), s\<lparr>domain_rules := t\<rparr>))"

section \<open>Local records\<close>

definition normalizeMatchMode :: "string \<Rightarrow> string" where
  "normalizeMatchMode m0 =
     (let m = ToLower (TrimSpace m0) in
      if m = [] then ''exact''
      else if m \<noteq> ''exact'' \<and> m \<noteq> ''suffix'' then ''exact''
      else m)"

definition rowToHost :: "sql_env \<Rightarrow> host_row \<Rightarrow> host_record result" where
  "rowToHost E r =
     (case hw_comment r of
        None \<Rightarrow> Inl (null_scan ''6'' ''comment'')
      | Some comment \<Rightarrow>
          (case hw_created_at r of
             None \<Rightarrow> Inl (null_scan ''8'' ''created_at'')
           | Some created \<Rightarrow>
               (case hw_updated_at r of
                  None \<Rightarrow> Inl (null_scan ''9'' ''updated_at'')
                | Some updated \<Rightarrow>
                    Inr \<lparr>hr_ID = hw_id r, hr_Domain = hw_domain r, hr_Type = hw_type r,
                         hr_MatchMode = (if hw_match_mode r = [] then ''exact'' else hw_match_mode r),
                         hr_Value = hw_value r, hr_TTL = hw_ttl r, hr_Comment = comment,
                         hr_Enabled = (hw_enabled r = 1),
                         hr_CreatedAt = time_of_text E created,
                         hr_UpdatedAt = time_of_text E updated\<rparr>)))"

definition ListHosts :: "sql_env \<Rightarrow> db \<Rightarrow> host_record list result \<times> db" where
  "ListHosts E =
     run_stmt E (\<lambda>s. (scan_rows (rowToHost E) (hosts_order E (t_rows (host_records s))), s))"

definition GetHost :: "sql_env \<Rightarrow> int \<Rightarrow> db \<Rightarrow> host_record result \<times> db" where
  "GetHost E i =
     run_stmt E (\<lambda>s.
       (case tab_find hw_id i (host_records s) of
          None \<Rightarrow> Inl no_rows
        | Some r \<Rightarrow> rowToHost E r, s))"

definition insert_host ::
  "sql_env \<Rightarrow> string \<Rightarrow> string \<Rightarrow> string \<Rightarrow> string \<Rightarrow> int \<Rightarrow> string \<Rightarrow> int \<Rightarrow> db \<Rightarrow> int result \<times> db" where
  "insert_host E domain ty matchMode val ttl comment enabled =
     run_stmt E (\<lambda>s.
       let row = \<lparr>hw_id = 0, hw_domain = domain, hw_type = ty, hw_match_mode = matchMode,
                  hw_value = val, hw_ttl = ttl, hw_comment = Some comment, hw_enabled = enabled,
                  hw_created_at = Some (now_text E s), hw_updated_at = Some (now_text E s)\<rparr>
       in case tab_insert (\<lambda>i r. r\<lparr>hw_id := i\<rparr>) row (host_records s) of
            Inl e \<Rightarrow> (Inl e, s)
          | Inr (i, t) \<Rightarrow> (Inr i, s\<lparr>host_records := t\<rparr>))"

definition CreateHost :: "sql_env \<Rightarrow> host_create \<Rightarrow> db \<Rightarrow> host_record result \<times> db" where
  "CreateHost E c s =
     (let enabled = (case hc_Enabled c of None \<Rightarrow> 1 | Some b \<Rightarrow> if \<not> b then 0 else 1);
          ttl = (case hc_TTL c of None \<Rightarrow> 300 | Some t \<Rightarrow> if t < 0 then 0 else t);
          t = ToUpper (TrimSpace (hc_Type c));
          ty = (if t = [] then ''A'' else t);
          matchMode = normalizeMatchMode (hc_MatchMode c)
      in case insert_host E (hc_Domain c) ty matchMode (hc_Value c) ttl (hc_Comment c) enabled s of
           (Inl e, s') \<Rightarrow> (Inl e, s')
         | (Inr i, s') \<Rightarrow> GetHost E i s')"

definition apply_host_update :: "host_update \<Rightarrow> host_record \<Rightarrow> host_record" where
  "apply_host_update u cur =
     cur\<lparr>hr_Domain := (case hu_Domain u of None \<Rightarrow> hr_Domain cur | Some d \<Rightarrow> d),
         hr_Type := (case hu_Type u of
                       None \<Rightarrow> hr_Type cur
                     | Some t \<Rightarrow> let t' = ToUpper (TrimSpace t) in if t' = [] then ''A'' else t'),
         hr_MatchMode := (case hu_MatchMode u of
                            None \<Rightarrow> hr_MatchMode cur
                          | Some m \<Rightarrow> normalizeMatchMode m),
         hr_Value := (case hu_Value u of None \<Rightarrow> hr_Value cur | Some v \<Rightarrow> v),
         hr_TTL := (case hu_TTL u of None \<Rightarrow> hr_TTL cur | Some t \<Rightarrow> if t < 0 then 0 else t),
         hr_Comment := (case hu_Comment u of None \<Rightarrow> hr_Comment cur | Some c \<Rightarrow> c),
         hr_Enabled := (case hu_Enabled u of None \<Rightarrow> hr_Enabled cur | Some b \<Rightarrow> b)\<rparr>"

definition update_host_stmt :: "sql_env \<Rightarrow> host_record \<Rightarrow> int \<Rightarrow> int \<Rightarrow> db \<Rightarrow> unit result \<times> db" where
  "update_host_stmt E cur enabled i =
     run_stmt E (\<lambda>s.
       (Inr (), s\<lparr>host_records :=
          tab_update hw_id i
            (\<lambda>r. r\<lparr>hw_domain := hr_Domain cur, hw_type := hr_Type cur,
                   hw_match_mode := hr_MatchMode cur, hw_value := hr_Value cur,
                   hw_ttl := hr_TTL cur, hw_comment := Some (hr_Comment cur),
                   hw_enabled := enabled, hw_updated_at := Some (now_text E s)\<rparr>)
            (host_records s)\<rparr>))"

definition UpdateHost :: "sql_env \<Rightarrow> int \<Rightarrow> host_update \<Rightarrow> db \<Rightarrow> host_record result \<times> db" where
  "UpdateHost E i u s =
     (case GetHost E i s of
        (Inl e, s1) \<Rightarrow> (Inl e, s1)
      | (Inr cur0, s1) \<Rightarrow>
          let cur = apply_host_update u cur0;
              enabled = (if hr_Enabled cur then 1 else 0)
          in case update_host_stmt E cur enabled i s1 of
               (Inl e, s2) \<Rightarrow> (Inl e, s2)
             | (Inr _, s2) \<Rightarrow> GetHost E i s2)"

definition DeleteHost :: "sql_env \<Rightarrow> int \<Rightarrow> db \<Rightarrow> unit result \<times> db" where
  "DeleteHost E i =
     run_stmt E (\<lambda>s.
       case tab_delete hw_id i (host_records s) of
         (n, t) \<Rightarrow> (if n = 0 then Inl ''not found'' else Inr (), s\<lparr>host_records := t\<rparr>))"

section \<open>Administrator account\<close>

definition authKey :: string where
  "authKey = ''93a8b2c9d1e4f5asnail0d2e3f4aed6c''"

definition adminUserKey :: string where
  "adminUserKey = ''admin_user''"

definition adminPassKey :: string where
  "adminPassKey = ''admin_pass''"

text \<open>\<open>EncryptAES\<close> with the next nonce of the random source.\<close>

definition encrypt_next :: "sql_env \<Rightarrow> string \<Rightarrow> db \<Rightarrow> string result \<times> db" where
  "encrypt_next E plaintext s =
     (EncryptAES (sql_gcm E) (rand_nonce E (rand_count s)) plaintext authKey,
      s\<lparr>rand_count := rand_count s + 1\<rparr>)"

text \<open>A transaction: the tables go back to what they were when a statement of the body or the
  commit fails.\<close>

definition rollback :: "db \<Rightarrow> db \<Rightarrow> db" where
  "rollback before now = before\<lparr>stmt_count := stmt_count now, rand_count := rand_count now\<rparr>"

definition in_tx :: "sql_env \<Rightarrow> (db \<Rightarrow> unit result \<times> db) \<Rightarrow> db \<Rightarrow> unit result \<times> db" where
  "in_tx E body s =
     (case run_stmt E (\<lambda>s. (Inr (), s)) s of
        (Inl e, s1) \<Rightarrow> (Inl e, s1)
      | (Inr _, s1) \<Rightarrow>
          (case body s1 of
             (Inl e, s2) \<Rightarrow> (Inl e, rollback s1 s2)
           | (Inr _, s2) \<Rightarrow>
               (case run_stmt E (\<lambda>s. (Inr (), s)) s2 of
                  (Inl e, s3) \<Rightarrow> (Inl e, rollback s1 s3)
                | (Inr _, s3) \<Rightarrow> (Inr (), s3))))"

text \<open>\<open>INSERT OR REPLACE INTO app_config\<close> and \<open>UPDATE app_config SET value = ? WHERE key = ?\<close>;
  the update of an absent key changes no row and is no error.\<close>

definition replace_config :: "sql_env \<Rightarrow> string \<Rightarrow> string \<Rightarrow> db \<Rightarrow> unit result \<times> db" where
  "replace_config E k v =
     run_stmt E (\<lambda>s. (Inr (), s\<lparr>app_config := AList.update k (Some v) (app_config s)\<rparr>))"

definition update_config :: "sql_env \<Rightarrow> string \<Rightarrow> string \<Rightarrow> db \<Rightarrow> unit result \<times> db" where
  "update_config E v k =
     run_stmt E (\<lambda>s.
       (Inr (), s\<lparr>app_config :=
          map (\<lambda>(k', v'). if k' = k then (k', Some v) else (k', v')) (app_config s)\<rparr>))"

definition seq_unit ::
  "(db \<Rightarrow> unit result \<times> db) \<Rightarrow> (db \<Rightarrow> unit result \<times> db) \<Rightarrow> db \<Rightarrow> unit result \<times> db" where
  "seq_unit f g s = (case f s of (Inl e, s1) \<Rightarrow> (Inl e, s1) | (Inr _, s1) \<Rightarrow> g s1)"

text \<open>The two encryptions both writers of the account start with.\<close>

definition encrypt_pair :: "sql_env \<Rightarrow> string \<Rightarrow> string \<Rightarrow> db \<Rightarrow> (string \<times> string) result \<times> db" where
  "encrypt_pair E user pass s =
     (case encrypt_next E user s of
        (Inl e, s1) \<Rightarrow> (Inl e, s1)
      | (Inr eu, s1) \<Rightarrow>
          (case encrypt_next E pass s1 of
             (Inl e, s2) \<Rightarrow> (Inl e, s2)
           | (Inr ep, s2) \<Rightarrow> (Inr (eu, ep), s2)))"

definition count_admin_keys :: "db \<Rightarrow> nat" where
  "count_admin_keys s =
     length (filter (\<lambda>kv. fst kv = adminUserKey \<or> fst kv = adminPassKey) (app_config s))"

definition initAdminAccount :: "sql_env \<Rightarrow> db \<Rightarrow> unit result \<times> db" where
  "initAdminAccount E s =
     (case run_stmt E (\<lambda>s. (Inr (count_admin_keys s), s)) s of
        (Inl e, s1) \<Rightarrow> (Inl e, s1)
      | (Inr n, s1) \<Rightarrow>
          if n = 2 then (Inr (), s1)
          else
            (case encrypt_pair E ''admin'' ''123456'' s1 of
               (Inl e, s2) \<Rightarrow> (Inl e, s2)
             | (Inr (eu, ep), s2) \<Rightarrow>
                 in_tx E (seq_unit (replace_config E adminUserKey eu) (replace_config E adminPassKey ep)) s2))"

definition get_admin_value :: "sql_env \<Rightarrow> string \<Rightarrow> db \<Rightarrow> string result \<times> db" where
  "get_admin_value E k =
     run_stmt E (\<lambda>s.
       (case map_of (app_config s) k of
          None \<Rightarrow> Inl no_rows
        | Some None \<Rightarrow> Inl (null_scan ''0'' ''value'')
        | Some (Some v) \<Rightarrow> DecryptAES (sql_gcm E) v authKey, s))"

definition GetAdminUser :: "sql_env \<Rightarrow> db \<Rightarrow> string result \<times> db" where
  "GetAdminUser E = get_admin_value E adminUserKey"

definition GetAdminPass :: "sql_env \<Rightarrow> db \<Rightarrow> string result \<times> db" where
  "GetAdminPass E = get_admin_value E adminPassKey"

definition UpdateAdminAccount :: "sql_env \<Rightarrow> string \<Rightarrow> string \<Rightarrow> db \<Rightarrow> unit result \<times> db" where
  "UpdateAdminAccount E user pass s =
     (case encrypt_pair E user pass s of
        (Inl e, s1) \<Rightarrow> (Inl e, s1)
      | (Inr (eu, ep), s1) \<Rightarrow>
          in_tx E (seq_unit (update_config E eu adminUserKey) (update_config E ep adminPassKey)) s1)"

end
