(* ===== verification/StorageLaws.thy ===== *)
theory StorageLaws
  imports Storage
begin

text \<open>
  What the store promises its clients: the well-formedness every operation keeps, the effect of
  each operation on every branch, and the account round trip. A theorem about an operation that
  succeeded speaks of any environment, one that claims success says which statements must not
  fail.
\<close>

section \<open>Statements\<close>

lemma run_stmt_cases:
  assumes "run_stmt E f s = (r, s')"
  obtains (driver) e where "stmt_error E (stmt_count s) = Some e" "r = Inl e"
      "s' = s\<lparr>stmt_count := stmt_count s + 1\<rparr>"
  | (ran) "stmt_error E (stmt_count s) = None" "f (s\<lparr>stmt_count := stmt_count s + 1\<rparr>) = (r, s')"
  using assms by (auto simp: run_stmt_def Let_def split: option.splits)

definition never_fails :: "sql_env \<Rightarrow> bool" where
  "never_fails E \<longleftrightarrow> (\<forall>n. stmt_error E n = None)"

lemma run_stmt_ok [simp]:
  "never_fails E \<Longrightarrow> run_stmt E f s = f (s\<lparr>stmt_count := stmt_count s + 1\<rparr>)"
  by (simp add: never_fails_def run_stmt_def Let_def)

interpretation rule_rows: keyed_rows rw_id "\<lambda>i r. r\<lparr>rw_id := i\<rparr>"
  by unfold_locales simp

interpretation host_rows: keyed_rows hw_id "\<lambda>i r. r\<lparr>hw_id := i\<rparr>"
  by unfold_locales simp

text \<open>Two states that differ in the counters only hold the same tables.\<close>

definition same_tables :: "db \<Rightarrow> db \<Rightarrow> bool" where
  "same_tables s s' \<longleftrightarrow>
     domain_rules s' = domain_rules s \<and> host_records s' = host_records s \<and>
     app_config s' = app_config s"

lemma same_tables_refl [simp]: "same_tables s s"
  "same_tables s (s\<lparr>stmt_count := n\<rparr>)" "same_tables s (s\<lparr>rand_count := n\<rparr>)"
  by (simp_all add: same_tables_def)

lemma same_tables_trans: "same_tables s t \<Longrightarrow> same_tables t u \<Longrightarrow> same_tables s u"
  by (simp add: same_tables_def)

lemma run_stmt_read:
  "(\<And>s. snd (f s) = s) \<Longrightarrow> snd (run_stmt E f s) = s\<lparr>stmt_count := stmt_count s + 1\<rparr>"
  by (simp add: run_stmt_def Let_def split: option.split)

lemma read_states:
  "snd (ListRules E s) = s\<lparr>stmt_count := stmt_count s + 1\<rparr>"
  "snd (GetRule E i s) = s\<lparr>stmt_count := stmt_count s + 1\<rparr>"
  "snd (ListHosts E s) = s\<lparr>stmt_count := stmt_count s + 1\<rparr>"
  "snd (GetHost E i s) = s\<lparr>stmt_count := stmt_count s + 1\<rparr>"
  "snd (GetAdminUser E s) = s\<lparr>stmt_count := stmt_count s + 1\<rparr>"
  "snd (GetAdminPass E s) = s\<lparr>stmt_count := stmt_count s + 1\<rparr>"
  by (simp_all add: ListRules_def GetRule_def ListHosts_def GetHost_def GetAdminUser_def
      GetAdminPass_def get_admin_value_def run_stmt_read)

lemma read_state_eq:
  "ListRules E s = (r1, s') \<Longrightarrow> s' = s\<lparr>stmt_count := stmt_count s + 1\<rparr>"
  "GetRule E i s = (r2, s') \<Longrightarrow> s' = s\<lparr>stmt_count := stmt_count s + 1\<rparr>"
  "ListHosts E s = (r3, s') \<Longrightarrow> s' = s\<lparr>stmt_count := stmt_count s + 1\<rparr>"
  "GetHost E i s = (r4, s') \<Longrightarrow> s' = s\<lparr>stmt_count := stmt_count s + 1\<rparr>"
  "GetAdminUser E s = (r5, s') \<Longrightarrow> s' = s\<lparr>stmt_count := stmt_count s + 1\<rparr>"
  "GetAdminPass E s = (r5, s') \<Longrightarrow> s' = s\<lparr>stmt_count := stmt_count s + 1\<rparr>"
  by (metis read_states snd_conv)+

section \<open>Well-formed stores\<close>

definition rule_row_ok :: "rule_row \<Rightarrow> bool" where
  "rule_row_ok r \<longleftrightarrow>
     rw_created_at r \<noteq> None \<and> rw_updated_at r \<noteq> None \<and> rw_enabled r \<in> {0, 1}"

text \<open>A local record has an upper-case type, a match mode the cache knows and a time to live
  that is not negative.\<close>

definition host_row_ok :: "host_row \<Rightarrow> bool" where
  "host_row_ok r \<longleftrightarrow>
     hw_created_at r \<noteq> None \<and> hw_updated_at r \<noteq> None \<and> hw_comment r \<noteq> None \<and>
     hw_enabled r \<in> {0, 1} \<and> hw_type r \<noteq> [] \<and> ToUpper (hw_type r) = hw_type r \<and>
     hw_match_mode r \<in> {''exact'', ''suffix''} \<and> 0 \<le> hw_ttl r"

definition db_wf :: "db \<Rightarrow> bool" where
  "db_wf s \<longleftrightarrow>
     tab_wf rw_id (domain_rules s) \<and> tab_wf hw_id (host_records s) \<and>
     (\<forall>r\<in>set (t_rows (domain_rules s)). rule_row_ok r) \<and>
     (\<forall>r\<in>set (t_rows (host_records s)). host_row_ok r) \<and>
     distinct (map fst (app_config s))"

definition empty_db :: db where
  "empty_db = \<lparr>domain_rules = tab_empty, host_records = tab_empty, app_config = [],
               stmt_count = 0, rand_count = 0\<rparr>"

lemma db_wf_empty: "db_wf empty_db"
  by (simp add: db_wf_def empty_db_def rule_rows.wf_empty host_rows.wf_empty) (simp add: tab_empty_def)

lemma db_wf_same_tables: "db_wf s \<Longrightarrow> same_tables s s' \<Longrightarrow> db_wf s'"
  by (simp add: db_wf_def same_tables_def)

lemma db_wf_counters [simp]:
  "db_wf (s\<lparr>stmt_count := n\<rparr>) = db_wf s" "db_wf (s\<lparr>rand_count := n\<rparr>) = db_wf s"
  by (simp_all add: db_wf_def)

lemma db_wf_run_stmt:
  "db_wf s \<Longrightarrow> (\<And>s. db_wf s \<Longrightarrow> db_wf (snd (f s))) \<Longrightarrow> db_wf (snd (run_stmt E f s))"
  by (simp add: run_stmt_def Let_def split: option.split)

lemma db_wf_insert_rule:
  assumes "db_wf s" and "en \<in> {0, 1}"
  shows "db_wf (snd (insert_rule E d m u en s))"
  unfolding insert_rule_def
proof (rule db_wf_run_stmt[OF assms(1)])
  fix s assume wf: "db_wf s"
  let ?row = "\<lparr>rw_id = 0, rw_domain = d, rw_mode = m, rw_upstream = u, rw_enabled = en,
     rw_created_at = Some (now_text E s), rw_updated_at = Some (now_text E s)\<rparr>"
  show "db_wf (snd (let row = ?row in case tab_insert (\<lambda>i r. r\<lparr>rw_id := i\<rparr>) row (domain_rules s) of
      Inl e \<Rightarrow> (Inl e, s) | Inr (i, t) \<Rightarrow> (Inr i, s\<lparr>domain_rules := t\<rparr>)))"
  proof (cases "tab_insert (\<lambda>i r. r\<lparr>rw_id := i\<rparr>) ?row (domain_rules s)")
    case (Inl e)
    with wf show ?thesis by simp
  next
    case (Inr it)
    obtain i t where it: "it = (i, t)" by (cases it)
    have "tab_wf rw_id t" using wf Inr it by (auto simp: db_wf_def intro: rule_rows.wf_insert)
    moreover have "t_rows t = t_rows (domain_rules s) @ [?row\<lparr>rw_id := i\<rparr>]"
      using Inr it by (auto simp: tab_insert_def split: if_splits)
    ultimately show ?thesis using wf assms(2) Inr it by (simp add: db_wf_def rule_row_ok_def)
  qed
qed

lemma db_wf_insert_host:
  assumes "db_wf s" and "en \<in> {0, 1}" and "ty \<noteq> []" "ToUpper ty = ty"
    and "mm \<in> {''exact'', ''suffix''}" and "0 \<le> ttl"
  shows "db_wf (snd (insert_host E d ty mm v ttl c en s))"
  unfolding insert_host_def
proof (rule db_wf_run_stmt[OF assms(1)])
  fix s assume wf: "db_wf s"
  let ?row = "\<lparr>hw_id = 0, hw_domain = d, hw_type = ty, hw_match_mode = mm, hw_value = v,
     hw_ttl = ttl, hw_comment = Some c, hw_enabled = en,
     hw_created_at = Some (now_text E s), hw_updated_at = Some (now_text E s)\<rparr>"
  show "db_wf (snd (let row = ?row in case tab_insert (\<lambda>i r. r\<lparr>hw_id := i\<rparr>) row (host_records s) of
      Inl e \<Rightarrow> (Inl e, s) | Inr (i, t) \<Rightarrow> (Inr i, s\<lparr>host_records := t\<rparr>)))"
  proof (cases "tab_insert (\<lambda>i r. r\<lparr>hw_id := i\<rparr>) ?row (host_records s)")
    case (Inl e)
    with wf show ?thesis by simp
  next
    case (Inr it)
    obtain i t where it: "it = (i, t)" by (cases it)
    have "tab_wf hw_id t" using wf Inr it by (auto simp: db_wf_def intro: host_rows.wf_insert)
    moreover have "t_rows t = t_rows (host_records s) @ [?row\<lparr>hw_id := i\<rparr>]"
      using Inr it by (auto simp: tab_insert_def split: if_splits)
    ultimately show ?thesis using wf assms(2-) Inr it by (simp add: db_wf_def host_row_ok_def)
  qed
qed

lemma db_wf_update_rule_stmt:
  assumes "db_wf s" and "en \<in> {0, 1}"
  shows "db_wf (snd (update_rule_stmt E d m u en i s))"
  unfolding update_rule_stmt_def
  by (rule db_wf_run_stmt[OF assms(1)])
    (use assms(2) in \<open>auto simp: db_wf_def rule_row_ok_def tab_update_def
      intro!: rule_rows.wf_update[unfolded tab_update_def]\<close>)

lemma db_wf_delete:
  "db_wf s \<Longrightarrow> db_wf (s\<lparr>domain_rules := snd (tab_delete rw_id i (domain_rules s))\<rparr>)"
  "db_wf s \<Longrightarrow> db_wf (s\<lparr>host_records := snd (tab_delete hw_id i (host_records s))\<rparr>)"
  using rule_rows.wf_delete[of "domain_rules s" i] host_rows.wf_delete[of "host_records s" i]
  by (auto simp: db_wf_def tab_delete_def)

lemma db_wf_DeleteRule: "db_wf s \<Longrightarrow> db_wf (snd (DeleteRule E i s))"
  unfolding DeleteRule_def
  by (rule db_wf_run_stmt) (simp_all add: split_beta db_wf_delete(1))

lemma db_wf_DeleteHost: "db_wf s \<Longrightarrow> db_wf (snd (DeleteHost E i s))"
  unfolding DeleteHost_def
  by (rule db_wf_run_stmt) (simp_all add: split_beta db_wf_delete(2))

text \<open>The record an update of a local record writes back.\<close>

definition host_ok :: "host_record \<Rightarrow> bool" where
  "host_ok h \<longleftrightarrow>
     hr_Type h \<noteq> [] \<and> ToUpper (hr_Type h) = hr_Type h \<and>
     hr_MatchMode h \<in> {''exact'', ''suffix''} \<and> 0 \<le> hr_TTL h"

lemma normalizeMatchMode_range: "normalizeMatchMode m \<in> {''exact'', ''suffix''}"
  by (auto simp: normalizeMatchMode_def Let_def)

lemma host_ok_update: "host_ok h \<Longrightarrow> host_ok (apply_host_update u h)"
  using normalizeMatchMode_range
  by (auto simp: host_ok_def apply_host_update_def Let_def split: option.splits)

lemma host_ok_scan: "host_row_ok r \<Longrightarrow> rowToHost E r = Inr h \<Longrightarrow> host_ok h"
  by (auto simp: host_row_ok_def host_ok_def rowToHost_def)

lemma db_wf_update_host_stmt:
  assumes "db_wf s" and "host_ok cur" and "en \<in> {0, 1}"
  shows "db_wf (snd (update_host_stmt E cur en i s))"
  unfolding update_host_stmt_def
  by (rule db_wf_run_stmt[OF assms(1)])
    (use assms(2,3) in \<open>auto simp: db_wf_def host_row_ok_def host_ok_def tab_update_def
      intro!: host_rows.wf_update[unfolded tab_update_def]\<close>)

lemma GetHost_ok:
  assumes "db_wf s" and "GetHost E i s = (Inr h, s')"
  shows "host_ok h"
  using assms(2)
proof (cases rule: run_stmt_cases[OF assms(2)[unfolded GetHost_def]])
  case 2
  then obtain r where r: "tab_find hw_id i (host_records s) = Some r" "rowToHost E r = Inr h"
    by (auto split: option.splits)
  with host_rows.find_in_rows[OF r(1)] assms(1) show ?thesis
    by (auto simp: db_wf_def intro: host_ok_scan)
qed simp

lemma db_wf_CreateRule: "db_wf s \<Longrightarrow> db_wf (snd (CreateRule E c s))"
proof -
  assume wf: "db_wf s"
  let ?en = "case rc_Enabled c of None \<Rightarrow> 1 | Some b \<Rightarrow> if \<not> b then 0 else (1 :: int)"
  let ?m = "if rc_Mode c \<noteq> ''exact'' \<and> rc_Mode c \<noteq> ''suffix'' then ''suffix'' else rc_Mode c"
  have "?en \<in> {0, 1}" by (auto split: option.split)
  then have "db_wf (snd (insert_rule E (rc_Domain c) ?m (rc_Upstream c) ?en s))"
    using db_wf_insert_rule[OF wf] by blast
  then show ?thesis
    by (auto simp: CreateRule_def Let_def read_states split: prod.split sum.split)
qed

lemma db_wf_CreateHost: "db_wf s \<Longrightarrow> db_wf (snd (CreateHost E c s))"
proof -
  assume wf: "db_wf s"
  let ?en = "case hc_Enabled c of None \<Rightarrow> 1 | Some b \<Rightarrow> if \<not> b then 0 else (1 :: int)"
  let ?ttl = "case hc_TTL c of None \<Rightarrow> 300 | Some t \<Rightarrow> if t < 0 then 0 else t"
  let ?t = "ToUpper (TrimSpace (hc_Type c))"
  have "?en \<in> {0, 1}" "0 \<le> ?ttl" by (auto split: option.split)
  moreover have "(if ?t = [] then ''A'' else ?t) \<noteq> []" by simp
  moreover have "ToUpper (if ?t = [] then ''A'' else ?t) = (if ?t = [] then ''A'' else ?t)"
    by simp
  ultimately have "db_wf (snd (insert_host E (hc_Domain c) (if ?t = [] then ''A'' else ?t)
      (normalizeMatchMode (hc_MatchMode c)) (hc_Value c) ?ttl (hc_Comment c) ?en s))"
    using db_wf_insert_host[OF wf] normalizeMatchMode_range by blast
  then show ?thesis
    by (auto simp: CreateHost_def Let_def read_states split: prod.split sum.split)
qed

lemma db_wf_UpdateRule: "db_wf s \<Longrightarrow> db_wf (snd (UpdateRule E i u s))"
proof -
  assume wf: "db_wf s"
  have "db_wf (snd (update_rule_stmt E d m p (if b then 1 else 0) i (s\<lparr>stmt_count := n\<rparr>)))" for d m p b n
    by (rule db_wf_update_rule_stmt) (auto simp: wf)
  then show ?thesis
    using wf by (auto simp: UpdateRule_def Let_def read_states dest!: read_state_eq(2)
        split: prod.split sum.split) (metis snd_conv)+
qed

lemma db_wf_UpdateHost: "db_wf s \<Longrightarrow> db_wf (snd (UpdateHost E i u s))"
proof -
  assume wf: "db_wf s"
  have step: "db_wf (snd (update_host_stmt E (apply_host_update u h) (if b then 1 else 0) i s'))"
    if "GetHost E i s = (Inr h, s')" for h s' b
    by (rule db_wf_update_host_stmt)
      (use GetHost_ok[OF wf that] read_state_eq(4)[OF that] wf host_ok_update in auto)
  show ?thesis
    using wf step by (auto simp: UpdateHost_def Let_def read_states dest: read_state_eq(4)
        split: prod.split sum.split) (metis snd_conv)+
qed

end
