(* ===== verification/StoreContract.thy ===== *)
theory StoreContract
  imports StorageLaws
begin

text \<open>
  The contract of the store towards its clients. \<open>crud\<close> is the interface of one table of it: a
  state stands for a map from keys to records, reading leaves the map alone, and a creation, an
  update or a deletion that reports success changes it at one key. Both tables of
  \<open>internal/storage/sqlite.go\<close> implement it. The theory also runs whole sequences of store
  operations and gives the invariant every such run keeps.
\<close>

section \<open>The interface of a table\<close>

locale crud =
  fixes inv :: "'s \<Rightarrow> bool"
    and abs :: "'s \<Rightarrow> int \<Rightarrow> 'v option"
    and key :: "'v \<Rightarrow> int"
    and get :: "int \<Rightarrow> 's \<Rightarrow> 'v result \<times> 's"
    and create :: "'c \<Rightarrow> 's \<Rightarrow> 'v result \<times> 's"
    and update :: "int \<Rightarrow> 'u \<Rightarrow> 's \<Rightarrow> 'v result \<times> 's"
    and delete :: "int \<Rightarrow> 's \<Rightarrow> unit result \<times> 's"
  assumes get_inv: "inv s \<Longrightarrow> inv (snd (get i s))"
    and get_abs: "inv s \<Longrightarrow> abs (snd (get i s)) = abs s"
    and get_value: "inv s \<Longrightarrow> fst (get i s) = Inr v \<Longrightarrow> abs s i = Some v"
    and create_inv: "inv s \<Longrightarrow> inv (snd (create c s))"
    and create_new: "inv s \<Longrightarrow> create c s = (Inr v, s') \<Longrightarrow> abs s (key v) = None"
    and create_abs: "inv s \<Longrightarrow> create c s = (Inr v, s') \<Longrightarrow> abs s' = (abs s)(key v \<mapsto> v)"
    and update_inv: "inv s \<Longrightarrow> inv (snd (update i u s))"
    and update_old: "inv s \<Longrightarrow> update i u s = (Inr v, s') \<Longrightarrow> i \<in> dom (abs s)"
    and update_abs: "inv s \<Longrightarrow> update i u s = (Inr v, s') \<Longrightarrow> abs s' = (abs s)(i \<mapsto> v)"
    and delete_inv: "inv s \<Longrightarrow> inv (snd (delete i s))"
    and delete_old: "inv s \<Longrightarrow> delete i s = (Inr (), s') \<Longrightarrow> i \<in> dom (abs s)"
    and delete_abs: "inv s \<Longrightarrow> delete i s = (Inr (), s') \<Longrightarrow> abs s' = (abs s)(i := None)"
begin

text \<open>What was created is read back, unless the read fails.\<close>

lemma get_create:
  assumes "inv s" and "create c s = (Inr v, s')" and "fst (get (key v) s') = Inr w"
  shows "w = v"
proof -
  have "inv s'" using create_inv[OF assms(1), of c] assms(2) by simp
  from get_value[OF this assms(3)] create_abs[OF assms(1,2)] show ?thesis by simp
qed

lemma get_create_other:
  assumes "inv s" and "create c s = (Inr v, s')" and "fst (get i s') = Inr w" and "i \<noteq> key v"
  shows "abs s i = Some w"
proof -
  have "inv s'" using create_inv[OF assms(1), of c] assms(2) by simp
  from get_value[OF this assms(3)] create_abs[OF assms(1,2)] assms(4) show ?thesis by simp
qed

lemma get_update:
  assumes "inv s" and "update i u s = (Inr v, s')" and "fst (get j s') = Inr w"
  shows "if j = i then w = v else abs s j = Some w"
proof -
  have "inv s'" using update_inv[OF assms(1), of i u] assms(2) by simp
  from get_value[OF this assms(3)] update_abs[OF assms(1,2)] show ?thesis by (auto split: if_splits)
qed

text \<open>A deleted record is never read again, and a second deletion does not succeed.\<close>

lemma get_delete:
  assumes "inv s" and "delete i s = (Inr (), s')"
  shows "fst (get i s') \<noteq> Inr w"
proof
  assume "fst (get i s') = Inr w"
  moreover have "inv s'" using delete_inv[OF assms(1), of i] assms(2) by simp
  ultimately show False using get_value delete_abs[OF assms] by fastforce
qed

lemma delete_twice:
  assumes "inv s" and "delete i s = (Inr (), s')"
  shows "fst (delete i s') \<noteq> Inr ()"
proof
  assume "fst (delete i s') = Inr ()"
  then have "delete i s' = (Inr (), snd (delete i s'))" by (metis prod.collapse)
  moreover have "inv s'" using delete_inv[OF assms(1), of i] assms(2) by simp
  ultimately show False using delete_old delete_abs[OF assms] by fastforce
qed

end

section \<open>Rules as a map\<close>

definition rules_map :: "sql_env \<Rightarrow> db \<Rightarrow> int \<Rightarrow> domain_rule option" where
  "rules_map E s i =
     (case tab_find rw_id i (domain_rules s) of
        None \<Rightarrow> None
      | Some r \<Rightarrow> (case rowToRule E r of Inl _ \<Rightarrow> None | Inr v \<Rightarrow> Some v))"

lemma rules_map_counters [simp]:
  "rules_map E (s\<lparr>stmt_count := n\<rparr>) = rules_map E s"
  "rules_map E (s\<lparr>rand_count := n\<rparr>) = rules_map E s"
  by (simp_all add: rules_map_def fun_eq_iff)

lemma rowToRule_ok: "rule_row_ok r \<Longrightarrow> \<exists>v. rowToRule E r = Inr v"
  by (auto simp: rule_row_ok_def rowToRule_def)

lemma rowToRule_id: "rowToRule E r = Inr v \<Longrightarrow> dr_ID v = rw_id r"
  by (auto simp: rowToRule_def split: option.splits)

lemma GetRule_fst:
  "db_wf s \<Longrightarrow> fst (GetRule E i s) =
     (case stmt_error E (stmt_count s) of
        Some e \<Rightarrow> Inl e
      | None \<Rightarrow> (case rules_map E s i of None \<Rightarrow> Inl no_rows | Some v \<Rightarrow> Inr v))"
proof -
  assume wf: "db_wf s"
  have "\<exists>v. rowToRule E r = Inr v" if "tab_find rw_id i (domain_rules s) = Some r" for r
    using rule_rows.find_in_rows[OF that] wf by (auto simp: db_wf_def intro: rowToRule_ok)
  then show ?thesis
    by (auto simp: GetRule_def run_stmt_def Let_def rules_map_def split: option.splits sum.splits)
qed

text \<open>The row an insertion stores.\<close>

lemma insert_rule_ok:
  assumes "insert_rule E d m u en s = (Inr i, s')"
  shows "\<exists>t. tab_insert (\<lambda>i r. r\<lparr>rw_id := i\<rparr>)
      \<lparr>rw_id = 0, rw_domain = d, rw_mode = m, rw_upstream = u, rw_enabled = en,
       rw_created_at = Some (current_timestamp E (stmt_count s + 1)),
       rw_updated_at = Some (current_timestamp E (stmt_count s + 1))\<rparr> (domain_rules s) = Inr (i, t) \<and>
    s' = s\<lparr>stmt_count := stmt_count s + 1, domain_rules := t\<rparr>"
  using assms
  by (auto simp: insert_rule_def run_stmt_def Let_def now_text_def split: option.splits sum.splits)

lemma rules_map_insert:
  assumes wf: "db_wf s" and ins: "insert_rule E d m u en s = (Inr i, s')"
  shows "rules_map E s i = None" and
    "rules_map E s' = (rules_map E s)(i \<mapsto>
       \<lparr>dr_ID = i, dr_Domain = d, dr_Mode = m, dr_Upstream = u, dr_Enabled = (en = 1),
        dr_CreatedAt = time_of_text E (current_timestamp E (stmt_count s + 1)),
        dr_UpdatedAt = time_of_text E (current_timestamp E (stmt_count s + 1))\<rparr>)"
proof -
  from wf have twf: "tab_wf rw_id (domain_rules s)" by (simp add: db_wf_def)
  from insert_rule_ok[OF ins] obtain t
    where t: "tab_insert (\<lambda>i r. r\<lparr>rw_id := i\<rparr>)
      \<lparr>rw_id = 0, rw_domain = d, rw_mode = m, rw_upstream = u, rw_enabled = en,
       rw_created_at = Some (current_timestamp E (stmt_count s + 1)),
       rw_updated_at = Some (current_timestamp E (stmt_count s + 1))\<rparr> (domain_rules s) = Inr (i, t)"
      and s': "s' = s\<lparr>stmt_count := stmt_count s + 1, domain_rules := t\<rparr>" by blast
  show "rules_map E s i = None"
    using rule_rows.find_fresh[OF twf] rule_rows.insert_key[OF t] by (simp add: rules_map_def)
  show "rules_map E s' = (rules_map E s)(i \<mapsto>
       \<lparr>dr_ID = i, dr_Domain = d, dr_Mode = m, dr_Upstream = u, dr_Enabled = (en = 1),
        dr_CreatedAt = time_of_text E (current_timestamp E (stmt_count s + 1)),
        dr_UpdatedAt = time_of_text E (current_timestamp E (stmt_count s + 1))\<rparr>)"
    using rule_rows.find_insert[OF twf t] rule_rows.find_insert_other[OF t]
    by (auto simp: s' rules_map_def fun_eq_iff rowToRule_def)
qed

text \<open>The record \<open>CreateRule\<close> returns, given the key and the instant of the insertion.\<close>

definition created_rule :: "sql_env \<Rightarrow> rule_create \<Rightarrow> int \<Rightarrow> string \<Rightarrow> domain_rule" where
  "created_rule E c i now =
     \<lparr>dr_ID = i, dr_Domain = rc_Domain c,
      dr_Mode = (if rc_Mode c = ''exact'' then ''exact'' else ''suffix''),
      dr_Upstream = rc_Upstream c, dr_Enabled = (rc_Enabled c \<noteq> Some False),
      dr_CreatedAt = time_of_text E now, dr_UpdatedAt = time_of_text E now\<rparr>"

lemma CreateRule_unfold:
  "CreateRule E c s =
     (case insert_rule E (rc_Domain c) (if rc_Mode c = ''exact'' then ''exact'' else ''suffix'')
             (rc_Upstream c) (if rc_Enabled c \<noteq> Some False then 1 else 0) s of
        (Inl e, s') \<Rightarrow> (Inl e, s')
      | (Inr i, s') \<Rightarrow> GetRule E i s')"
proof -
  have "(if rc_Mode c \<noteq> ''exact'' \<and> rc_Mode c \<noteq> ''suffix'' then ''suffix'' else rc_Mode c) =
      (if rc_Mode c = ''exact'' then ''exact'' else ''suffix'')" by simp
  moreover have "(case rc_Enabled c of None \<Rightarrow> 1 | Some b \<Rightarrow> if \<not> b then 0 else (1 :: int)) =
      (if rc_Enabled c \<noteq> Some False then 1 else 0)" by (simp split: option.split)
  ultimately show ?thesis by (simp add: CreateRule_def Let_def)
qed

lemma CreateRule_ok:
  assumes wf: "db_wf s" and ok: "CreateRule E c s = (Inr v, s')"
  shows "rules_map E s (dr_ID v) = None" and "rules_map E s' = (rules_map E s)(dr_ID v \<mapsto> v)"
    and "v = created_rule E c (t_seq (domain_rules s) + 1) (current_timestamp E (stmt_count s + 1))"
    and "t_seq (domain_rules s') = dr_ID v"
proof -
  from ok obtain i s1 where ins: "insert_rule E (rc_Domain c) (if rc_Mode c = ''exact'' then ''exact'' else ''suffix'')
             (rc_Upstream c) (if rc_Enabled c \<noteq> Some False then 1 else 0) s = (Inr i, s1)"
      and get: "GetRule E i s1 = (Inr v, s')"
    by (auto simp: CreateRule_unfold split: prod.splits sum.splits)
  have wf1: "db_wf s1"
    using db_wf_insert_rule[OF wf, of "if rc_Enabled c \<noteq> Some False then 1 else 0"] ins
    by (metis insertCI snd_conv)
  have s': "s' = s1\<lparr>stmt_count := stmt_count s1 + 1\<rparr>" by (rule read_state_eq(2)[OF get])
  have i: "i = t_seq (domain_rules s) + 1" "t_seq (domain_rules s1) = i"
    using insert_rule_ok[OF ins] by (auto dest: rule_rows.insert_key)
  have "fst (GetRule E i s1) = Inr v" by (simp add: get)
  then have v: "v = created_rule E c i (current_timestamp E (stmt_count s + 1))"
    by (auto simp: GetRule_fst[OF wf1] rules_map_insert(2)[OF wf ins] created_rule_def split: option.splits)
  show "v = created_rule E c (t_seq (domain_rules s) + 1) (current_timestamp E (stmt_count s + 1))"
    using v i by simp
  have id: "dr_ID v = i" by (simp add: v created_rule_def)
  show "t_seq (domain_rules s') = dr_ID v" by (simp add: s' i id)
  show "rules_map E s (dr_ID v) = None" by (simp add: id rules_map_insert(1)[OF wf ins])
  show "rules_map E s' = (rules_map E s)(dr_ID v \<mapsto> v)"
    by (simp add: id s' rules_map_insert(2)[OF wf ins]) (simp add: v created_rule_def)
qed


lemma rules_map_Some:
  assumes "db_wf s" and "tab_find rw_id i (domain_rules s) = Some r"
  shows "\<exists>v. rowToRule E r = Inr v \<and> rules_map E s i = Some v \<and> dr_ID v = i"
  using rule_rows.find_in_rows[OF assms(2)] rowToRule_ok[of r E] rowToRule_id[of E r] assms
  by (auto simp: db_wf_def rules_map_def)

lemma rules_map_None:
  "db_wf s \<Longrightarrow> rules_map E s i = None \<longleftrightarrow> tab_find rw_id i (domain_rules s) = None"
  using rules_map_Some[of s i _ E] by (cases "tab_find rw_id i (domain_rules s)") (auto simp: rules_map_def)

lemma update_rule_stmt_ok:
  assumes "update_rule_stmt E d m u en i s = (Inr (), s')"
  shows "s' = s\<lparr>stmt_count := stmt_count s + 1, domain_rules :=
      tab_update rw_id i
        (\<lambda>r. r\<lparr>rw_domain := d, rw_mode := m, rw_upstream := u, rw_enabled := en,
               rw_updated_at := Some (current_timestamp E (stmt_count s + 1))\<rparr>) (domain_rules s)\<rparr>"
  using assms
  by (auto simp: update_rule_stmt_def run_stmt_def Let_def now_text_def split: option.splits)

text \<open>The record \<open>UpdateRule\<close> returns, given the one it read and the instant of the update.\<close>

definition updated_rule :: "sql_env \<Rightarrow> rule_update \<Rightarrow> domain_rule \<Rightarrow> string \<Rightarrow> domain_rule" where
  "updated_rule E u old now = (apply_rule_update u old)\<lparr>dr_UpdatedAt := time_of_text E now\<rparr>"

lemma rules_map_update:
  assumes wf: "db_wf s" and old: "rules_map E s i = Some old"
    and upd: "update_rule_stmt E (dr_Domain (apply_rule_update u old)) (dr_Mode (apply_rule_update u old))
      (dr_Upstream (apply_rule_update u old)) (if dr_Enabled (apply_rule_update u old) then 1 else 0) i s
      = (Inr (), s')"
  shows "rules_map E s' =
    (rules_map E s)(i \<mapsto> updated_rule E u old (current_timestamp E (stmt_count s + 1)))"
proof -
  obtain r where r: "tab_find rw_id i (domain_rules s) = Some r" "rowToRule E r = Inr old"
    using old by (auto simp: rules_map_def split: option.splits sum.splits)
  have find: "tab_find rw_id j (domain_rules s') =
      (if j = i then Some (r\<lparr>rw_domain := dr_Domain (apply_rule_update u old),
         rw_mode := dr_Mode (apply_rule_update u old), rw_upstream := dr_Upstream (apply_rule_update u old),
         rw_enabled := if dr_Enabled (apply_rule_update u old) then 1 else 0,
         rw_updated_at := Some (current_timestamp E (stmt_count s + 1))\<rparr>)
       else tab_find rw_id j (domain_rules s))" for j
    unfolding update_rule_stmt_ok[OF upd] by (simp add: rule_rows.find_update r(1))
  show ?thesis
    using r(2) unfolding rules_map_def find
    by (auto simp: fun_eq_iff rowToRule_def updated_rule_def apply_rule_update_def split: option.splits)
qed

lemma UpdateRule_ok:
  assumes wf: "db_wf s" and ok: "UpdateRule E i u s = (Inr v, s')"
  shows "\<exists>old. rules_map E s i = Some old \<and>
      v = updated_rule E u old (current_timestamp E (stmt_count s + 2)) \<and>
      rules_map E s' = (rules_map E s)(i \<mapsto> v)"
proof -
  from ok obtain old s1 s2 where get: "GetRule E i s = (Inr old, s1)"
    and upd: "update_rule_stmt E (dr_Domain (apply_rule_update u old)) (dr_Mode (apply_rule_update u old))
      (dr_Upstream (apply_rule_update u old)) (if dr_Enabled (apply_rule_update u old) then 1 else 0) i s1
      = (Inr (), s2)"
    and get2: "GetRule E i s2 = (Inr v, s')"
    by (auto simp: UpdateRule_def Let_def split: prod.splits sum.splits)
  have s1: "s1 = s\<lparr>stmt_count := stmt_count s + 1\<rparr>" by (rule read_state_eq(2)[OF get])
  have s': "s' = s2\<lparr>stmt_count := stmt_count s2 + 1\<rparr>" by (rule read_state_eq(2)[OF get2])
  have wf1: "db_wf s1" using wf by (simp add: s1)
  have wf2: "db_wf s2"
    using db_wf_update_rule_stmt[OF wf1, of "if dr_Enabled (apply_rule_update u old) then 1 else 0"] upd
    by (metis insertCI snd_conv)
  have old: "rules_map E s i = Some old"
    using GetRule_fst[OF wf, of E i] get by (simp split: option.splits)
  then have "rules_map E s1 i = Some old" by (simp add: s1)
  from rules_map_update[OF wf1 this upd]
  have map: "rules_map E s2 = (rules_map E s)(i \<mapsto> updated_rule E u old (current_timestamp E (stmt_count s + 2)))"
    by (simp add: s1)
  have "v = updated_rule E u old (current_timestamp E (stmt_count s + 2))"
    using GetRule_fst[OF wf2, of E i] get2 by (simp add: map split: option.splits)
  with old map show ?thesis by (simp add: s')
qed

lemma DeleteRule_cases:
  assumes "db_wf s"
  shows "fst (DeleteRule E i s) =
      (case stmt_error E (stmt_count s) of
         Some e \<Rightarrow> Inl e
       | None \<Rightarrow> if i \<in> dom (rules_map E s) then Inr () else Inl ''not found'')"
    and "rules_map E (snd (DeleteRule E i s)) =
      (if stmt_error E (stmt_count s) = None then (rules_map E s)(i := None) else rules_map E s)"
proof -
  show "fst (DeleteRule E i s) =
      (case stmt_error E (stmt_count s) of
         Some e \<Rightarrow> Inl e
       | None \<Rightarrow> if i \<in> dom (rules_map E s) then Inr () else Inl ''not found'')"
    using rule_rows.delete_count[of i "domain_rules s"] rules_map_None[OF assms, of E i]
    by (auto simp: DeleteRule_def run_stmt_def Let_def split_beta split: option.splits)
  have "rules_map E (s\<lparr>stmt_count := n, domain_rules := snd (tab_delete rw_id i (domain_rules s))\<rparr>) =
      (rules_map E s)(i := None)" for n
    by (auto simp: rules_map_def fun_eq_iff rule_rows.find_delete)
  then show "rules_map E (snd (DeleteRule E i s)) =
      (if stmt_error E (stmt_count s) = None then (rules_map E s)(i := None) else rules_map E s)"
    by (auto simp: DeleteRule_def run_stmt_def Let_def split_beta split: option.splits)
qed

lemma DeleteRule_ok:
  assumes "db_wf s" and "DeleteRule E i s = (Inr (), s')"
  shows "i \<in> dom (rules_map E s)" and "rules_map E s' = (rules_map E s)(i := None)"
  using DeleteRule_cases[OF assms(1), of E i] assms(2) by (auto split: option.splits if_splits)

interpretation rule_store: crud db_wf "rules_map E" dr_ID "GetRule E" "CreateRule E" "UpdateRule E" "DeleteRule E"
  for E :: sql_env
proof unfold_locales
  fix s i v
  assume "db_wf s" "fst (GetRule E i s) = Inr v"
  then show "rules_map E s i = Some v" by (auto simp: GetRule_fst split: option.splits)
qed (auto simp: read_states db_wf_CreateRule db_wf_UpdateRule db_wf_DeleteRule CreateRule_ok
    DeleteRule_ok dest: UpdateRule_ok)

end
