(* ===== verification/HostStore.thy ===== *)
theory HostStore
  imports StoreContract
begin

text \<open>
  The table of local records as an implementation of \<open>crud\<close>: the map it stands for, what each
  operation that succeeds stores and returns, and the interpretation of the interface.
\<close>

definition hosts_map :: "sql_env \<Rightarrow> db \<Rightarrow> int \<Rightarrow> host_record option" where
  "hosts_map E s i =
     (case tab_find hw_id i (host_records s) of
        None \<Rightarrow> None
      | Some r \<Rightarrow> (case rowToHost E r of Inl _ \<Rightarrow> None | Inr v \<Rightarrow> Some v))"

lemma hosts_map_counters [simp]:
  "hosts_map E (s\<lparr>stmt_count := n\<rparr>) = hosts_map E s"
  "hosts_map E (s\<lparr>rand_count := n\<rparr>) = hosts_map E s"
  by (simp_all add: hosts_map_def fun_eq_iff)

lemma rowToHost_ok: "host_row_ok r \<Longrightarrow> \<exists>v. rowToHost E r = Inr v"
  by (auto simp: host_row_ok_def rowToHost_def)

lemma rowToHost_id: "rowToHost E r = Inr v \<Longrightarrow> hr_ID v = hw_id r"
  by (auto simp: rowToHost_def split: option.splits)

lemma GetHost_fst:
  "db_wf s \<Longrightarrow> fst (GetHost E i s) =
     (case stmt_error E (stmt_count s) of
        Some e \<Rightarrow> Inl e
      | None \<Rightarrow> (case hosts_map E s i of None \<Rightarrow> Inl no_rows | Some v \<Rightarrow> Inr v))"
proof -
  assume wf: "db_wf s"
  have "\<exists>v. rowToHost E r = Inr v" if "tab_find hw_id i (host_records s) = Some r" for r
    using host_rows.find_in_rows[OF that] wf by (auto simp: db_wf_def intro: rowToHost_ok)
  then show ?thesis
    by (auto simp: GetHost_def run_stmt_def Let_def hosts_map_def split: option.splits sum.splits)
qed

lemma insert_host_ok:
  assumes "insert_host E d ty mm v ttl c en s = (Inr i, s')"
  shows "\<exists>t. tab_insert (\<lambda>i r. r\<lparr>hw_id := i\<rparr>)
      \<lparr>hw_id = 0, hw_domain = d, hw_type = ty, hw_match_mode = mm, hw_value = v, hw_ttl = ttl,
       hw_comment = Some c, hw_enabled = en,
       hw_created_at = Some (current_timestamp E (stmt_count s + 1)),
       hw_updated_at = Some (current_timestamp E (stmt_count s + 1))\<rparr> (host_records s) = Inr (i, t) \<and>
    s' = s\<lparr>stmt_count := stmt_count s + 1, host_records := t\<rparr>"
  using assms
  by (auto simp: insert_host_def run_stmt_def Let_def now_text_def split: option.splits sum.splits)

lemma hosts_map_insert:
  assumes wf: "db_wf s" and ins: "insert_host E d ty mm v ttl c en s = (Inr i, s')"
  shows "hosts_map E s i = None" and
    "hosts_map E s' = (hosts_map E s)(i \<mapsto>
       \<lparr>hr_ID = i, hr_Domain = d, hr_Type = ty, hr_MatchMode = (if mm = [] then ''exact'' else mm),
        hr_Value = v, hr_TTL = ttl, hr_Comment = c, hr_Enabled = (en = 1),
        hr_CreatedAt = time_of_text E (current_timestamp E (stmt_count s + 1)),
        hr_UpdatedAt = time_of_text E (current_timestamp E (stmt_count s + 1))\<rparr>)"
proof -
  from wf have twf: "tab_wf hw_id (host_records s)" by (simp add: db_wf_def)
  obtain t where t: "tab_insert (\<lambda>i r. r\<lparr>hw_id := i\<rparr>)
      \<lparr>hw_id = 0, hw_domain = d, hw_type = ty, hw_match_mode = mm, hw_value = v, hw_ttl = ttl,
       hw_comment = Some c, hw_enabled = en,
       hw_created_at = Some (current_timestamp E (stmt_count s + 1)),
       hw_updated_at = Some (current_timestamp E (stmt_count s + 1))\<rparr> (host_records s) = Inr (i, t)"
      and s': "s' = s\<lparr>stmt_count := stmt_count s + 1, host_records := t\<rparr>"
    using insert_host_ok[OF ins] by blast
  show "hosts_map E s i = None"
    using host_rows.find_fresh[OF twf] host_rows.insert_key[OF t] by (simp add: hosts_map_def)
  show "hosts_map E s' = (hosts_map E s)(i \<mapsto>
       \<lparr>hr_ID = i, hr_Domain = d, hr_Type = ty, hr_MatchMode = (if mm = [] then ''exact'' else mm),
        hr_Value = v, hr_TTL = ttl, hr_Comment = c, hr_Enabled = (en = 1),
        hr_CreatedAt = time_of_text E (current_timestamp E (stmt_count s + 1)),
        hr_UpdatedAt = time_of_text E (current_timestamp E (stmt_count s + 1))\<rparr>)"
    using host_rows.find_insert[OF twf t] host_rows.find_insert_other[OF t]
    by (auto simp: s' hosts_map_def fun_eq_iff rowToHost_def)
qed

text \<open>The record \<open>CreateHost\<close> returns: the type upper-cased with \<open>A\<close> for none, the match mode
  normalised, a missing time to live replaced by 300 and a negative one by 0.\<close>

definition created_host :: "sql_env \<Rightarrow> host_create \<Rightarrow> int \<Rightarrow> string \<Rightarrow> host_record" where
  "created_host E c i now =
     \<lparr>hr_ID = i, hr_Domain = hc_Domain c,
      hr_Type = (if TrimSpace (hc_Type c) = [] then ''A'' else ToUpper (TrimSpace (hc_Type c))),
      hr_MatchMode = normalizeMatchMode (hc_MatchMode c), hr_Value = hc_Value c,
      hr_TTL = (case hc_TTL c of None \<Rightarrow> 300 | Some t \<Rightarrow> max 0 t),
      hr_Comment = hc_Comment c, hr_Enabled = (hc_Enabled c \<noteq> Some False),
      hr_CreatedAt = time_of_text E now, hr_UpdatedAt = time_of_text E now\<rparr>"

lemma CreateHost_unfold:
  "CreateHost E c s =
     (case insert_host E (hc_Domain c) (hr_Type (created_host E c 0 [])) (hr_MatchMode (created_host E c 0 []))
             (hc_Value c) (hr_TTL (created_host E c 0 [])) (hc_Comment c)
             (if hc_Enabled c \<noteq> Some False then 1 else 0) s of
        (Inl e, s') \<Rightarrow> (Inl e, s')
      | (Inr i, s') \<Rightarrow> GetHost E i s')"
proof -
  have "(case hc_TTL c of None \<Rightarrow> 300 | Some t \<Rightarrow> if t < 0 then 0 else t) = hr_TTL (created_host E c 0 [])"
    by (auto simp: created_host_def split: option.split)
  moreover have "(let t = ToUpper (TrimSpace (hc_Type c)) in if t = [] then ''A'' else t) =
      hr_Type (created_host E c 0 [])" by (simp add: created_host_def)
  moreover have "(case hc_Enabled c of None \<Rightarrow> 1 | Some b \<Rightarrow> if \<not> b then 0 else (1 :: int)) =
      (if hc_Enabled c \<noteq> Some False then 1 else 0)" by (simp split: option.split)
  moreover have "hr_MatchMode (created_host E c 0 []) = normalizeMatchMode (hc_MatchMode c)"
    by (simp add: created_host_def)
  ultimately show ?thesis by (simp add: CreateHost_def Let_def)
qed

lemma CreateHost_ok:
  assumes wf: "db_wf s" and ok: "CreateHost E c s = (Inr v, s')"
  shows "hosts_map E s (hr_ID v) = None" and "hosts_map E s' = (hosts_map E s)(hr_ID v \<mapsto> v)"
    and "v = created_host E c (t_seq (host_records s) + 1) (current_timestamp E (stmt_count s + 1))"
    and "t_seq (host_records s') = hr_ID v"
proof -
  let ?c = "created_host E c 0 []"
  from ok obtain i s1 where ins: "insert_host E (hc_Domain c) (hr_Type ?c) (hr_MatchMode ?c) (hc_Value c)
      (hr_TTL ?c) (hc_Comment c) (if hc_Enabled c \<noteq> Some False then 1 else 0) s = (Inr i, s1)"
      and get: "GetHost E i s1 = (Inr v, s')"
    by (auto simp: CreateHost_unfold[of E c s] split: prod.splits sum.splits)
  have s': "s' = s1\<lparr>stmt_count := stmt_count s1 + 1\<rparr>" by (rule read_state_eq(4)[OF get])
  have "db_wf s'" using db_wf_CreateHost[OF wf, of E c] ok by simp
  then have wf1: "db_wf s1" by (simp add: s')
  have i: "i = t_seq (host_records s) + 1" "t_seq (host_records s1) = i"
    using insert_host_ok[OF ins] by (auto dest: host_rows.insert_key)
  have mm: "hr_MatchMode ?c \<noteq> []"
    using normalizeMatchMode_range[of "hc_MatchMode c"] by (auto simp: created_host_def)
  have new: "hosts_map E s1 = (hosts_map E s)(i \<mapsto> created_host E c i (current_timestamp E (stmt_count s + 1)))"
    using hosts_map_insert(2)[OF wf ins] mm by (simp add: created_host_def)
  have "fst (GetHost E i s1) = Inr v" by (simp add: get)
  then have v: "v = created_host E c i (current_timestamp E (stmt_count s + 1))"
    by (auto simp: GetHost_fst[OF wf1] new split: option.splits)
  show "v = created_host E c (t_seq (host_records s) + 1) (current_timestamp E (stmt_count s + 1))"
    using v i by simp
  have id: "hr_ID v = i" by (simp add: v created_host_def)
  show "t_seq (host_records s') = hr_ID v" by (simp add: s' i id)
  show "hosts_map E s (hr_ID v) = None" by (simp add: id hosts_map_insert(1)[OF wf ins])
  show "hosts_map E s' = (hosts_map E s)(hr_ID v \<mapsto> v)"
    unfolding id s' using new by (simp add: v)
qed

lemma hosts_map_Some:
  assumes "db_wf s" and "tab_find hw_id i (host_records s) = Some r"
  shows "\<exists>v. rowToHost E r = Inr v \<and> hosts_map E s i = Some v \<and> hr_ID v = i"
  using host_rows.find_in_rows[OF assms(2)] rowToHost_ok[of r E] rowToHost_id[of E r] assms
  by (auto simp: db_wf_def hosts_map_def)

lemma hosts_map_None:
  "db_wf s \<Longrightarrow> hosts_map E s i = None \<longleftrightarrow> tab_find hw_id i (host_records s) = None"
  using hosts_map_Some[of s i _ E] by (cases "tab_find hw_id i (host_records s)") (auto simp: hosts_map_def)

lemma update_host_stmt_ok:
  assumes "update_host_stmt E cur en i s = (Inr (), s')"
  shows "s' = s\<lparr>stmt_count := stmt_count s + 1, host_records :=
      tab_update hw_id i
        (\<lambda>r. r\<lparr>hw_domain := hr_Domain cur, hw_type := hr_Type cur,
               hw_match_mode := hr_MatchMode cur, hw_value := hr_Value cur,
               hw_ttl := hr_TTL cur, hw_comment := Some (hr_Comment cur), hw_enabled := en,
               hw_updated_at := Some (current_timestamp E (stmt_count s + 1))\<rparr>) (host_records s)\<rparr>"
  using assms
  by (auto simp: update_host_stmt_def run_stmt_def Let_def now_text_def split: option.splits)

definition updated_host :: "sql_env \<Rightarrow> host_update \<Rightarrow> host_record \<Rightarrow> string \<Rightarrow> host_record" where
  "updated_host E u old now = (apply_host_update u old)\<lparr>hr_UpdatedAt := time_of_text E now\<rparr>"

lemma hosts_map_host_ok:
  assumes "db_wf s" and "hosts_map E s i = Some h"
  shows "host_ok h"
  using assms host_rows.find_in_rows[of i "host_records s"]
  by (auto simp: hosts_map_def db_wf_def intro: host_ok_scan split: option.splits sum.splits)

lemma apply_host_update_same [simp]:
  "hr_ID (apply_host_update u old) = hr_ID old"
  "hr_CreatedAt (apply_host_update u old) = hr_CreatedAt old"
  by (simp_all add: apply_host_update_def)

lemma rowToHost_rewritten:
  assumes "rowToHost E r = Inr old" and "hr_MatchMode cur \<noteq> []"
    and "hr_ID cur = hr_ID old" and "hr_CreatedAt cur = hr_CreatedAt old"
  shows "rowToHost E (r\<lparr>hw_domain := hr_Domain cur, hw_type := hr_Type cur,
      hw_match_mode := hr_MatchMode cur, hw_value := hr_Value cur, hw_ttl := hr_TTL cur,
      hw_comment := Some (hr_Comment cur), hw_enabled := if hr_Enabled cur then 1 else 0,
      hw_updated_at := Some now\<rparr>) = Inr (cur\<lparr>hr_UpdatedAt := time_of_text E now\<rparr>)"
  using assms by (cases cur) (auto simp: rowToHost_def split: option.splits)

lemma hosts_map_update:
  assumes wf: "db_wf s" and old: "hosts_map E s i = Some old"
    and upd: "update_host_stmt E (apply_host_update u old)
      (if hr_Enabled (apply_host_update u old) then 1 else 0) i s = (Inr (), s')"
  shows "hosts_map E s' =
    (hosts_map E s)(i \<mapsto> updated_host E u old (current_timestamp E (stmt_count s + 1)))"
proof -
  let ?n = "apply_host_update u old"
  obtain r where r: "tab_find hw_id i (host_records s) = Some r" "rowToHost E r = Inr old"
    using old by (auto simp: hosts_map_def split: option.splits sum.splits)
  have find: "tab_find hw_id j (host_records s') =
      (if j = i then Some (r\<lparr>hw_domain := hr_Domain ?n, hw_type := hr_Type ?n,
               hw_match_mode := hr_MatchMode ?n, hw_value := hr_Value ?n, hw_ttl := hr_TTL ?n,
               hw_comment := Some (hr_Comment ?n), hw_enabled := if hr_Enabled ?n then 1 else 0,
               hw_updated_at := Some (current_timestamp E (stmt_count s + 1))\<rparr>)
       else tab_find hw_id j (host_records s))" for j
    unfolding update_host_stmt_ok[OF upd] by (simp add: host_rows.find_update r(1))
  have "hr_MatchMode ?n \<noteq> []"
    using host_ok_update[OF hosts_map_host_ok[OF wf old], of u] by (auto simp: host_ok_def)
  note rowToHost_rewritten[OF r(2) this, of "current_timestamp E (stmt_count s + 1)"]
  then show ?thesis
    unfolding hosts_map_def find by (auto simp: fun_eq_iff updated_host_def)
qed

lemma UpdateHost_ok:
  assumes wf: "db_wf s" and ok: "UpdateHost E i u s = (Inr v, s')"
  shows "\<exists>old. hosts_map E s i = Some old \<and>
      v = updated_host E u old (current_timestamp E (stmt_count s + 2)) \<and>
      hosts_map E s' = (hosts_map E s)(i \<mapsto> v)"
proof -
  from ok obtain old s1 s2 where get: "GetHost E i s = (Inr old, s1)"
    and upd: "update_host_stmt E (apply_host_update u old)
      (if hr_Enabled (apply_host_update u old) then 1 else 0) i s1 = (Inr (), s2)"
    and get2: "GetHost E i s2 = (Inr v, s')"
    by (auto simp: UpdateHost_def Let_def split: prod.splits sum.splits)
  have s1: "s1 = s\<lparr>stmt_count := stmt_count s + 1\<rparr>" by (rule read_state_eq(4)[OF get])
  have s': "s' = s2\<lparr>stmt_count := stmt_count s2 + 1\<rparr>" by (rule read_state_eq(4)[OF get2])
  have wf1: "db_wf s1" using wf by (simp add: s1)
  have "db_wf s'" using db_wf_UpdateHost[OF wf, of E i u] ok by simp
  then have wf2: "db_wf s2" by (simp add: s')
  have old: "hosts_map E s i = Some old"
    using GetHost_fst[OF wf, of E i] get by (simp split: option.splits)
  then have "hosts_map E s1 i = Some old" by (simp add: s1)
  from hosts_map_update[OF wf1 this upd]
  have map: "hosts_map E s2 = (hosts_map E s)(i \<mapsto> updated_host E u old (current_timestamp E (stmt_count s + 2)))"
    by (simp add: s1)
  have "v = updated_host E u old (current_timestamp E (stmt_count s + 2))"
    using GetHost_fst[OF wf2, of E i] get2 by (simp add: map split: option.splits)
  with old map show ?thesis by (simp add: s')
qed

lemma DeleteHost_cases:
  assumes "db_wf s"
  shows "fst (DeleteHost E i s) =
      (case stmt_error E (stmt_count s) of
         Some e \<Rightarrow> Inl e
       | None \<Rightarrow> if i \<in> dom (hosts_map E s) then Inr () else Inl ''not found'')"
    and "hosts_map E (snd (DeleteHost E i s)) =
      (if stmt_error E (stmt_count s) = None then (hosts_map E s)(i := None) else hosts_map E s)"
proof -
  show "fst (DeleteHost E i s) =
      (case stmt_error E (stmt_count s) of
         Some e \<Rightarrow> Inl e
       | None \<Rightarrow> if i \<in> dom (hosts_map E s) then Inr () else Inl ''not found'')"
    using host_rows.delete_count[of i "host_records s"] hosts_map_None[OF assms, of E i]
    by (auto simp: DeleteHost_def run_stmt_def Let_def split_beta split: option.splits)
  have "hosts_map E (s\<lparr>stmt_count := n, host_records := snd (tab_delete hw_id i (host_records s))\<rparr>) =
      (hosts_map E s)(i := None)" for n
    by (auto simp: hosts_map_def fun_eq_iff host_rows.find_delete)
  then show "hosts_map E (snd (DeleteHost E i s)) =
      (if stmt_error E (stmt_count s) = None then (hosts_map E s)(i := None) else hosts_map E s)"
    by (auto simp: DeleteHost_def run_stmt_def Let_def split_beta split: option.splits)
qed

lemma DeleteHost_ok:
  assumes "db_wf s" and "DeleteHost E i s = (Inr (), s')"
  shows "i \<in> dom (hosts_map E s)" and "hosts_map E s' = (hosts_map E s)(i := None)"
  using DeleteHost_cases[OF assms(1), of E i] assms(2) by (auto split: option.splits if_splits)

interpretation host_store: crud db_wf "hosts_map E" hr_ID "GetHost E" "CreateHost E" "UpdateHost E" "DeleteHost E"
  for E :: sql_env
proof unfold_locales
  fix s i v
  assume "db_wf s" "fst (GetHost E i s) = Inr v"
  then show "hosts_map E s i = Some v" by (auto simp: GetHost_fst split: option.splits)
qed (auto simp: read_states db_wf_CreateHost db_wf_UpdateHost db_wf_DeleteHost CreateHost_ok
    DeleteHost_ok dest: UpdateHost_ok)

end
