(* ===== verification/AdminAccount.thy ===== *)
theory AdminAccount
  imports StorageLaws
begin

text \<open>
  The administrator account of the store: the two encrypted values in \<open>app_config\<close>, the
  transaction that writes them, what a change of the account makes the readers return, and that
  a change that fails changes nothing.
\<close>

section \<open>Reading\<close>

definition stored_value :: "sql_env \<Rightarrow> string \<Rightarrow> db \<Rightarrow> string result" where
  "stored_value E k s =
     (case map_of (app_config s) k of
        None \<Rightarrow> Inl no_rows
      | Some None \<Rightarrow> Inl (null_scan ''0'' ''value'')
      | Some (Some v) \<Rightarrow> DecryptAES (sql_gcm E) v authKey)"

lemma get_admin_value_unfold:
  "get_admin_value E k s =
     (case stmt_error E (stmt_count s) of Some e \<Rightarrow> Inl e | None \<Rightarrow> stored_value E k s,
      s\<lparr>stmt_count := stmt_count s + 1\<rparr>)"
  by (simp add: get_admin_value_def run_stmt_def Let_def stored_value_def split: option.split)

lemma stored_value_counters [simp]:
  "stored_value E k (s\<lparr>stmt_count := n\<rparr>) = stored_value E k s"
  "stored_value E k (s\<lparr>rand_count := n\<rparr>) = stored_value E k s"
  by (simp_all add: stored_value_def)

lemma valid_authKey [simp]: "valid_key authKey"
  by (simp add: valid_key_def authKey_def)

lemma keys_differ [simp]: "adminUserKey \<noteq> adminPassKey" "adminPassKey \<noteq> adminUserKey"
  by (simp_all add: adminUserKey_def adminPassKey_def)

section \<open>Transactions\<close>

lemma same_tables_rollback: "same_tables s (rollback s t)"
  by (simp add: rollback_def same_tables_def)

lemma same_tables_counted: "same_tables s (s\<lparr>stmt_count := n, rand_count := m\<rparr>)"
  by (simp add: same_tables_def)

lemma in_tx_error: "in_tx E body s = (Inl e, s') \<Longrightarrow> same_tables s s'"
  by (auto simp: in_tx_def run_stmt_def Let_def same_tables_rollback
      intro: same_tables_trans[OF _ same_tables_rollback]
      split: prod.splits sum.splits option.splits)

lemma in_tx_ok:
  assumes "in_tx E body s = (Inr (), s')"
  shows "\<exists>t. body (s\<lparr>stmt_count := stmt_count s + 1\<rparr>) = (Inr (), t) \<and>
    s' = t\<lparr>stmt_count := stmt_count t + 1\<rparr>"
  using assms
  by (auto simp: in_tx_def run_stmt_def Let_def split: prod.splits sum.splits option.splits)

lemma in_tx_runs:
  assumes "never_fails E" and "body (s\<lparr>stmt_count := stmt_count s + 1\<rparr>) = (Inr (), t)"
  shows "in_tx E body s = (Inr (), t\<lparr>stmt_count := stmt_count t + 1\<rparr>)"
  using assms by (simp add: in_tx_def)

lemma seq_unit_ok:
  "seq_unit f g s = (Inr (), s') \<longleftrightarrow> (\<exists>t. f s = (Inr (), t) \<and> g t = (Inr (), s'))"
  by (auto simp: seq_unit_def split: prod.splits sum.splits)

lemma replace_config_ok:
  "replace_config E k v s = (Inr (), s') \<Longrightarrow>
     s' = s\<lparr>stmt_count := stmt_count s + 1, app_config := AList.update k (Some v) (app_config s)\<rparr>"
  by (auto simp: replace_config_def run_stmt_def Let_def split: option.splits)

definition set_value :: "string \<Rightarrow> string \<Rightarrow> (string, string option) gomap \<Rightarrow> (string, string option) gomap" where
  "set_value k v m = map (\<lambda>(k', v'). if k' = k then (k', Some v) else (k', v')) m"

lemma update_config_ok:
  "update_config E v k s = (Inr (), s') \<Longrightarrow>
     s' = s\<lparr>stmt_count := stmt_count s + 1, app_config := set_value k v (app_config s)\<rparr>"
  by (auto simp: update_config_def run_stmt_def Let_def set_value_def split: option.splits)

lemma map_of_set_value [simp]:
  "map_of (set_value k v m) j = (if j = k then map_option (\<lambda>_. Some v) (map_of m k) else map_of m j)"
  by (induction m) (auto simp: set_value_def)

lemma keys_set_value [simp]: "map fst (set_value k v m) = map fst m"
  by (induction m) (auto simp: set_value_def)

text \<open>\<open>UPDATE\<close> of a row that is missing is no error: only the row of the other key changes.\<close>

lemma encrypt_pair_state: "encrypt_pair E u p s = (r, s') \<Longrightarrow> \<exists>n. s' = s\<lparr>rand_count := n\<rparr>"
proof -
  assume "encrypt_pair E u p s = (r, s')"
  moreover have "s = s\<lparr>rand_count := rand_count s\<rparr>" by simp
  ultimately show ?thesis
    by (auto simp: encrypt_pair_def encrypt_next_def split: prod.splits sum.splits)
qed

definition nonces_ok :: "sql_env \<Rightarrow> bool" where
  "nonces_ok E \<longleftrightarrow> (\<forall>n b. rand_nonce E n = Inr b \<longrightarrow> length b = NonceSize)"

lemma DecryptAES_EncryptAES_next:
  assumes "gcm_ok G" and "length n = NonceSize" and "EncryptAES G (Inr n) p authKey = Inr c"
  shows "DecryptAES G c authKey = Inr p"
  using assms by (auto simp: EncryptAES_ok DecryptAES_sealed)

lemma encrypt_pair_decrypts:
  assumes "encrypt_pair E u p s = (Inr (eu, ep), s')" and "gcm_ok (sql_gcm E)" and "nonces_ok E"
  shows "DecryptAES (sql_gcm E) eu authKey = Inr u \<and> DecryptAES (sql_gcm E) ep authKey = Inr p"
proof -
  have dec: "DecryptAES (sql_gcm E) c authKey = Inr q"
    if "EncryptAES (sql_gcm E) (rand_nonce E n) q authKey = Inr c" for c q n
  proof (cases "rand_nonce E n")
    case (Inr b)
    with assms(3) that show ?thesis
      by (intro DecryptAES_EncryptAES_next[OF assms(2), of b]) (auto simp: nonces_ok_def)
  qed (use that in \<open>simp add: EncryptAES_def\<close>)
  show ?thesis
    using assms(1) by (auto simp: encrypt_pair_def encrypt_next_def split: prod.splits sum.splits dest: dec)
qed

lemma encrypt_pair_runs:
  assumes "\<And>n. is_ok (rand_nonce E n)"
  shows "\<exists>eu ep s'. encrypt_pair E u p s = (Inr (eu, ep), s')"
proof -
  have "\<exists>c. EncryptAES (sql_gcm E) (rand_nonce E n) q authKey = Inr c" for n q
    using assms[of n] by (auto simp: is_ok_iff EncryptAES_ok)
  then show ?thesis
    by (auto simp: encrypt_pair_def encrypt_next_def split: prod.splits sum.splits) (metis sum.distinct(1))+
qed

section \<open>Writing\<close>

definition has_account :: "db \<Rightarrow> bool" where
  "has_account s \<longleftrightarrow>
     map_of (app_config s) adminUserKey \<noteq> None \<and> map_of (app_config s) adminPassKey \<noteq> None"

lemma UpdateAdminAccount_ok:
  assumes "UpdateAdminAccount E u p s = (Inr (), s')"
  shows "\<exists>eu ep s1. encrypt_pair E u p s = (Inr (eu, ep), s1) \<and>
    domain_rules s' = domain_rules s \<and> host_records s' = host_records s \<and>
    app_config s' = set_value adminPassKey ep (set_value adminUserKey eu (app_config s))"
proof -
  from assms obtain eu ep s1 where enc: "encrypt_pair E u p s = (Inr (eu, ep), s1)"
    and tx: "in_tx E (seq_unit (update_config E eu adminUserKey) (update_config E ep adminPassKey)) s1 = (Inr (), s')"
    by (auto simp: UpdateAdminAccount_def split: prod.splits sum.splits)
  from encrypt_pair_state[OF enc] in_tx_ok[OF tx] enc show ?thesis
    by (auto simp: seq_unit_ok dest!: update_config_ok)
qed

lemma UpdateAdminAccount_error:
  "UpdateAdminAccount E u p s = (Inl e, s') \<Longrightarrow> same_tables s s'"
  by (auto simp: UpdateAdminAccount_def dest!: encrypt_pair_state in_tx_error
      intro: same_tables_trans split: prod.splits sum.splits)
    (auto simp: same_tables_def)

lemma account_after_update:
  assumes "UpdateAdminAccount E u p s = (Inr (), s')" and "has_account s"
    and "gcm_ok (sql_gcm E)" and "nonces_ok E"
  shows "stored_value E adminUserKey s' = Inr u" and "stored_value E adminPassKey s' = Inr p"
    and "has_account s'"
  using UpdateAdminAccount_ok[OF assms(1)] encrypt_pair_decrypts[OF _ assms(3,4)] assms(2)
  by (fastforce simp: stored_value_def has_account_def)+

lemma account_after_init:
  assumes "initAdminAccount E s = (Inr (), s')" and "count_admin_keys s \<noteq> 2"
    and "gcm_ok (sql_gcm E)" and "nonces_ok E"
  shows "stored_value E adminUserKey s' = Inr ''admin''" and "stored_value E adminPassKey s' = Inr ''123456''"
    and "has_account s'" and "domain_rules s' = domain_rules s" and "host_records s' = host_records s"
proof -
  from assms(1,2) obtain n eu ep s1 where
    enc: "encrypt_pair E ''admin'' ''123456'' (s\<lparr>stmt_count := n\<rparr>) = (Inr (eu, ep), s1)"
    and tx: "in_tx E (seq_unit (replace_config E adminUserKey eu) (replace_config E adminPassKey ep)) s1 = (Inr (), s')"
    by (auto simp: initAdminAccount_def run_stmt_def Let_def count_admin_keys_def
        split: prod.splits sum.splits option.splits if_splits)
  have tables: "app_config s' = AList.update adminPassKey (Some ep) (AList.update adminUserKey (Some eu) (app_config s))"
    "domain_rules s' = domain_rules s" "host_records s' = host_records s"
    using encrypt_pair_state[OF enc] in_tx_ok[OF tx] by (auto simp: seq_unit_ok dest!: replace_config_ok)
  from tables(2,3) show "domain_rules s' = domain_rules s" and "host_records s' = host_records s" .
  from encrypt_pair_decrypts[OF enc assms(3,4)] tables(1)
  show "stored_value E adminUserKey s' = Inr ''admin''" and "stored_value E adminPassKey s' = Inr ''123456''"
    and "has_account s'"
    by (simp_all add: stored_value_def has_account_def)
qed

lemma count_two_has_account:
  assumes "distinct (map fst (app_config s))"
  shows "count_admin_keys s = 2 \<longleftrightarrow> has_account s"
proof -
  have "distinct (map fst m) \<Longrightarrow> length (filter (\<lambda>kv. fst kv = k) m) =
      (if map_of m k = None then 0 else 1)" for m :: "(string, string option) gomap" and k
    by (induction m) (auto simp: filter_empty_conv map_of_eq_None_iff image_iff dest: map_of_SomeD)
  note one = this[OF assms]
  have "length (filter (\<lambda>kv. fst kv = adminUserKey \<or> fst kv = adminPassKey) m) =
      length (filter (\<lambda>kv. fst kv = adminUserKey) m) + length (filter (\<lambda>kv. fst kv = adminPassKey) m)"
    for m :: "(string, string option) gomap" by (induction m) auto
  then have "count_admin_keys s = length (filter (\<lambda>kv. fst kv = adminUserKey) (app_config s)) +
      length (filter (\<lambda>kv. fst kv = adminPassKey) (app_config s))"
    by (simp add: count_admin_keys_def)
  then show ?thesis by (simp add: one has_account_def)
qed

lemma init_has_account:
  assumes "initAdminAccount E s = (Inr (), s')" and "distinct (map fst (app_config s))"
    and "gcm_ok (sql_gcm E)" and "nonces_ok E"
  shows "has_account s'"
proof (cases "count_admin_keys s = 2")
  case True
  then have "app_config s' = app_config s"
    using assms(1) by (auto simp: initAdminAccount_def run_stmt_def Let_def count_admin_keys_def
        split: prod.splits sum.splits option.splits if_splits)
  with True count_two_has_account[OF assms(2)] show ?thesis by (simp add: has_account_def)
next
  case False
  then show ?thesis using account_after_init(3)[OF assms(1) _ assms(3,4)] by simp
qed

lemma init_error: "initAdminAccount E s = (Inl e, s') \<Longrightarrow> same_tables s s'"
  by (auto simp: initAdminAccount_def run_stmt_def Let_def dest!: encrypt_pair_state in_tx_error
      intro: same_tables_trans split: prod.splits sum.splits option.splits if_splits)
    (auto simp: same_tables_def)

lemma db_wf_UpdateAdminAccount: "db_wf s \<Longrightarrow> db_wf (snd (UpdateAdminAccount E u p s))"
proof (cases "UpdateAdminAccount E u p s")
  case (Pair r s')
  assume wf: "db_wf s"
  show ?thesis
  proof (cases r)
    case (Inl e)
    with Pair wf show ?thesis by (auto dest: UpdateAdminAccount_error db_wf_same_tables)
  next
    case (Inr x)
    with Pair UpdateAdminAccount_ok[of E u p s s'] wf show ?thesis by (auto simp: db_wf_def)
  qed
qed

lemma db_wf_initAdminAccount:
  assumes wf: "db_wf s"
  shows "db_wf (snd (initAdminAccount E s))"
proof (cases "initAdminAccount E s")
  case (Pair r s')
  show ?thesis
  proof (cases r)
    case (Inl e)
    with Pair wf show ?thesis by (auto dest: init_error db_wf_same_tables)
  next
    case (Inr x)
    have tx: "db_wf s'" if "in_tx E (seq_unit (replace_config E j a) (replace_config E k b)) s1 = (Inr (), s')"
      "db_wf s1" for s1 j k a b
      using in_tx_ok[OF that(1)] that(2) by (auto simp: seq_unit_ok db_wf_def dest!: replace_config_ok)
    from Pair Inr wf show ?thesis
      by (auto simp: initAdminAccount_def run_stmt_def Let_def dest!: encrypt_pair_state tx
          split: prod.splits sum.splits option.splits if_splits)
  qed
qed

end
