(* ===== verification/StoreRuns.thy ===== *)
theory StoreRuns
  imports HostStore AdminAccount
begin

text \<open>
  Sequences of store operations and the properties of the store: the invariant of every run, what
  a creation, an update and a deletion do to the records a client can read, the listing that the
  caches are built from, and the administrator account.
\<close>

section \<open>Runs\<close>

datatype store_op =
    OpListRules
  | OpGetRule int
  | OpCreateRule rule_create
  | OpUpdateRule int rule_update
  | OpDeleteRule int
  | OpListHosts
  | OpGetHost int
  | OpCreateHost host_create
  | OpUpdateHost int host_update
  | OpDeleteHost int
  | OpInitAdmin
  | OpGetAdminUser
  | OpGetAdminPass
  | OpUpdateAdmin string string

fun run_op :: "sql_env \<Rightarrow> store_op \<Rightarrow> db \<Rightarrow> db" where
  "run_op E OpListRules s = snd (ListRules E s)"
| "run_op E (OpGetRule i) s = snd (GetRule E i s)"
| "run_op E (OpCreateRule c) s = snd (CreateRule E c s)"
| "run_op E (OpUpdateRule i u) s = snd (UpdateRule E i u s)"
| "run_op E (OpDeleteRule i) s = snd (DeleteRule E i s)"
| "run_op E OpListHosts s = snd (ListHosts E s)"
| "run_op E (OpGetHost i) s = snd (GetHost E i s)"
| "run_op E (OpCreateHost c) s = snd (CreateHost E c s)"
| "run_op E (OpUpdateHost i u) s = snd (UpdateHost E i u s)"
| "run_op E (OpDeleteHost i) s = snd (DeleteHost E i s)"
| "run_op E OpInitAdmin s = snd (initAdminAccount E s)"
| "run_op E OpGetAdminUser s = snd (GetAdminUser E s)"
| "run_op E OpGetAdminPass s = snd (GetAdminPass E s)"
| "run_op E (OpUpdateAdmin u p) s = snd (UpdateAdminAccount E u p s)"

definition run_ops :: "sql_env \<Rightarrow> store_op list \<Rightarrow> db \<Rightarrow> db" where
  "run_ops E ops s = foldl (\<lambda>s op. run_op E op s) s ops"

lemma db_wf_run_op: "db_wf s \<Longrightarrow> db_wf (run_op E op s)"
  by (cases op)
    (simp_all add: read_states db_wf_CreateRule db_wf_UpdateRule db_wf_DeleteRule db_wf_CreateHost
      db_wf_UpdateHost db_wf_DeleteHost db_wf_UpdateAdminAccount db_wf_initAdminAccount)

lemma db_wf_run_ops: "db_wf s \<Longrightarrow> db_wf (run_ops E ops s)"
  unfolding run_ops_def by (induction ops arbitrary: s) (simp_all add: db_wf_run_op)

text \<open>Keys given out are never taken back.\<close>

lemma t_seq_read_insert: "t_seq (domain_rules s) \<le> t_seq (domain_rules (snd (insert_rule E d m u en s)))"
  by (auto simp: insert_rule_def run_stmt_def Let_def tab_insert_def split: option.split sum.split)

lemma same_tables_seq: "same_tables s s' \<Longrightarrow> t_seq (domain_rules s') = t_seq (domain_rules s)"
  by (simp add: same_tables_def)

lemma insert_host_rules [simp]: "domain_rules (snd (insert_host E d ty mm v ttl c en s)) = domain_rules s"
  by (auto simp: insert_host_def run_stmt_def Let_def split: option.split sum.split)

lemma update_host_rules [simp]: "domain_rules (snd (update_host_stmt E cur en i s)) = domain_rules s"
  by (auto simp: update_host_stmt_def run_stmt_def Let_def split: option.split)

lemma update_rule_seq [simp]:
  "t_seq (domain_rules (snd (update_rule_stmt E d m u en i s))) = t_seq (domain_rules s)"
  by (auto simp: update_rule_stmt_def run_stmt_def Let_def tab_update_def split: option.split)

lemma seq_CreateRule: "t_seq (domain_rules s) \<le> t_seq (domain_rules (snd (CreateRule E c s)))"
  using t_seq_read_insert
  by (auto simp: CreateRule_unfold read_states split: prod.split sum.split) (metis snd_conv)+

lemma seq_UpdateRule: "t_seq (domain_rules (snd (UpdateRule E i u s))) = t_seq (domain_rules s)"
proof -
  have "t_seq (domain_rules s2) = t_seq (domain_rules s1)"
    if "update_rule_stmt E d m p en i s1 = (r, s2)" for d m p en s1 s2 r
    using update_rule_seq[of E d m p en i s1] that by simp
  then show ?thesis
    by (auto simp: UpdateRule_def Let_def read_states dest!: read_state_eq(2) split: prod.split sum.split)
qed

lemma rules_CreateHost: "domain_rules (snd (CreateHost E c s)) = domain_rules s"
proof -
  have "domain_rules s' = domain_rules s" if "insert_host E d ty mm v ttl k en s = (r, s')" for d ty mm v ttl k en r s'
    using insert_host_rules[of E d ty mm v ttl k en s] that by simp
  then show ?thesis by (auto simp: CreateHost_def Let_def read_states split: prod.split sum.split)
qed

lemma rules_UpdateHost: "domain_rules (snd (UpdateHost E i u s)) = domain_rules s"
proof -
  have "domain_rules s2 = domain_rules s1" if "update_host_stmt E cur en i s1 = (r, s2)" for cur en s1 s2 r
    using update_host_rules[of E cur en i s1] that by simp
  then show ?thesis
    by (auto simp: UpdateHost_def Let_def read_states dest!: read_state_eq(4) split: prod.split sum.split)
qed

lemma rules_UpdateAdminAccount: "domain_rules (snd (UpdateAdminAccount E u p s)) = domain_rules s"
  using UpdateAdminAccount_ok[of E u p s "snd (UpdateAdminAccount E u p s)"]
    UpdateAdminAccount_error[of E u p s _ "snd (UpdateAdminAccount E u p s)"]
  by (cases "UpdateAdminAccount E u p s"; cases "fst (UpdateAdminAccount E u p s)") (auto simp: same_tables_def)

lemma rules_initAdminAccount: "domain_rules (snd (initAdminAccount E s)) = domain_rules s"
proof -
  have "domain_rules s' = domain_rules s1"
    if "in_tx E (seq_unit (replace_config E j a) (replace_config E k b)) s1 = (r, s')" for s1 s' r j k a b
    using that in_tx_error[of E _ s1 _ s'] in_tx_ok[of E _ s1 s']
    by (cases r) (fastforce simp: same_tables_def seq_unit_ok dest!: replace_config_ok)+
  then have "domain_rules (snd (in_tx E (seq_unit (replace_config E j a) (replace_config E k b)) s1)) =
      domain_rules s1" for s1 j k a b
    by (metis prod.collapse)
  then show ?thesis
    by (auto simp: initAdminAccount_def run_stmt_def Let_def dest!: encrypt_pair_state
        split: prod.splits sum.splits option.splits if_splits)
qed

lemma seq_run_op: "t_seq (domain_rules s) \<le> t_seq (domain_rules (run_op E op s))"
  by (cases op)
    (auto simp: read_states seq_CreateRule seq_UpdateRule rules_CreateHost rules_UpdateHost
      rules_UpdateAdminAccount rules_initAdminAccount DeleteRule_def DeleteHost_def run_stmt_def
      Let_def tab_delete_def split: option.split)

lemma seq_run_ops: "t_seq (domain_rules s) \<le> t_seq (domain_rules (run_ops E ops s))"
  unfolding run_ops_def
  by (induction ops arbitrary: s) (auto intro: order_trans[OF seq_run_op])

section \<open>Listings\<close>

lemma scan_rows_ok:
  "(\<And>r. r \<in> set rs \<Longrightarrow> \<exists>v. f r = Inr v) \<Longrightarrow>
     \<exists>vs. scan_rows f rs = Inr vs \<and> list_all2 (\<lambda>r v. f r = Inr v) rs vs"
proof (induction rs)
  case Nil
  show ?case by simp
next
  case (Cons r rs)
  from Cons.prems[of r] obtain v where v: "f r = Inr v" by auto
  obtain vs where "scan_rows f rs = Inr vs" "list_all2 (\<lambda>r v. f r = Inr v) rs vs"
    using Cons.IH Cons.prems by (meson list.set_intros(2))
  with v show ?case by auto
qed

lemma list_all2_map_eq:
  "list_all2 (\<lambda>r v. f r = Inr v) rs vs \<Longrightarrow> (\<And>r v. f r = Inr v \<Longrightarrow> g v = h r) \<Longrightarrow> map g vs = map h rs"
  by (induction rule: list_all2_induct) auto

lemma list_all2_set: "list_all2 (\<lambda>r v. f r = Inr v) rs vs \<Longrightarrow> set vs = {v. \<exists>r\<in>set rs. f r = Inr v}"
  by (induction rule: list_all2_induct) auto

text \<open>What the readers of a whole table return, when no statement fails.\<close>

definition stored_rules :: "sql_env \<Rightarrow> db \<Rightarrow> domain_rule list" where
  "stored_rules E s =
     (case scan_rows (rowToRule E) (rules_order E (t_rows (domain_rules s))) of Inl _ \<Rightarrow> [] | Inr rs \<Rightarrow> rs)"

definition stored_hosts :: "sql_env \<Rightarrow> db \<Rightarrow> host_record list" where
  "stored_hosts E s =
     (case scan_rows (rowToHost E) (hosts_order E (t_rows (host_records s))) of Inl _ \<Rightarrow> [] | Inr hs \<Rightarrow> hs)"

lemma stored_counters [simp]:
  "stored_rules E (s\<lparr>stmt_count := n\<rparr>) = stored_rules E s" "stored_rules E (s\<lparr>rand_count := n\<rparr>) = stored_rules E s"
  "stored_hosts E (s\<lparr>stmt_count := n\<rparr>) = stored_hosts E s" "stored_hosts E (s\<lparr>rand_count := n\<rparr>) = stored_hosts E s"
  by (simp_all add: stored_rules_def stored_hosts_def)

lemma rules_order_set: "order_ok E \<Longrightarrow> set (rules_order E rs) = set rs"
  unfolding order_ok_def by (metis set_mset_mset)

lemma hosts_order_set: "order_ok E \<Longrightarrow> set (hosts_order E rs) = set rs"
  unfolding order_ok_def by (metis set_mset_mset)

lemma rules_scan:
  assumes "db_wf s" and "order_ok E"
  shows "scan_rows (rowToRule E) (rules_order E (t_rows (domain_rules s))) = Inr (stored_rules E s)"
    and "list_all2 (\<lambda>r v. rowToRule E r = Inr v) (rules_order E (t_rows (domain_rules s))) (stored_rules E s)"
proof -
  have "\<exists>v. rowToRule E r = Inr v" if "r \<in> set (rules_order E (t_rows (domain_rules s)))" for r
    using that assms by (intro rowToRule_ok) (simp add: rules_order_set db_wf_def)
  from scan_rows_ok[of "rules_order E (t_rows (domain_rules s))" "rowToRule E", OF this]
  show "scan_rows (rowToRule E) (rules_order E (t_rows (domain_rules s))) = Inr (stored_rules E s)"
    and "list_all2 (\<lambda>r v. rowToRule E r = Inr v) (rules_order E (t_rows (domain_rules s))) (stored_rules E s)"
    by (auto simp: stored_rules_def)
qed

lemma hosts_scan:
  assumes "db_wf s" and "order_ok E"
  shows "scan_rows (rowToHost E) (hosts_order E (t_rows (host_records s))) = Inr (stored_hosts E s)"
    and "list_all2 (\<lambda>r v. rowToHost E r = Inr v) (hosts_order E (t_rows (host_records s))) (stored_hosts E s)"
proof -
  have "\<exists>v. rowToHost E r = Inr v" if "r \<in> set (hosts_order E (t_rows (host_records s)))" for r
    using that assms by (intro rowToHost_ok) (simp add: hosts_order_set db_wf_def)
  from scan_rows_ok[of "hosts_order E (t_rows (host_records s))" "rowToHost E", OF this]
  show "scan_rows (rowToHost E) (hosts_order E (t_rows (host_records s))) = Inr (stored_hosts E s)"
    and "list_all2 (\<lambda>r v. rowToHost E r = Inr v) (hosts_order E (t_rows (host_records s))) (stored_hosts E s)"
    by (auto simp: stored_hosts_def)
qed

lemma ListRules_fst:
  assumes "db_wf s" and "order_ok E"
  shows "ListRules E s =
     (case stmt_error E (stmt_count s) of Some e \<Rightarrow> Inl e | None \<Rightarrow> Inr (stored_rules E s),
      s\<lparr>stmt_count := stmt_count s + 1\<rparr>)"
  using rules_scan(1)[OF assms] by (simp add: ListRules_def run_stmt_def Let_def split: option.split)

lemma ListHosts_fst:
  assumes "db_wf s" and "order_ok E"
  shows "ListHosts E s =
     (case stmt_error E (stmt_count s) of Some e \<Rightarrow> Inl e | None \<Rightarrow> Inr (stored_hosts E s),
      s\<lparr>stmt_count := stmt_count s + 1\<rparr>)"
  using hosts_scan(1)[OF assms] by (simp add: ListHosts_def run_stmt_def Let_def split: option.split)

lemma stored_rules_set:
  assumes "db_wf s" and "order_ok E"
  shows "set (stored_rules E s) = ran (rules_map E s)"
proof -
  have twf: "tab_wf rw_id (domain_rules s)" using assms(1) by (simp add: db_wf_def)
  have set: "set (stored_rules E s) = {v. \<exists>r\<in>set (t_rows (domain_rules s)). rowToRule E r = Inr v}"
    using list_all2_set[OF rules_scan(2)[OF assms]] by (simp add: rules_order_set[OF assms(2)])
  have "v \<in> ran (rules_map E s)" if "r \<in> set (t_rows (domain_rules s))" "rowToRule E r = Inr v" for r v
    using rule_rows.rows_find[OF twf that(1)] that(2) by (auto simp: rules_map_def intro: ranI[of _ "rw_id r"])
  moreover have "\<exists>r\<in>set (t_rows (domain_rules s)). rowToRule E r = Inr v" if v: "v \<in> ran (rules_map E s)" for v
  proof -
    from v obtain i where "rules_map E s i = Some v" by (auto simp: ran_def)
    then obtain r where "tab_find rw_id i (domain_rules s) = Some r" "rowToRule E r = Inr v"
      by (auto simp: rules_map_def split: option.splits sum.splits)
    with rule_rows.find_in_rows show ?thesis by blast
  qed
  ultimately show ?thesis unfolding set by blast
qed

section \<open>Properties of the store\<close>

text \<open>C9: whatever operations run on a new store, in whatever order and whichever statements fail,
  the tables stay well-formed: keys are distinct and below the sequence, no column a reader scans
  is NULL, and every local record has an upper-case type, a known match mode and a time to live
  that is not negative.\<close>

theorem store_invariant: "db_wf (run_ops E ops empty_db)"
  by (rule db_wf_run_ops[OF db_wf_empty])

text \<open>A key of a rule is never given out twice: a rule created after any further operations,
  deletions included, has a greater key than one created before.\<close>

theorem rule_ids_never_reused:
  assumes "db_wf s" and "CreateRule E c s = (Inr v, s')"
    and "fst (CreateRule E d (run_ops E ops s')) = Inr w"
  shows "dr_ID v < dr_ID w"
proof -
  have wf': "db_wf s'" using db_wf_CreateRule[OF assms(1), of E c] assms(2) by simp
  obtain t where t: "CreateRule E d (run_ops E ops s') = (Inr w, t)"
    using assms(3) by (metis prod.collapse)
  have "dr_ID w = t_seq (domain_rules (run_ops E ops s')) + 1"
    unfolding CreateRule_ok(3)[OF db_wf_run_ops[OF wf'] t] by (simp add: created_rule_def)
  with seq_run_ops[of s' E ops] CreateRule_ok(4)[OF assms(1,2)] show ?thesis by simp
qed

text \<open>A rule that was created is stored under a new key with the fields asked for - the mode
  \<open>suffix\<close> unless \<open>exact\<close> was asked for, enabled unless it was switched off - and no other rule
  changes.\<close>

theorem CreateRule_stores:
  assumes "db_wf s" and "CreateRule E c s = (Inr v, s')"
  shows "v = created_rule E c (t_seq (domain_rules s) + 1) (current_timestamp E (stmt_count s + 1)) \<and>
    rules_map E s (dr_ID v) = None \<and> rules_map E s' = (rules_map E s)(dr_ID v \<mapsto> v)"
  using CreateRule_ok(3)[OF assms] rule_store.create_new[OF assms] rule_store.create_abs[OF assms]
  by blast

text \<open>When no statement fails and keys are left, a creation succeeds.\<close>

theorem CreateRule_succeeds:
  assumes "never_fails E" and "db_wf s" and "t_seq (domain_rules s) < 2 ^ 63 - 1"
  shows "is_ok (fst (CreateRule E c s))"
proof -
  let ?m = "if rc_Mode c = ''exact'' then ''exact'' else ''suffix''"
  let ?en = "if rc_Enabled c \<noteq> Some False then 1 else (0 :: int)"
  obtain i s1 where ins: "insert_rule E (rc_Domain c) ?m (rc_Upstream c) ?en s = (Inr i, s1)"
    using assms(1,3) by (auto simp: insert_rule_def tab_insert_def Let_def)
  have wf1: "db_wf s1"
    using db_wf_insert_rule[OF assms(2), of ?en] ins by (metis insertCI snd_conv)
  have "stmt_error E (stmt_count s1) = None" using assms(1) by (simp add: never_fails_def)
  then have "is_ok (fst (GetRule E i s1))"
    by (simp add: GetRule_fst[OF wf1] rules_map_insert(2)[OF assms(2) ins])
  then show ?thesis by (simp add: CreateRule_unfold ins)
qed

text \<open>C38: an error of \<open>CreateRule\<close> does not mean that nothing was stored: when the insertion runs
  and the statement that reads the row back fails, the rule stays in the table.\<close>

theorem CreateRule_error_keeps_row:
  assumes "db_wf s" and "t_seq (domain_rules s) < 2 ^ 63 - 1"
    and "stmt_error E (stmt_count s) = None" and "stmt_error E (stmt_count s + 1) = Some e"
  shows "fst (CreateRule E c s) = Inl e \<and>
    rules_map E (snd (CreateRule E c s)) (t_seq (domain_rules s) + 1) =
      Some (created_rule E c (t_seq (domain_rules s) + 1) (current_timestamp E (stmt_count s + 1)))"
proof -
  let ?m = "if rc_Mode c = ''exact'' then ''exact'' else ''suffix''"
  let ?en = "if rc_Enabled c \<noteq> Some False then 1 else (0 :: int)"
  obtain i s1 where ins: "insert_rule E (rc_Domain c) ?m (rc_Upstream c) ?en s = (Inr i, s1)"
    using assms(2,3) by (auto simp: insert_rule_def run_stmt_def tab_insert_def Let_def)
  have i: "i = t_seq (domain_rules s) + 1" and n: "stmt_count s1 = stmt_count s + 1"
    using insert_rule_ok[OF ins] by (auto dest: rule_rows.insert_key)
  have "CreateRule E c s = (Inl e, s1\<lparr>stmt_count := stmt_count s1 + 1\<rparr>)"
    using assms(4) by (simp add: CreateRule_unfold ins GetRule_def run_stmt_def n Let_def)
  then show ?thesis
    by (simp add: rules_map_insert(2)[OF assms(1) ins] flip: i) (simp add: created_rule_def)
qed

text \<open>C14: an update of a rule overwrites the fields the client sent, keeps the others and the
  creation time, stamps the update, and leaves every other rule alone. The mode and the domain
  are stored as they were sent.\<close>

theorem UpdateRule_merges:
  assumes "db_wf s" and "UpdateRule E i u s = (Inr v, s')"
  shows "\<exists>old. rules_map E s i = Some old \<and> rules_map E s' = (rules_map E s)(i \<mapsto> v) \<and>
    v = \<lparr>dr_ID = dr_ID old,
         dr_Domain = (case ru_Domain u of None \<Rightarrow> dr_Domain old | Some d \<Rightarrow> d),
         dr_Mode = (case ru_Mode u of None \<Rightarrow> dr_Mode old | Some m \<Rightarrow> m),
         dr_Upstream = (case ru_Upstream u of None \<Rightarrow> dr_Upstream old | Some p \<Rightarrow> p),
         dr_Enabled = (case ru_Enabled u of None \<Rightarrow> dr_Enabled old | Some b \<Rightarrow> b),
         dr_CreatedAt = dr_CreatedAt old,
         dr_UpdatedAt = time_of_text E (current_timestamp E (stmt_count s + 2))\<rparr>"
proof -
  obtain old where "rules_map E s i = Some old" "rules_map E s' = (rules_map E s)(i \<mapsto> v)"
    and v: "v = updated_rule E u old (current_timestamp E (stmt_count s + 2))"
    using UpdateRule_ok[OF assms] by blast
  moreover have "v = \<lparr>dr_ID = dr_ID old,
         dr_Domain = (case ru_Domain u of None \<Rightarrow> dr_Domain old | Some d \<Rightarrow> d),
         dr_Mode = (case ru_Mode u of None \<Rightarrow> dr_Mode old | Some m \<Rightarrow> m),
         dr_Upstream = (case ru_Upstream u of None \<Rightarrow> dr_Upstream old | Some p \<Rightarrow> p),
         dr_Enabled = (case ru_Enabled u of None \<Rightarrow> dr_Enabled old | Some b \<Rightarrow> b),
         dr_CreatedAt = dr_CreatedAt old,
         dr_UpdatedAt = time_of_text E (current_timestamp E (stmt_count s + 2))\<rparr>"
    unfolding v updated_rule_def apply_rule_update_def by (cases old) simp
  ultimately show ?thesis by blast
qed

text \<open>A deletion succeeds exactly when its statement runs and the rule is stored; then that
  rule is gone, and no other one.\<close>

theorem DeleteRule_exact:
  assumes "db_wf s"
  shows "(fst (DeleteRule E i s) = Inr () \<longleftrightarrow>
      stmt_error E (stmt_count s) = None \<and> i \<in> dom (rules_map E s)) \<and>
    rules_map E (snd (DeleteRule E i s)) =
      (if fst (DeleteRule E i s) = Inr () then (rules_map E s)(i := None) else rules_map E s)"
  using DeleteRule_cases[OF assms, of E i] by (auto simp: fun_eq_iff split: option.splits if_splits)

text \<open>A local record that was created is stored under a new key in its normal form, and no
  other record changes.\<close>

theorem CreateHost_stores:
  assumes "db_wf s" and "CreateHost E c s = (Inr v, s')"
  shows "v = created_host E c (t_seq (host_records s) + 1) (current_timestamp E (stmt_count s + 1)) \<and>
    hosts_map E s (hr_ID v) = None \<and> hosts_map E s' = (hosts_map E s)(hr_ID v \<mapsto> v)"
  using CreateHost_ok(3)[OF assms] host_store.create_new[OF assms] host_store.create_abs[OF assms]
  by blast

text \<open>C15: an update of a local record changes that record only, and leaves it in normal form:
  upper-case type, known match mode, time to live that is not negative.\<close>

theorem UpdateHost_normal_form:
  assumes "db_wf s" and "UpdateHost E i u s = (Inr v, s')"
  shows "host_ok v \<and> hr_ID v = i \<and> hosts_map E s' = (hosts_map E s)(i \<mapsto> v)"
proof -
  obtain old where old: "hosts_map E s i = Some old"
    and v: "v = updated_host E u old (current_timestamp E (stmt_count s + 2))"
    using UpdateHost_ok[OF assms] by blast
  have "host_ok v"
    using host_ok_update[OF hosts_map_host_ok[OF assms(1) old], of u] by (simp add: v host_ok_def updated_host_def)
  moreover have "hr_ID old = i"
    using old hosts_map_Some[OF assms(1), of i _ E] by (auto simp: hosts_map_def split: option.splits)
  ultimately show ?thesis
    using host_store.update_abs[OF assms] by (simp add: v updated_host_def)
qed


text \<open>A listing of the rules that succeeds returns every stored rule once, in the order of the
  domains' bytes.\<close>

theorem ListRules_complete:
  assumes "db_wf s" and "order_ok E" and "ListRules E s = (Inr rs, s')"
  shows "set rs = ran (rules_map E s) \<and> distinct (map dr_ID rs) \<and> sorted (map dr_Domain rs)"
proof -
  let ?rows = "rules_order E (t_rows (domain_rules s))"
  have rs: "rs = stored_rules E s"
    using assms(3) by (auto simp: ListRules_fst[OF assms(1,2)] split: option.splits)
  note all = rules_scan(2)[OF assms(1,2)]
  have "map dr_ID rs = map rw_id ?rows"
    unfolding rs by (rule list_all2_map_eq[OF all]) (rule rowToRule_id)
  moreover have "map dr_Domain rs = map rw_domain ?rows"
    unfolding rs by (rule list_all2_map_eq[OF all]) (auto simp: rowToRule_def split: option.splits)
  moreover have "distinct (map rw_id ?rows)"
  proof -
    have "mset (map rw_id ?rows) = mset (map rw_id (t_rows (domain_rules s)))"
      using assms(2) by (simp add: order_ok_def)
    moreover have "distinct (map rw_id (t_rows (domain_rules s)))"
      using assms(1) by (simp add: db_wf_def tab_wf_def)
    ultimately show ?thesis by (metis mset_eq_imp_distinct_iff)
  qed
  moreover have "sorted (map rw_domain ?rows)" using assms(2) by (simp add: order_ok_def)
  ultimately show ?thesis using stored_rules_set[OF assms(1,2)] rs by simp
qed

text \<open>C18: after a change of the account that succeeded, the readers return the new user and the
  new password, for every AEAD that keeps its contract.\<close>

theorem account_change_read_back:
  assumes "UpdateAdminAccount E u p s = (Inr (), s')" and "has_account s"
    and "gcm_ok (sql_gcm E)" and "nonces_ok E"
    and "stmt_error E (stmt_count s') = None" and "stmt_error E (stmt_count s' + 1) = None"
  shows "fst (GetAdminUser E s') = Inr u \<and> fst (GetAdminPass E (snd (GetAdminUser E s'))) = Inr p"
  using account_after_update[OF assms(1-4)] assms(5,6)
  by (simp add: GetAdminUser_def GetAdminPass_def get_admin_value_unfold)

text \<open>C16: a change of the account is atomic: when it reports an error, both stored values are what
  they were, and so are the rules and the records.\<close>

theorem account_change_atomic:
  assumes "UpdateAdminAccount E u p s = (Inl e, s')"
  shows "same_tables s s'"
  by (rule UpdateAdminAccount_error[OF assms])

text \<open>The start of the store gives a store without a complete account the account \<open>admin\<close> with
  the password \<open>123456\<close>, and leaves an existing account alone.\<close>

theorem default_account:
  assumes "initAdminAccount E s = (Inr (), s')" and "db_wf s"
    and "gcm_ok (sql_gcm E)" and "nonces_ok E"
  shows "if has_account s then app_config s' = app_config s
    else stored_value E adminUserKey s' = Inr ''admin'' \<and> stored_value E adminPassKey s' = Inr ''123456''"
proof -
  have "distinct (map fst (app_config s))" using assms(2) by (simp add: db_wf_def)
  note two = count_two_has_account[OF this]
  show ?thesis
  proof (cases "has_account s")
    case True
    with two assms(1) show ?thesis
      by (auto simp: initAdminAccount_def run_stmt_def Let_def count_admin_keys_def
          split: prod.splits sum.splits option.splits if_splits)
  next
    case False
    with two account_after_init(1,2)[OF assms(1) _ assms(3,4)] show ?thesis by simp
  qed
qed


section \<open>A concrete environment\<close>

text \<open>Statements fail where \<open>errs\<close> says so, rows come back sorted, every nonce is the same, and the
  AEAD appends a tag.\<close>

definition example_env :: "(nat \<Rightarrow> go_error option) \<Rightarrow> sql_env" where
  "example_env errs =
     \<lparr>stmt_error = errs,
      current_timestamp = (\<lambda>_. ''2025-01-01 00:00:00''),
      rules_order = sort_key rw_domain,
      hosts_order = sort_key (\<lambda>r. (hw_domain r, hw_type r)),
      time_of_text = (\<lambda>_. 0),
      rand_nonce = (\<lambda>_. Inr (replicate 12 CHR ''n'')),
      sql_gcm = plain_gcm\<rparr>"

lemma example_env_ok [simp]:
  "order_ok (example_env errs)" "gcm_ok (sql_gcm (example_env errs))" "nonces_ok (example_env errs)"
  by (simp_all add: order_ok_def example_env_def nonces_ok_def NonceSize_def)

lemma example_env_never_fails [simp]: "never_fails (example_env (\<lambda>_. None))"
  by (simp add: never_fails_def example_env_def)

definition example_create :: rule_create where
  "example_create = \<lparr>rc_Domain = ''corp.lan'', rc_Mode = ''exact'', rc_Upstream = ''10.0.0.1'', rc_Enabled = None\<rparr>"

definition example_host_create :: host_create where
  "example_host_create =
     \<lparr>hc_Domain = ''nas.lan'', hc_Type = '' a '', hc_MatchMode = ''SUFFIX'', hc_Value = ''10.0.0.9'',
      hc_TTL = Some (- 5), hc_Comment = [], hc_Enabled = None\<rparr>"

definition example_rule_update :: rule_update where
  "example_rule_update =
     \<lparr>ru_Domain = None, ru_Mode = Some ''suffix'', ru_Upstream = None, ru_Enabled = Some False\<rparr>"

abbreviation "quiet \<equiv> example_env (\<lambda>_. None)"

definition one_rule_db :: db where
  "one_rule_db = snd (CreateRule quiet example_create empty_db)"

definition one_host_db :: db where
  "one_host_db = snd (CreateHost quiet example_host_create empty_db)"

lemma example_dbs_wf: "db_wf one_rule_db" "db_wf one_host_db"
  by (simp_all add: one_rule_db_def one_host_db_def db_wf_CreateRule db_wf_CreateHost db_wf_empty)

lemma example_create_result:
  "CreateRule quiet example_create empty_db = (Inr (created_rule quiet example_create 1 ''2025-01-01 00:00:00''), one_rule_db)"
proof -
  have "fst (CreateRule quiet example_create empty_db) = Inr (created_rule quiet example_create 1 ''2025-01-01 00:00:00'')"
    by code_simp
  then show ?thesis unfolding one_rule_db_def by (metis prod.collapse)
qed

theorem rule_ids_never_reused_witness: "(1 :: int) < 2"
proof -
  have "dr_ID (created_rule quiet example_create 1 ''2025-01-01 00:00:00'') <
      dr_ID (created_rule quiet example_create 2 ''2025-01-01 00:00:00'')"
    by (rule rule_ids_never_reused[OF db_wf_empty example_create_result, where ops = "[OpDeleteRule 1]" and d = example_create]) code_simp
  then show ?thesis by (simp add: created_rule_def)
qed

theorem CreateRule_stores_witness:
  "rules_map quiet one_rule_db = (rules_map quiet empty_db)(1 \<mapsto>
     created_rule quiet example_create 1 ''2025-01-01 00:00:00'')"
  using CreateRule_stores[OF db_wf_empty example_create_result]
  by (simp add: created_rule_def)

theorem CreateRule_succeeds_witness: "is_ok (fst (CreateRule quiet example_create empty_db))"
  by (rule CreateRule_succeeds[OF example_env_never_fails db_wf_empty]) (simp add: empty_db_def tab_empty_def)

theorem CreateRule_error_keeps_row_witness:
  "fst (CreateRule (example_env (\<lambda>n. if n = 1 then Some ''disk I/O error'' else None)) example_create empty_db)
     = Inl ''disk I/O error'' \<and>
   rules_map (example_env (\<lambda>n. if n = 1 then Some ''disk I/O error'' else None))
     (snd (CreateRule (example_env (\<lambda>n. if n = 1 then Some ''disk I/O error'' else None)) example_create empty_db)) 1 \<noteq> None"
  using CreateRule_error_keeps_row[OF db_wf_empty,
      where E = "example_env (\<lambda>n. if n = 1 then Some ''disk I/O error'' else None)" and e = "''disk I/O error''" and c = example_create]
  by (simp add: empty_db_def tab_empty_def example_env_def)

lemma example_update_result:
  "UpdateRule quiet 1 example_rule_update one_rule_db =
     (Inr (updated_rule quiet example_rule_update (created_rule quiet example_create 1 ''2025-01-01 00:00:00'') ''2025-01-01 00:00:00''),
      snd (UpdateRule quiet 1 example_rule_update one_rule_db))"
proof -
  have "fst (UpdateRule quiet 1 example_rule_update one_rule_db) =
    Inr (updated_rule quiet example_rule_update (created_rule quiet example_create 1 ''2025-01-01 00:00:00'') ''2025-01-01 00:00:00'')"
    by code_simp
  then show ?thesis by (metis prod.collapse)
qed

theorem UpdateRule_merges_witness:
  "\<exists>v. fst (UpdateRule quiet 1 example_rule_update one_rule_db) = Inr v \<and>
     dr_Domain v = ''corp.lan'' \<and> dr_Mode v = ''suffix'' \<and> \<not> dr_Enabled v"
  using UpdateRule_merges[OF example_dbs_wf(1) example_update_result] CreateRule_ok(2)[OF db_wf_empty example_create_result]
  by (subst example_update_result)
    (auto simp: example_rule_update_def created_rule_def example_create_def updated_rule_def apply_rule_update_def)

theorem DeleteRule_exact_witness:
  "fst (DeleteRule quiet 1 one_rule_db) = Inr () \<and> fst (DeleteRule quiet 2 one_rule_db) \<noteq> Inr ()"
  using DeleteRule_exact[OF example_dbs_wf(1), of quiet 1] DeleteRule_exact[OF example_dbs_wf(1), of quiet 2]
    CreateRule_ok(2)[OF db_wf_empty example_create_result]
  by (simp add: created_rule_def dom_def)
    (simp add: example_env_def rules_map_def empty_db_def tab_find_def tab_empty_def)


theorem ListRules_complete_witness:
  "set (stored_rules quiet one_rule_db) = ran (rules_map quiet one_rule_db)"
proof -
  have "stmt_error quiet (stmt_count one_rule_db) = None" by (simp add: example_env_def)
  then have "ListRules quiet one_rule_db =
      (Inr (stored_rules quiet one_rule_db), one_rule_db\<lparr>stmt_count := stmt_count one_rule_db + 1\<rparr>)"
    by (simp add: ListRules_fst[OF example_dbs_wf(1)])
  from ListRules_complete[OF example_dbs_wf(1) _ this] show ?thesis by simp
qed

lemma example_host_result:
  "CreateHost quiet example_host_create empty_db =
     (Inr (created_host quiet example_host_create 1 ''2025-01-01 00:00:00''), one_host_db)"
proof -
  have "fst (CreateHost quiet example_host_create empty_db) =
      Inr (created_host quiet example_host_create 1 ''2025-01-01 00:00:00'')"
    by code_simp
  then show ?thesis unfolding one_host_db_def by (metis prod.collapse)
qed

theorem CreateHost_stores_witness:
  "hosts_map quiet one_host_db 1 =
     Some \<lparr>hr_ID = 1, hr_Domain = ''nas.lan'', hr_Type = ''A'', hr_MatchMode = ''suffix'',
           hr_Value = ''10.0.0.9'', hr_TTL = 0, hr_Comment = [], hr_Enabled = True,
           hr_CreatedAt = 0, hr_UpdatedAt = 0\<rparr>"
proof -
  have "created_host quiet example_host_create 1 ''2025-01-01 00:00:00'' =
      \<lparr>hr_ID = 1, hr_Domain = ''nas.lan'', hr_Type = ''A'', hr_MatchMode = ''suffix'',
           hr_Value = ''10.0.0.9'', hr_TTL = 0, hr_Comment = [], hr_Enabled = True,
           hr_CreatedAt = 0, hr_UpdatedAt = 0\<rparr>" by code_simp
  with CreateHost_stores[OF db_wf_empty example_host_result] show ?thesis by simp
qed

theorem UpdateHost_normal_form_witness:
  "host_ok (updated_host quiet \<lparr>hu_Domain = None, hu_Type = Some ''aaaa'', hu_MatchMode = Some ''regex'',
       hu_Value = Some ''::1'', hu_TTL = Some (- 1), hu_Comment = None, hu_Enabled = None\<rparr>
     (created_host quiet example_host_create 1 ''2025-01-01 00:00:00'') ''2025-01-01 00:00:00'')"
proof -
  let ?u = "\<lparr>hu_Domain = None, hu_Type = Some ''aaaa'', hu_MatchMode = Some ''regex'',
       hu_Value = Some ''::1'', hu_TTL = Some (- 1), hu_Comment = None, hu_Enabled = None\<rparr>"
  have "fst (UpdateHost quiet 1 ?u one_host_db) =
      Inr (updated_host quiet ?u (created_host quiet example_host_create 1 ''2025-01-01 00:00:00'') ''2025-01-01 00:00:00'')"
    by code_simp
  then have "UpdateHost quiet 1 ?u one_host_db =
      (Inr (updated_host quiet ?u (created_host quiet example_host_create 1 ''2025-01-01 00:00:00'') ''2025-01-01 00:00:00''),
       snd (UpdateHost quiet 1 ?u one_host_db))"
    by (metis prod.collapse)
  from UpdateHost_normal_form[OF example_dbs_wf(2) this] show ?thesis by simp
qed

definition account_db :: db where
  "account_db = snd (initAdminAccount quiet empty_db)"

lemma account_db_result: "initAdminAccount quiet empty_db = (Inr (), account_db)"
proof -
  have "fst (initAdminAccount quiet empty_db) = Inr ()" by code_simp
  then show ?thesis unfolding account_db_def by (metis prod.collapse)
qed

lemma account_db_has_account: "has_account account_db"
  by (rule init_has_account[OF account_db_result]) (simp_all add: empty_db_def)

theorem default_account_witness: "stored_value quiet adminUserKey account_db = Inr ''admin''"
  using default_account[OF account_db_result db_wf_empty]
  by (simp add: has_account_def empty_db_def)

lemma account_change_result:
  "UpdateAdminAccount quiet ''root'' ''s3cret'' account_db =
     (Inr (), snd (UpdateAdminAccount quiet ''root'' ''s3cret'' account_db))"
proof -
  have "fst (UpdateAdminAccount quiet ''root'' ''s3cret'' account_db) = Inr ()" by code_simp
  then show ?thesis by (metis prod.collapse)
qed

theorem account_change_read_back_witness:
  "fst (GetAdminUser quiet (snd (UpdateAdminAccount quiet ''root'' ''s3cret'' account_db))) = Inr ''root''"
  using account_change_read_back[OF account_change_result account_db_has_account]
  by (simp add: example_env_def nonces_ok_def NonceSize_def)

theorem account_change_atomic_witness:
  "same_tables account_db
     (snd (UpdateAdminAccount (example_env (\<lambda>n. if n = 6 then Some ''disk I/O error'' else None)) ''root'' ''s3cret'' account_db))"
proof -
  let ?E = "example_env (\<lambda>n. if n = 6 then Some ''disk I/O error'' else None)"
  have "fst (UpdateAdminAccount ?E ''root'' ''s3cret'' account_db) = Inl ''disk I/O error''" by code_simp
  then have "UpdateAdminAccount ?E ''root'' ''s3cret'' account_db =
      (Inl ''disk I/O error'', snd (UpdateAdminAccount ?E ''root'' ''s3cret'' account_db))"
    by (metis prod.collapse)
  then show ?thesis by (rule account_change_atomic)
qed

end
