(* ===== verification/Reloader.thy ===== *)
theory Reloader
  imports RuleCache HostCache StoreRuns
begin

text \<open>
  \<open>Reloader\<close> and \<open>Notify\<close> of \<open>internal/cache\<close>: the step that brings both caches up to date with
  the store. \<open>cached_table\<close> is the interface between a table of the store and the cache that is
  built from it; the rules and the local records both implement it. \<open>coherent\<close> is what the rest
  of the program relies on: the caches hold what the tables say.
\<close>

section \<open>State and operations\<close>

record reloader =
  rd_store :: db
  rd_cache :: rule_cache
  rd_hosts :: "host_cache option"

definition NewReloader :: "db \<Rightarrow> rule_cache \<Rightarrow> reloader" where
  "NewReloader s c = \<lparr>rd_store = s, rd_cache = c, rd_hosts = None\<rparr>"

definition NewReloaderWithHosts :: "db \<Rightarrow> rule_cache \<Rightarrow> host_cache \<Rightarrow> reloader" where
  "NewReloaderWithHosts s c h = \<lparr>rd_store = s, rd_cache = c, rd_hosts = Some h\<rparr>"

text \<open>The first half of \<open>Reload\<close>: under the lock of the rule cache, list the rules and replace the
  tables; the loop is the one of \<open>RuleCache.Load\<close>.\<close>

definition reload_rules :: "sql_env \<Rightarrow> reloader \<Rightarrow> unit result \<times> reloader" where
  "reload_rules E R =
     (case ListRules E (rd_store R) of
        (Inl e, s) \<Rightarrow> (Inl e, R\<lparr>rd_store := s\<rparr>)
      | (Inr rules, s) \<Rightarrow>
          (case foldl load_rule ([], [], []) rules of
             (exact, suffs, defaultUpstream) \<Rightarrow>
               (Inr (),
                R\<lparr>rd_store := s,
                  rd_cache := (rd_cache R)\<lparr>rc_exact := exact, rc_suffix := sortSuffixes suffs,
                                           rc_defaultUpstream := defaultUpstream\<rparr>\<rparr>)))"

text \<open>The second half: list the local records and load them, when there is a cache for them.\<close>

definition reload_hosts :: "sql_env \<Rightarrow> reloader \<Rightarrow> unit result \<times> reloader" where
  "reload_hosts E R =
     (case rd_hosts R of
        None \<Rightarrow> (Inr (), R)
      | Some h \<Rightarrow>
          (case ListHosts E (rd_store R) of
             (Inl e, s) \<Rightarrow> (Inl e, R\<lparr>rd_store := s\<rparr>)
           | (Inr recs, s) \<Rightarrow>
               (Inr (), R\<lparr>rd_store := s, rd_hosts := Some (HostCache_Load h recs)\<rparr>)))"

definition Reload :: "sql_env \<Rightarrow> reloader \<Rightarrow> unit result \<times> reloader" where
  "Reload E R =
     (case reload_rules E R of
        (Inl e, R1) \<Rightarrow> (Inl e, R1)
      | (Inr _, R1) \<Rightarrow> reload_hosts E R1)"

definition Reloader_Count :: "reloader \<Rightarrow> nat" where
  "Reloader_Count R =
     (let n = length (rc_exact (rd_cache R)) + length (rc_suffix (rd_cache R))
      in if rc_defaultUpstream (rd_cache R) \<noteq> [] then n + 1 else n)"

definition HostsCount :: "reloader \<Rightarrow> nat" where
  "HostsCount R = (case rd_hosts R of None \<Rightarrow> 0 | Some h \<Rightarrow> HostCache_Size h)"

text \<open>The global rule cache the counters read.\<close>

definition HitsCounter :: "rule_cache option \<Rightarrow> int64" where
  "HitsCounter g = (case g of None \<Rightarrow> 0 | Some c \<Rightarrow> rc_hits c)"

definition MissesCounter :: "rule_cache option \<Rightarrow> int64" where
  "MissesCounter g = (case g of None \<Rightarrow> 0 | Some c \<Rightarrow> rc_misses c)"

text \<open>The notification channel: a buffer of one element. \<open>Signal\<close> adds to it unless it is full,
  and never waits.\<close>

record notify =
  nt_buffer :: "unit list"

definition NewNotify :: notify where
  "NewNotify = \<lparr>nt_buffer = []\<rparr>"

definition Signal :: "notify \<Rightarrow> notify" where
  "Signal n = (if length (nt_buffer n) < 1 then n\<lparr>nt_buffer := nt_buffer n @ [()]\<rparr> else n)"

definition notify_recv :: "notify \<Rightarrow> notify option" where
  "notify_recv n = (case nt_buffer n of [] \<Rightarrow> None | _ # b \<Rightarrow> Some (n\<lparr>nt_buffer := b\<rparr>))"

section \<open>The interface between a table and its cache\<close>

locale cached_table =
  fixes inv :: "'s \<Rightarrow> bool"
    and contents :: "'s \<Rightarrow> 'r list"
    and list_table :: "'s \<Rightarrow> 'r list result \<times> 's"
    and load :: "'c \<Rightarrow> 'r list \<Rightarrow> 'c"
    and tables :: "'c \<Rightarrow> 't"
  assumes list_inv: "inv s \<Longrightarrow> inv (snd (list_table s))"
    and list_contents: "inv s \<Longrightarrow> contents (snd (list_table s)) = contents s"
    and list_value: "inv s \<Longrightarrow> fst (list_table s) = Inr rs \<Longrightarrow> rs = contents s"
    and load_tables: "tables (load c rs) = tables (load d rs)"
begin

text \<open>Loading what the listing returned makes the cache show the table as it is after the
  listing, whatever it held before.\<close>

lemma refreshed:
  assumes "inv s" and "list_table s = (Inr rs, s')"
  shows "tables (load c rs) = tables (load d (contents s'))" and "inv s'"
proof -
  have "rs = contents s" using list_value[OF assms(1)] assms(2) by simp
  moreover have "contents s' = contents s" "inv s'"
    using list_contents[OF assms(1)] list_inv[OF assms(1)] assms(2) by simp_all
  ultimately show "tables (load c rs) = tables (load d (contents s'))" and "inv s'"
    using load_tables by simp_all
qed

end

definition rule_tables :: "rule_cache \<Rightarrow> (string, string) gomap \<times> suffix_entry list \<times> string" where
  "rule_tables c = (rc_exact c, rc_suffix c, rc_defaultUpstream c)"

definition host_tables_of :: "host_cache \<Rightarrow> (string, host_entry list) gomap \<times> suffix_host_entry list" where
  "host_tables_of h = (ch_exact h, ch_suffix h)"

definition store_ok :: "sql_env \<Rightarrow> db \<Rightarrow> bool" where
  "store_ok E s \<longleftrightarrow> order_ok E \<and> db_wf s"

lemma store_ok_counters [simp]: "store_ok E (s\<lparr>stmt_count := n\<rparr>) = store_ok E s"
  by (simp add: store_ok_def)

interpretation rules_cached:
  cached_table "store_ok E" "stored_rules E" "ListRules E" RuleCache_Load rule_tables for E :: sql_env
  by unfold_locales
    (auto simp: store_ok_def ListRules_fst RuleCache_Load_def rule_tables_def split: option.splits prod.split)

interpretation hosts_cached:
  cached_table "store_ok E" "stored_hosts E" "ListHosts E" HostCache_Load host_tables_of for E :: sql_env
  by unfold_locales
    (auto simp: store_ok_def ListHosts_fst HostCache_Load_def host_tables_of_def split: option.splits prod.split)

section \<open>Coherence\<close>

definition rules_coherent :: "sql_env \<Rightarrow> db \<Rightarrow> rule_cache \<Rightarrow> bool" where
  "rules_coherent E s c \<longleftrightarrow> rule_tables c = rule_tables (RuleCache_Load RuleCache_New (stored_rules E s))"

definition hosts_coherent :: "sql_env \<Rightarrow> db \<Rightarrow> host_cache option \<Rightarrow> bool" where
  "hosts_coherent E s h \<longleftrightarrow>
     (case h of None \<Rightarrow> True
      | Some h \<Rightarrow> host_tables_of h = host_tables_of (HostCache_Load NewHostCache (stored_hosts E s)))"

definition coherent :: "sql_env \<Rightarrow> reloader \<Rightarrow> bool" where
  "coherent E R \<longleftrightarrow> rules_coherent E (rd_store R) (rd_cache R) \<and> hosts_coherent E (rd_store R) (rd_hosts R)"

lemma rules_coherent_counters [simp]:
  "rules_coherent E (s\<lparr>stmt_count := n\<rparr>) c = rules_coherent E s c"
  "hosts_coherent E (s\<lparr>stmt_count := n\<rparr>) h = hosts_coherent E s h"
  by (simp_all add: rules_coherent_def hosts_coherent_def split: option.split)

lemma reload_rules_load:
  "reload_rules E R =
     (case ListRules E (rd_store R) of
        (Inl e, s) \<Rightarrow> (Inl e, R\<lparr>rd_store := s\<rparr>)
      | (Inr rules, s) \<Rightarrow> (Inr (), R\<lparr>rd_store := s, rd_cache := RuleCache_Load (rd_cache R) rules\<rparr>))"
  by (auto simp: reload_rules_def RuleCache_Load_def build_tables_def split: prod.split sum.split)

lemma reload_rules_ok:
  assumes "reload_rules E R = (Inr (), R')" and "store_ok E (rd_store R)"
  shows "rules_coherent E (rd_store R') (rd_cache R')" and "rd_hosts R' = rd_hosts R"
    and "rd_store R' = (rd_store R)\<lparr>stmt_count := stmt_count (rd_store R) + 1\<rparr>"
    and "rc_hits (rd_cache R') = rc_hits (rd_cache R)" and "rc_misses (rd_cache R') = rc_misses (rd_cache R)"
proof -
  from assms(1) obtain rules s where l: "ListRules E (rd_store R) = (Inr rules, s)"
    and R': "R' = R\<lparr>rd_store := s, rd_cache := RuleCache_Load (rd_cache R) rules\<rparr>"
    by (auto simp: reload_rules_load split: prod.splits sum.splits)
  show "rules_coherent E (rd_store R') (rd_cache R')"
    using rules_cached.refreshed(1)[OF assms(2) l] by (simp add: rules_coherent_def R')
  show "rd_hosts R' = rd_hosts R" by (simp add: R')
  show "rd_store R' = (rd_store R)\<lparr>stmt_count := stmt_count (rd_store R) + 1\<rparr>"
    using read_state_eq(1)[OF l] by (simp add: R')
  show "rc_hits (rd_cache R') = rc_hits (rd_cache R)" "rc_misses (rd_cache R') = rc_misses (rd_cache R)"
    by (auto simp: R' RuleCache_Load_def split: prod.split)
qed

lemma reload_hosts_ok:
  assumes "reload_hosts E R = (Inr (), R')" and "store_ok E (rd_store R)"
  shows "hosts_coherent E (rd_store R') (rd_hosts R')" and "rd_cache R' = rd_cache R"
    and "\<exists>n. rd_store R' = (rd_store R)\<lparr>stmt_count := n\<rparr>"
proof -
  show "hosts_coherent E (rd_store R') (rd_hosts R')"
  proof (cases "rd_hosts R")
    case None
    with assms(1) show ?thesis by (auto simp: reload_hosts_def hosts_coherent_def)
  next
    case (Some h)
    with assms(1) obtain recs s where l: "ListHosts E (rd_store R) = (Inr recs, s)"
      and R': "R' = R\<lparr>rd_store := s, rd_hosts := Some (HostCache_Load h recs)\<rparr>"
      by (auto simp: reload_hosts_def split: prod.splits sum.splits)
    show ?thesis
      using hosts_cached.refreshed(1)[OF assms(2) l] by (simp add: hosts_coherent_def R')
  qed
  show "rd_cache R' = rd_cache R"
    using assms(1) by (auto simp: reload_hosts_def split: option.splits prod.splits sum.splits)
  have same: "\<exists>n. s = s\<lparr>stmt_count := n\<rparr>" for s :: db
    by (rule exI[of _ "stmt_count s"]) simp
  show "\<exists>n. rd_store R' = (rd_store R)\<lparr>stmt_count := n\<rparr>"
    using assms(1) same by (auto simp: reload_hosts_def dest!: read_state_eq(3) split: option.splits prod.splits sum.splits)
qed

lemma Reload_ok:
  assumes "Reload E R = (Inr (), R')" and "store_ok E (rd_store R)"
  shows "coherent E R'" and "\<exists>n. rd_store R' = (rd_store R)\<lparr>stmt_count := n\<rparr>"
    and "rc_hits (rd_cache R') = rc_hits (rd_cache R)" and "rc_misses (rd_cache R') = rc_misses (rd_cache R)"
proof -
  from assms(1) obtain R1 where r: "reload_rules E R = (Inr (), R1)" and h: "reload_hosts E R1 = (Inr (), R')"
    by (auto simp: Reload_def split: prod.splits sum.splits)
  note r' = reload_rules_ok[OF r assms(2)]
  have ok1: "store_ok E (rd_store R1)" using assms(2) by (simp add: r'(3))
  note h' = reload_hosts_ok[OF h ok1]
  from h'(3) r'(3) show "\<exists>n. rd_store R' = (rd_store R)\<lparr>stmt_count := n\<rparr>" by auto
  from h'(3) r'(1) h'(1,2) show "coherent E R'" by (auto simp: coherent_def)
  from r'(4,5) h'(2) show "rc_hits (rd_cache R') = rc_hits (rd_cache R)" "rc_misses (rd_cache R') = rc_misses (rd_cache R)"
    by simp_all
qed

text \<open>Lookups in coherent caches are lookups in the tables.\<close>

lemma Match_by_tables:
  "rule_tables c = rule_tables d \<Longrightarrow> fst (RuleCache_Match c name) = fst (RuleCache_Match d name)"
  by (auto simp: rule_tables_def RuleCache_Match_def Let_def split: option.split)

lemma Lookup_by_tables:
  "host_tables_of h = host_tables_of k \<Longrightarrow> fst (HostCache_Lookup h name qt) = fst (HostCache_Lookup k name qt)"
  by (auto simp: host_tables_of_def Lookup_unfold Let_def split: option.split)

lemma coherent_Match:
  "coherent E R \<Longrightarrow> rule_spec (stored_rules E (rd_store R)) (normalize_domain name) (fst (RuleCache_Match (rd_cache R) name))"
  using Match_by_tables[of "rd_cache R" "RuleCache_Load RuleCache_New (stored_rules E (rd_store R))" name]
    Match_refines[of "stored_rules E (rd_store R)" name RuleCache_New]
  by (simp add: coherent_def rules_coherent_def)

lemma coherent_Lookup:
  "coherent E R \<Longrightarrow> rd_hosts R = Some h \<Longrightarrow>
     host_spec (stored_hosts E (rd_store R)) (normalize_domain name) (query_type qt) (fst (HostCache_Lookup h name qt))"
  using Lookup_by_tables[of h "HostCache_Load NewHostCache (stored_hosts E (rd_store R))" name qt]
    Lookup_refines[of "stored_hosts E (rd_store R)" name qt NewHostCache]
  by (simp add: coherent_def hosts_coherent_def)

section \<open>Properties\<close>

text \<open>C20: after a reload that reports success, every lookup in the two caches answers what the
  tables of the store say at that moment, whatever the caches held before; the counters go on.\<close>

theorem Reload_makes_coherent:
  assumes "Reload E R = (Inr (), R')" and "store_ok E (rd_store R)" and "rd_hosts R' = Some h"
  shows "rule_spec (stored_rules E (rd_store R')) (normalize_domain name) (fst (RuleCache_Match (rd_cache R') name)) \<and>
    host_spec (stored_hosts E (rd_store R')) (normalize_domain name) (query_type qt) (fst (HostCache_Lookup h name qt)) \<and>
    rc_hits (rd_cache R') = rc_hits (rd_cache R) \<and> rc_misses (rd_cache R') = rc_misses (rd_cache R)"
  using Reload_ok[OF assms(1,2)] coherent_Match coherent_Lookup[OF _ assms(3)] by simp

text \<open>C21: a reload that fails is not all or nothing. When the listing of the rules fails, both
  caches stay as they were; when the listing of the local records fails, the rule cache is
  already new and the host cache still old.\<close>

theorem Reload_error_cases:
  assumes "Reload E R = (Inl e, R')" and "store_ok E (rd_store R)"
  shows "rd_hosts R' = rd_hosts R \<and>
    (if stmt_error E (stmt_count (rd_store R)) = Some e then rd_cache R' = rd_cache R
     else stmt_error E (stmt_count (rd_store R) + 1) = Some e \<and>
       rules_coherent E (rd_store R') (rd_cache R'))"
proof (cases "stmt_error E (stmt_count (rd_store R))")
  case (Some e')
  with assms show ?thesis
    by (auto simp: Reload_def reload_rules_load store_ok_def ListRules_fst)
next
  case None
  let ?s = "(rd_store R)\<lparr>stmt_count := stmt_count (rd_store R) + 1\<rparr>"
  let ?R1 = "R\<lparr>rd_store := ?s, rd_cache := RuleCache_Load (rd_cache R) (stored_rules E (rd_store R))\<rparr>"
  have r: "reload_rules E R = (Inr (), ?R1)"
    using assms(2) None by (simp add: reload_rules_load store_ok_def ListRules_fst)
  from reload_rules_ok(1)[OF r assms(2)]
  have coh: "rules_coherent E ?s (RuleCache_Load (rd_cache R) (stored_rules E (rd_store R)))" by simp
  show ?thesis
    using assms None r coh
    by (auto simp: Reload_def reload_hosts_def store_ok_def ListHosts_fst split: option.splits)
qed

text \<open>The counts the status page shows are the sizes of the caches: the rule count is the
  number of distinct exact names, suffix rules and, when there is one, the default.\<close>

theorem counts_are_sizes:
  "Reloader_Count R = RuleCache_Size (rd_cache R) \<and>
   HostsCount (R\<lparr>rd_hosts := Some h\<rparr>) = length (ch_exact h) \<and> HostsCount (R\<lparr>rd_hosts := None\<rparr>) = 0"
  by (simp add: Reloader_Count_def RuleCache_Size_def HostsCount_def HostCache_Size_def Let_def)

text \<open>However many changes are signalled before the reader comes, it gets exactly one
  notification for all of them, and the channel is empty again.\<close>

theorem Signal_coalesces:
  "nt_buffer ((Signal ^^ Suc k) NewNotify) = [()] \<and> notify_recv ((Signal ^^ Suc k) NewNotify) = Some NewNotify"
proof -
  have "(Signal ^^ Suc k) NewNotify = \<lparr>nt_buffer = [()]\<rparr>"
    by (induction k) (simp_all add: Signal_def NewNotify_def)
  then show ?thesis by (simp add: notify_recv_def NewNotify_def)
qed

section \<open>Witnesses\<close>

lemma quiet_store_ok: "db_wf s \<Longrightarrow> store_ok quiet s"
  by (simp add: store_ok_def)

lemma Reload_never_fails: "never_fails E \<Longrightarrow> store_ok E (rd_store R) \<Longrightarrow> fst (Reload E R) = Inr ()"
  by (auto simp: never_fails_def Reload_def reload_rules_load reload_hosts_def store_ok_def ListRules_fst
      ListHosts_fst split: option.split)

theorem Reload_makes_coherent_witness:
  "\<exists>R'. Reload quiet (NewReloaderWithHosts one_rule_db RuleCache_New NewHostCache) = (Inr (), R') \<and>
     rule_spec (stored_rules quiet (rd_store R')) (normalize_domain ''corp.lan'')
       (fst (RuleCache_Match (rd_cache R') ''corp.lan''))"
proof -
  let ?R = "NewReloaderWithHosts one_rule_db RuleCache_New NewHostCache"
  have ok: "store_ok quiet (rd_store ?R)"
    by (simp add: NewReloaderWithHosts_def quiet_store_ok example_dbs_wf)
  obtain R' where R': "Reload quiet ?R = (Inr (), R')"
    using Reload_never_fails[OF example_env_never_fails ok] by (metis prod.collapse)
  obtain h where "rd_hosts R' = Some h"
    using R' by (auto simp: Reload_def reload_rules_load reload_hosts_def NewReloaderWithHosts_def
        split: prod.splits sum.splits)
  from Reload_makes_coherent[OF R' ok this] R' show ?thesis by blast
qed

theorem Reload_error_cases_witness:
  "rd_hosts (snd (Reload (example_env (\<lambda>n. if n = 3 then Some ''disk I/O error'' else None))
     (NewReloaderWithHosts one_rule_db RuleCache_New NewHostCache))) = Some NewHostCache"
proof -
  let ?E = "example_env (\<lambda>n. if n = 3 then Some ''disk I/O error'' else None)"
  let ?R = "NewReloaderWithHosts one_rule_db RuleCache_New NewHostCache"
  have "fst (Reload ?E ?R) = Inl ''disk I/O error''" by code_simp
  then have R': "Reload ?E ?R = (Inl ''disk I/O error'', snd (Reload ?E ?R))" by (metis prod.collapse)
  have "store_ok ?E (rd_store ?R)"
    by (simp add: NewReloaderWithHosts_def store_ok_def example_dbs_wf)
  from Reload_error_cases[OF R' this] show ?thesis by (simp add: NewReloaderWithHosts_def)
qed

end
