(* ===== verification/GoPath.thy ===== *)
theory GoPath
  imports GoStrings
begin

text \<open>
  \<open>Clean\<close>, \<open>Join\<close>, \<open>Dir\<close> and \<open>Base\<close> of Go's \<open>path\<close> and, on systems whose separator is the
  slash, \<open>path/filepath\<close>, and \<open>strings.Join\<close>.
\<close>

fun split_slash :: "string \<Rightarrow> string list" where
  "split_slash [] = [[]]"
| "split_slash (c # s) =
     (if c = CHR ''/'' then [] # split_slash s
      else case split_slash s of [] \<Rightarrow> [[c]] | w # ws \<Rightarrow> (c # w) # ws)"

fun strings_Join :: "string list \<Rightarrow> string \<Rightarrow> string" where
  "strings_Join [] sep = []"
| "strings_Join [w] sep = w"
| "strings_Join (w # ws) sep = w @ sep @ strings_Join ws sep"

text \<open>Empty elements and \<open>.\<close> vanish; \<open>..\<close> takes the element before it, and stays at the start of a
  relative path.\<close>

definition clean_elem :: "bool \<Rightarrow> string list \<Rightarrow> string \<Rightarrow> string list" where
  "clean_elem rooted acc w =
     (if w = [] \<or> w = ''.'' then acc
      else if w = ''..'' then
        (if acc \<noteq> [] \<and> last acc \<noteq> ''..'' then butlast acc
         else if rooted then acc
         else acc @ [w])
      else acc @ [w])"

definition path_Clean :: "string \<Rightarrow> string" where
  "path_Clean p =
     (let rooted = HasPrefix p ''/'';
          out = (if rooted then ''/'' else []) @ strings_Join (foldl (clean_elem rooted) [] (split_slash p)) ''/''
      in if out = [] then ''.'' else out)"

definition path_Join :: "string list \<Rightarrow> string" where
  "path_Join elems =
     (case dropWhile (\<lambda>e. e = []) elems of
        [] \<Rightarrow> []
      | es \<Rightarrow> path_Clean (strings_Join es ''/''))"

definition path_Dir :: "string \<Rightarrow> string" where
  "path_Dir p =
     (case LastIndexByte p CHR ''/'' of
        None \<Rightarrow> path_Clean []
      | Some i \<Rightarrow> path_Clean (take (i + 1) p))"

end
