(* ===== verification/Http.thy ===== *)
theory Http
  imports DataModel GoBase64 GoPath
begin

text \<open>
  What the handlers use of \<open>net/http\<close>: a request as the handlers read it, a response as they
  write it, \<open>http.Error\<close> and \<open>http.NotFound\<close>, the dispatch of \<open>ServeMux\<close> with its cleaning of
  paths, and \<open>BasicAuth\<close>. The paths are those that need no escaping. A JSON body is kept as the
  value that is encoded, the other bodies are bytes.
\<close>

section \<open>Requests and responses\<close>

text \<open>The query is the multimap of \<open>URL.Query\<close>; the body is the bytes that arrive and the error the
  stream ends with, if it does not end regularly.\<close>

record http_request =
  rq_Method :: string
  rq_Path :: string
  rq_Query :: "(string \<times> string) list"
  rq_Header :: "(string \<times> string) list"
  rq_Body :: "bytes \<times> go_error option"

datatype body =
    Bytes string
  | JsonRule domain_rule
  | JsonRules "domain_rule list"
  | JsonHost host_record
  | JsonHosts "host_record list"
  | JsonText "(string \<times> string) list"
  | JsonStatus "(string \<times> string) list" "(string \<times> int) list"

record http_response =
  rs_Status :: int
  rs_Header :: "(string \<times> string) list"
  rs_Body :: body

text \<open>\<open>Header.Get\<close> and \<open>Values.Get\<close>: the first value, or the empty string.\<close>

definition get_first :: "string \<Rightarrow> (string \<times> string) list \<Rightarrow> string" where
  "get_first k m = (case map_of m k of None \<Rightarrow> [] | Some v \<Rightarrow> v)"

definition ReadAll :: "bytes \<times> go_error option \<Rightarrow> bytes result" where
  "ReadAll b = (case b of (d, None) \<Rightarrow> Inr d | (d, Some e) \<Rightarrow> Inl e)"

text \<open>\<open>ReadAll\<close> of a \<open>LimitReader\<close>: an error behind the limit is not seen.\<close>

definition ReadAllLimit :: "nat \<Rightarrow> bytes \<times> go_error option \<Rightarrow> bytes result" where
  "ReadAllLimit n b =
     (case b of (d, e) \<Rightarrow>
        if n \<le> length d then Inr (take n d)
        else (case e of None \<Rightarrow> Inr d | Some e' \<Rightarrow> Inl e'))"

definition text_response :: "int \<Rightarrow> string \<Rightarrow> string \<Rightarrow> http_response" where
  "text_response status ct text =
     \<lparr>rs_Status = status, rs_Header = [(''Content-Type'', ct)], rs_Body = Bytes text\<rparr>"

definition bare_response :: "int \<Rightarrow> http_response" where
  "bare_response status = \<lparr>rs_Status = status, rs_Header = [], rs_Body = Bytes []\<rparr>"

definition text_plain :: string where
  "text_plain = ''text/plain; charset=utf-8''"

definition http_Error :: "string \<Rightarrow> int \<Rightarrow> http_response" where
  "http_Error e status =
     \<lparr>rs_Status = status,
      rs_Header = [(''Content-Type'', text_plain), (''X-Content-Type-Options'', ''nosniff'')],
      rs_Body = Bytes (e @ [CHR 0x0A])\<rparr>"

definition NotFound :: http_response where
  "NotFound = http_Error ''404 page not found'' 404"

definition json_response :: "body \<Rightarrow> http_response" where
  "json_response b =
     \<lparr>rs_Status = 200, rs_Header = [(''Content-Type'', ''application/json; charset=utf-8'')], rs_Body = b\<rparr>"

lemma response_status [simp]:
  "rs_Status (text_response s ct t) = s" "rs_Status (bare_response s) = s"
  "rs_Status (http_Error e s) = s" "rs_Status NotFound = 404" "rs_Status (json_response b) = 200"
  by (simp_all add: text_response_def bare_response_def http_Error_def NotFound_def json_response_def)

section \<open>Paths\<close>

definition cleanPath :: "string \<Rightarrow> string" where
  "cleanPath p0 =
     (if p0 = [] then ''/''
      else
        let p = (if hd p0 \<noteq> CHR ''/'' then CHR ''/'' # p0 else p0);
            np = path_Clean p
        in if last p = CHR ''/'' \<and> np \<noteq> ''/'' then np @ ''/'' else np)"

section \<open>Dispatch\<close>

text \<open>A pattern that ends in a slash matches the paths it is a prefix of, any other one itself. Of
  the matching patterns the longest is the most specific.\<close>

definition pattern_matches :: "string \<Rightarrow> string \<Rightarrow> bool" where
  "pattern_matches path pat \<longleftrightarrow>
     (if HasSuffix pat ''/'' then HasPrefix path pat else path = pat)"

fun best_match :: "string \<Rightarrow> (string \<times> 'h) list \<Rightarrow> (string \<times> 'h) option" where
  "best_match path [] = None"
| "best_match path ((pat, h) # rs) =
     (case best_match path rs of
        None \<Rightarrow> if pattern_matches path pat then Some (pat, h) else None
      | Some (pat', h') \<Rightarrow>
          if pattern_matches path pat \<and> length pat' < length pat then Some (pat, h) else Some (pat', h'))"

datatype 'h dispatch = Redirect string | Serve 'h | NoHandler

definition mux_dispatch :: "(string \<times> 'h) list \<Rightarrow> http_request \<Rightarrow> 'h dispatch" where
  "mux_dispatch routes rq =
     (let path = (if rq_Method rq = ''CONNECT'' then rq_Path rq else cleanPath (rq_Path rq)) in
      if best_match path routes = None \<and> best_match (path @ ''/'') routes \<noteq> None \<and>
         map_of routes (path @ ''/'') \<noteq> None then Redirect (path @ ''/'')
      else if path \<noteq> rq_Path rq then Redirect path
      else case best_match path routes of None \<Rightarrow> NoHandler | Some (_, h) \<Rightarrow> Serve h)"

lemma best_match_sound:
  "best_match path routes = Some (pat, h) \<Longrightarrow> (pat, h) \<in> set routes \<and> pattern_matches path pat"
  by (induction path routes rule: best_match.induct) (auto split: option.splits if_splits)

lemma best_match_longest:
  "best_match path routes = Some (pat, h) \<Longrightarrow> (pat', h') \<in> set routes \<Longrightarrow> pattern_matches path pat' \<Longrightarrow>
     length pat' \<le> length pat"
proof (induction routes arbitrary: pat h pat' h')
  case (Cons r rs)
  obtain p g where r: "r = (p, g)" by (cases r)
  show ?case
  proof (cases "best_match path rs")
    case None
    have "best_match path rs \<noteq> None" if "(q, k) \<in> set rs" "pattern_matches path q" for q k
      using that by (induction rs) (auto split: option.splits)
    with Cons.prems None r show ?thesis by (auto split: if_splits)
  next
    case (Some b)
    obtain q k where b: "b = (q, k)" by (cases b)
    have IH: "length pat'' \<le> length q" if "(pat'', h'') \<in> set rs" "pattern_matches path pat''" for pat'' h''
      using Cons.IH[of q k pat'' h''] Some b that by simp
    from Cons.prems Some b r IH show ?thesis by (fastforce split: if_splits)
  qed
qed simp

section \<open>Basic authentication\<close>

definition parseBasicAuth :: "string \<Rightarrow> (string \<times> string) option" where
  "parseBasicAuth auth =
     (if length auth < 6 \<or> ToLower (take 6 auth) \<noteq> ''basic '' then None
      else
        (case StdDecodeString (drop 6 auth) of
           Inl _ \<Rightarrow> None
         | Inr c \<Rightarrow> CutByte c CHR '':''))"

definition BasicAuth :: "http_request \<Rightarrow> (string \<times> string) option" where
  "BasicAuth rq =
     (let auth = get_first ''Authorization'' (rq_Header rq) in
      if auth = [] then None else parseBasicAuth auth)"

text \<open>The header a client sends for a user and a password.\<close>

definition basic_header :: "string \<Rightarrow> string \<Rightarrow> string" where
  "basic_header u p = ''Basic '' @ StdEncodeToString (u @ '':'' @ p)"

lemma BasicAuth_header:
  assumes "get_first ''Authorization'' (rq_Header rq) = basic_header u p" and "CHR '':'' \<notin> set u"
  shows "BasicAuth rq = Some (u, p)"
proof -
  have "ToLower ''Basic '' = ''basic ''" by code_simp
  with assms show ?thesis
    by (simp add: BasicAuth_def parseBasicAuth_def basic_header_def)
qed

end
