(* ===== verification/Config.thy ===== *)
theory Config
  imports GoPath
begin

text \<open>
  \<open>internal/config/config.go\<close>: the settings of the program. A setting is its flag on the command
  line, else its environment variable, else a default; then the directories are made and the
  paths that depend on others filled in. The process's environment is the record \<open>os_env\<close>.
  \<open>flag.Parse\<close> is modelled with its argument syntax; \<open>Inl\<close> stands for the exit of the process.
\<close>

record config =
  cfg_DNSAddr :: string
  cfg_DoTAddr :: string
  cfg_DoHAddr :: string
  cfg_HTTPAddr :: string
  cfg_DBCacheDir :: string
  cfg_CertDir :: string
  cfg_CertFile :: string
  cfg_KeyFile :: string
  cfg_CACertFile :: string
  cfg_CAKeyFile :: string
  cfg_DoHHost :: string
  cfg_DefaultUpstream :: string
  cfg_AdminUser :: string
  cfg_AdminPass :: string
  cfg_DevCert :: bool

record os_env =
  os_Getenv :: "string \<Rightarrow> string"
  os_Executable :: string
  os_Args :: "string list"
  os_MkdirAll :: "string \<Rightarrow> go_error option"

definition parseEnvOrFlag :: "os_env \<Rightarrow> string \<Rightarrow> string \<Rightarrow> string \<Rightarrow> string" where
  "parseEnvOrFlag os flagName envKey def =
     (let v = os_Getenv os envKey in if v \<noteq> [] then v else def)"

section \<open>The command line\<close>

definition string_flags :: "string list" where
  "string_flags =
     [''dns'', ''dot'', ''doh'', ''http'', ''data'', ''cert-dir'', ''cert-file'', ''key-file'',
      ''doh-host'', ''default-upstream'', ''admin-user'', ''admin-pass'']"

definition ParseBool :: "string \<Rightarrow> bool option" where
  "ParseBool s =
     (if s \<in> {''1'', ''t'', ''T'', ''TRUE'', ''true'', ''True''} then Some True
      else if s \<in> {''0'', ''f'', ''F'', ''FALSE'', ''false'', ''False''} then Some False
      else None)"

text \<open>The name and the value of an argument without its dashes; a separator at its start is an
  error.\<close>

definition split_flag :: "string \<Rightarrow> string \<times> string option" where
  "split_flag name =
     (case CutByte (tl name) CHR ''='' of
        None \<Rightarrow> (name, None)
      | Some (n, v) \<Rightarrow> (hd name # n, Some v))"

text \<open>\<open>flag.Parse\<close>: the values set, the last one of a flag first. Parsing ends at the first argument
  that is not a flag or after \<open>--\<close>.\<close>

function parse_args :: "(string \<times> string) list \<Rightarrow> string list \<Rightarrow> (string \<times> string) list result" where
  "parse_args seen [] = Inr seen"
| "parse_args seen (s # args) =
     (if length s < 2 \<or> hd s \<noteq> CHR ''-'' then Inr seen
      else if s = ''--'' then Inr seen
      else
        let name0 = (if s ! 1 = CHR ''-'' then drop 2 s else drop 1 s) in
        if name0 = [] \<or> hd name0 = CHR ''-'' \<or> hd name0 = CHR ''='' then Inl (''bad flag syntax: '' @ s)
        else
          (case split_flag name0 of
             (name, val) \<Rightarrow>
               if name = ''dev-cert'' then
                 (case val of
                    None \<Rightarrow> parse_args ((name, ''true'') # seen) args
                  | Some v \<Rightarrow>
                      (case ParseBool v of
                         None \<Rightarrow> Inl ''invalid boolean value''
                       | Some b \<Rightarrow> parse_args ((name, if b then ''true'' else ''false'') # seen) args))
               else if name \<in> set string_flags then
                 (case val of
                    Some v \<Rightarrow> parse_args ((name, v) # seen) args
                  | None \<Rightarrow>
                      (case args of
                         [] \<Rightarrow> Inl (''flag needs an argument: -'' @ name)
                       | v # args' \<Rightarrow> parse_args ((name, v) # seen) args'))
               else Inl (''flag provided but not defined: -'' @ name)))"
  by pat_completeness auto
termination
  by (relation "measure (\<lambda>(seen, args). length args)") auto

declare parse_args.simps(2) [simp del]

section \<open>Load\<close>

definition flag_value :: "(string \<times> string) list \<Rightarrow> string \<Rightarrow> string \<Rightarrow> string" where
  "flag_value flags name def = (case map_of flags name of None \<Rightarrow> def | Some v \<Rightarrow> v)"

definition string_setting ::
  "os_env \<Rightarrow> (string \<times> string) list \<Rightarrow> string \<Rightarrow> string \<Rightarrow> string \<Rightarrow> string" where
  "string_setting os flags name envKey def =
     flag_value flags name (parseEnvOrFlag os name envKey def)"

definition parsed_config :: "os_env \<Rightarrow> (string \<times> string) list \<Rightarrow> config" where
  "parsed_config os flags =
     (let exeDir = path_Dir (os_Executable os) in
      \<lparr>cfg_DNSAddr = string_setting os flags ''dns'' ''DP_DNS_ADDR'' ''0.0.0.0:15353'',
       cfg_DoTAddr = string_setting os flags ''dot'' ''DP_DOT_ADDR'' ''0.0.0.0:1853'',
       cfg_DoHAddr = string_setting os flags ''doh'' ''DP_DOH_ADDR'' ''0.0.0.0:1443'',
       cfg_HTTPAddr = string_setting os flags ''http'' ''DP_HTTP_ADDR'' ''0.0.0.0:8443'',
       cfg_DBCacheDir = string_setting os flags ''data'' ''DP_DATA_DIR'' (path_Join [exeDir, ''data'']),
       cfg_CertDir = string_setting os flags ''cert-dir'' ''DP_CERT_DIR'' (path_Join [exeDir, ''certs'']),
       cfg_CertFile = string_setting os flags ''cert-file'' ''DP_CERT_FILE'' [],
       cfg_KeyFile = string_setting os flags ''key-file'' ''DP_KEY_FILE'' [],
       cfg_CACertFile = [],
       cfg_CAKeyFile = [],
       cfg_DoHHost = string_setting os flags ''doh-host'' ''DP_DOH_HOST'' [],
       cfg_DefaultUpstream = string_setting os flags ''default-upstream'' ''DP_DEFAULT_UPSTREAM'' ''8.8.8.8:53'',
       cfg_AdminUser = string_setting os flags ''admin-user'' ''DP_ADMIN_USER'' ''admin'',
       cfg_AdminPass = string_setting os flags ''admin-pass'' ''DP_ADMIN_PASS'' ''changeme'',
       cfg_DevCert =
         (case map_of flags ''dev-cert'' of
            None \<Rightarrow> os_Getenv os ''DP_DEV_CERT'' = ''1''
          | Some v \<Rightarrow> v = ''true'')\<rparr>)"

definition finish_config :: "config \<Rightarrow> config" where
  "finish_config cfg =
     (let cfg1 = (if cfg_CertFile cfg = [] then cfg\<lparr>cfg_CertFile := path_Join [cfg_CertDir cfg, ''server.crt'']\<rparr> else cfg);
          cfg2 = (if cfg_KeyFile cfg1 = [] then cfg1\<lparr>cfg_KeyFile := path_Join [cfg_CertDir cfg, ''server.key'']\<rparr> else cfg1);
          cfg3 = cfg2\<lparr>cfg_CACertFile := path_Join [cfg_CertDir cfg, ''ca.crt''],
                      cfg_CAKeyFile := path_Join [cfg_CertDir cfg, ''ca.key'']\<rparr>
      in if \<not> HasSuffix (cfg_DBCacheDir cfg) ''/'' then cfg3\<lparr>cfg_DBCacheDir := cfg_DBCacheDir cfg @ ''/''\<rparr>
         else cfg3)"

definition Load :: "os_env \<Rightarrow> config result" where
  "Load os =
     (case parse_args [] (os_Args os) of
        Inl e \<Rightarrow> Inl e
      | Inr flags \<Rightarrow>
          let cfg = parsed_config os flags in
          (case os_MkdirAll os (cfg_DBCacheDir cfg) of
             Some e \<Rightarrow> Inl e
           | None \<Rightarrow>
               (case os_MkdirAll os (cfg_CertDir cfg) of
                  Some e \<Rightarrow> Inl e
                | None \<Rightarrow> Inr (finish_config cfg))))"

section \<open>Properties\<close>

lemma Load_ok:
  assumes "Load os = Inr cfg"
  shows "\<exists>flags. parse_args [] (os_Args os) = Inr flags \<and> cfg = finish_config (parsed_config os flags)"
  using assms by (auto simp: Load_def Let_def split: sum.splits option.splits)

text \<open>The file of the database lies in the data directory, whatever way that was written.\<close>

lemma finish_dir: "HasSuffix (cfg_DBCacheDir (finish_config cfg)) ''/''"
proof -
  have "HasSuffix (d @ ''/'') ''/''" for d by (simp add: HasSuffix_iff)
  then show ?thesis by (auto simp: finish_config_def Let_def)
qed

lemma flag_value_setting:
  "string_setting os flags name var def =
     (case map_of flags name of
        Some v \<Rightarrow> v
      | None \<Rightarrow> if os_Getenv os var \<noteq> [] then os_Getenv os var else def)"
  by (simp add: string_setting_def flag_value_def parseEnvOrFlag_def Let_def split: option.split)


definition example_os :: "string list \<Rightarrow> os_env" where
  "example_os args =
     \<lparr>os_Getenv = (\<lambda>k. if k = ''DP_DEFAULT_UPSTREAM'' then ''1.1.1.1'' else []),
      os_Executable = ''/opt/dns/dns-proxy'', os_Args = args, os_MkdirAll = (\<lambda>_. None)\<rparr>"


end
