(* ===== verification/GoNet.thy ===== *)
theory GoNet
  imports GoStrings
begin

text \<open>
  The functions of Go's \<open>net\<close> package that the program calls on text: \<open>ParseIP\<close> with the
  IPv4 and IPv6 readers of \<open>net/netip\<close> below it, \<open>To4\<close>, \<open>SplitHostPort\<close> and
  \<open>JoinHostPort\<close>. An address is the list of its 16 bytes, as numbers.
\<close>

type_synonym ip = "int list"

section \<open>IP addresses\<close>

text \<open>
  The loop of \<open>parseIPv4Fields\<close>: \<open>sep\<close> says that the position is the first one or follows a
  dot, \<open>fields\<close> are the octets stored so far.
\<close>

fun ipv4_loop :: "string \<Rightarrow> bool \<Rightarrow> int \<Rightarrow> nat \<Rightarrow> int list \<Rightarrow> int list option" where
  "ipv4_loop [] sep val digLen fields =
     (if length fields < 3 then None else Some (fields @ [val]))"
| "ipv4_loop (c # cs) sep val digLen fields =
     (if is_digit c then
        if digLen = 1 \<and> val = 0 then None
        else if 255 < val * 10 + digit_val c then None
        else ipv4_loop cs False (val * 10 + digit_val c) (digLen + 1) fields
      else if c = CHR ''.'' then
        if sep \<or> cs = [] then None
        else if length fields = 3 then None
        else ipv4_loop cs True 0 0 (fields @ [val])
      else None)"

definition parseIPv4Fields :: "string \<Rightarrow> int list option" where
  "parseIPv4Fields s = ipv4_loop s True 0 0 []"

definition hex_val :: "char \<Rightarrow> int option" where
  "hex_val c =
     (if 48 \<le> code c \<and> code c \<le> 57 then Some (code c - 48)
      else if 97 \<le> code c \<and> code c \<le> 102 then Some (code c - 87)
      else if 65 \<le> code c \<and> code c \<le> 70 then Some (code c - 55)
      else None)"

text \<open>A group of hex digits: its value, its length and the text after it.\<close>

fun hex_scan :: "string \<Rightarrow> int \<Rightarrow> nat \<Rightarrow> (int \<times> nat \<times> string) option" where
  "hex_scan [] acc off = Some (acc, off, [])"
| "hex_scan (c # cs) acc off =
     (case hex_val c of
        None \<Rightarrow> Some (acc, off, c # cs)
      | Some d \<Rightarrow>
          if 3 < off then None
          else if 65535 < acc * 16 + d then None
          else hex_scan cs (acc * 16 + d) (off + 1))"

lemma hex_scan_length:
  "hex_scan s acc off = Some (a, n, rest) \<Longrightarrow> off \<le> n \<and> length rest + (n - off) = length s"
proof (induction s acc off rule: hex_scan.induct)
  case (1 acc off)
  then show ?case by simp
next
  case (2 c cs acc off)
  show ?case
  proof (cases "hex_val c")
    case None
    with 2 show ?thesis by simp
  next
    case (Some d)
    with 2 have "off + 1 \<le> n \<and> length rest + (n - (off + 1)) = length cs"
      by (simp split: if_splits)
    then show ?thesis by (simp only: list.size) arith
  qed
qed

text \<open>
  The loop of \<open>parseIPv6\<close>. Its state is the text left, the bytes stored so far and the
  position of the ellipsis; one pass over the body fails, leaves the loop or goes on.
\<close>

type_synonym v6_state = "string \<times> int list \<times> nat option"

datatype v6_pass = Bad | Leave v6_state | Again v6_state

fun ipv6_body :: "v6_state \<Rightarrow> v6_pass" where
  "ipv6_body (s, ip, ell) =
     (case hex_scan s 0 0 of
        None \<Rightarrow> Bad
      | Some (acc, off, rest) \<Rightarrow>
          if off = 0 then Bad
          else if rest \<noteq> [] \<and> hd rest = CHR ''.'' then
            if ell = None \<and> length ip \<noteq> 12 then Bad
            else if 16 < length ip + 4 then Bad
            else (case parseIPv4Fields s of None \<Rightarrow> Bad | Some f \<Rightarrow> Leave ([], ip @ f, ell))
          else
            let ip' = ip @ [acc div 256, acc mod 256] in
            case rest of
              [] \<Rightarrow> Leave ([], ip', ell)
            | c # t \<Rightarrow>
                if c \<noteq> CHR '':'' then Bad
                else if t = [] then Bad
                else if hd t = CHR '':'' then
                  if ell \<noteq> None then Bad
                  else if tl t = [] then Leave ([], ip', Some (length ip'))
                  else Again (tl t, ip', Some (length ip'))
                else Again (t, ip', ell))"

lemma ipv6_body_shorter: "ipv6_body (s, ip, ell) = Again (t, ip', ell') \<Longrightarrow> length t < length s"
  by (auto simp: Let_def neq_Nil_conv dest!: hex_scan_length
      split: option.splits if_splits list.splits)

function ipv6_loop :: "v6_state \<Rightarrow> v6_state option" where
  "ipv6_loop st =
     (if 16 \<le> length (fst (snd st)) then Some st
      else case ipv6_body st of
        Bad \<Rightarrow> None
      | Leave st' \<Rightarrow> Some st'
      | Again st' \<Rightarrow> ipv6_loop st')"
  by pat_completeness auto
termination
  by (relation "measure (\<lambda>(s, ip, ell). length s)") (auto intro: ipv6_body_shorter)

declare ipv6_body.simps [simp del] ipv6_loop.simps [simp del]

definition expand_ellipsis :: "v6_state \<Rightarrow> ip option" where
  "expand_ellipsis r =
     (case r of (s, ip, ell) \<Rightarrow>
        if s \<noteq> [] then None
        else if length ip < 16 then
          case ell of
            None \<Rightarrow> None
          | Some e \<Rightarrow> Some (take e ip @ replicate (16 - length ip) 0 @ drop e ip)
        else if ell \<noteq> None then None
        else Some ip)"

definition parseIPv6 :: "string \<Rightarrow> ip option" where
  "parseIPv6 s =
     (if HasPrefix s ''::'' then
        if length s = 2 then Some (replicate 16 0)
        else Option.bind (ipv6_loop (drop 2 s, [], Some 0)) expand_ellipsis
      else Option.bind (ipv6_loop (s, [], None)) expand_ellipsis)"

text \<open>
  \<open>net.ParseIP\<close>: the first of dot, colon and percent decides the family. A percent sign starts
  an IPv6 zone, which \<open>ParseIP\<close> never accepts.
\<close>

definition v4_in_v6 :: "int list \<Rightarrow> ip" where
  "v4_in_v6 fields = replicate 10 0 @ [255, 255] @ fields"

definition ParseIP :: "string \<Rightarrow> ip option" where
  "ParseIP s =
     (case find (\<lambda>c. c = CHR ''.'' \<or> c = CHR '':'' \<or> c = CHR ''%'') s of
        None \<Rightarrow> None
      | Some c \<Rightarrow>
          if c = CHR ''.'' then map_option v4_in_v6 (parseIPv4Fields s)
          else if c = CHR '':'' then
            if CHR ''%'' \<in> set s then None else parseIPv6 s
          else None)"

definition To4 :: "ip \<Rightarrow> int list option" where
  "To4 ip =
     (if length ip = 4 then Some ip
      else if length ip = 16 \<and> take 10 ip = replicate 10 0 \<and> ip ! 10 = 255 \<and> ip ! 11 = 255
      then Some (drop 12 ip)
      else None)"

lemma To4_v4_in_v6 [simp]: "length f = 4 \<Longrightarrow> To4 (v4_in_v6 f) = Some f"
  by (simp add: To4_def v4_in_v6_def nth_append eval_nat_numeral)

lemma ipv4_loop_length:
  "ipv4_loop s sep val n fs = Some f \<Longrightarrow> length fs \<le> 3 \<Longrightarrow> length f = 4"
  by (induction s sep val n fs rule: ipv4_loop.induct) (auto split: if_splits)

lemma parseIPv4Fields_length: "parseIPv4Fields s = Some f \<Longrightarrow> length f = 4"
  by (auto simp: parseIPv4Fields_def dest: ipv4_loop_length)

text \<open>Between passes the bytes stored are an even number, at most 16, and the ellipsis is a
  position among them.\<close>

fun v6_ok :: "v6_state \<Rightarrow> bool" where
  "v6_ok (s, ip, ell) \<longleftrightarrow> even (length ip) \<and> length ip \<le> 16 \<and> (\<forall>e. ell = Some e \<longrightarrow> e \<le> length ip)"

lemma ipv6_body_ok:
  assumes "v6_ok (s, ip, ell)" and "length ip < 16"
  shows "case ipv6_body (s, ip, ell) of Bad \<Rightarrow> True | Leave st \<Rightarrow> v6_ok st | Again st \<Rightarrow> v6_ok st"
proof -
  from assms have "length ip \<le> 14" "even (length ip)" "\<And>e. ell = Some e \<Longrightarrow> e \<le> length ip"
    by (auto elim!: evenE)
  then show ?thesis
    by (fastforce simp: ipv6_body.simps Let_def dest: parseIPv4Fields_length
        split: option.splits list.splits)
qed

lemma ipv6_loop_ok: "v6_ok st \<Longrightarrow> ipv6_loop st = Some st' \<Longrightarrow> v6_ok st'"
proof (induction st rule: ipv6_loop.induct)
  case (1 st)
  obtain s ip ell where st: "st = (s, ip, ell)" by (cases st) auto
  show ?case
  proof (cases "16 \<le> length ip")
    case True
    with "1.prems"(2) st have "st' = st" by (simp add: ipv6_loop.simps[of "(s, ip, ell)"])
    with "1.prems"(1) show ?thesis by simp
  next
    case False
    with 1 st ipv6_body_ok[of s ip ell] show ?thesis
      by (cases "ipv6_body st") (auto simp: ipv6_loop.simps[of "(s, ip, ell)"])
  qed
qed

lemma ParseIP_length: "ParseIP s = Some ip \<Longrightarrow> length ip = 16"
proof -
  have loop: "length ip = 16"
    if "v6_ok st" "Option.bind (ipv6_loop st) expand_ellipsis = Some ip" for st ip
  proof -
    from that(2) obtain st' where "ipv6_loop st = Some st'" "expand_ellipsis st' = Some ip"
      by (auto simp: bind_eq_Some_conv)
    with ipv6_loop_ok[OF that(1)] show ?thesis
      by (cases st') (auto simp: expand_ellipsis_def split: if_splits option.splits)
  qed
  have start: "v6_ok (t, [], Some 0)" "v6_ok (t, [], None)" for t by simp_all
  assume "ParseIP s = Some ip"
  then show ?thesis
    by (auto simp: ParseIP_def parseIPv6_def v4_in_v6_def dest: parseIPv4Fields_length
        loop[OF start(1)] loop[OF start(2)] split: option.splits if_splits)
qed

lemma To4_length: "To4 ip = Some f \<Longrightarrow> length f = 4"
  by (auto simp: To4_def split: if_splits)

section \<open>Dotted text\<close>

definition dotted :: "int \<Rightarrow> int \<Rightarrow> int \<Rightarrow> int \<Rightarrow> string" where
  "dotted a b c d =
     FormatUint a @ ''.'' @ FormatUint b @ ''.'' @ FormatUint c @ ''.'' @ FormatUint d"

lemma dot_not_digit [simp]: "\<not> is_digit CHR ''.''"
  by (simp add: is_digit_def code_def)

lemma ipv4_loop_octet:
  assumes "0 \<le> n" "n \<le> 255"
  shows "\<exists>k. ipv4_loop (FormatUint n @ cs) True 0 0 fs = ipv4_loop cs False n k fs"
proof -
  consider "n < 10" | "10 \<le> n" "n < 100" | "100 \<le> n" by linarith
  then show ?thesis
  proof cases
    case 1
    then show ?thesis using assms by (auto simp: FormatUint.simps[of n])
  next
    case 2
    then have "n div 10 < 10" "n div 10 \<noteq> 0" "n div 10 * 10 + n mod 10 = n" by auto
    with 2 assms show ?thesis
      by (auto simp: FormatUint.simps[of n] FormatUint.simps[of "n div 10"])
  next
    case 3
    then have "\<not> n div 10 < 10" "n div 10 div 10 < 10" "n div 10 div 10 \<noteq> 0"
      "n div 10 div 10 * 10 + n div 10 mod 10 = n div 10" "n div 10 * 10 + n mod 10 = n"
      "n div 10 \<le> 255" "n div 10 div 10 \<le> 255"
      using assms by auto
    with 3 assms show ?thesis
      by (auto simp: FormatUint.simps[of n] FormatUint.simps[of "n div 10"]
          FormatUint.simps[of "n div 10 div 10"])
  qed
qed

lemma ipv4_loop_dot:
  "cs \<noteq> [] \<Longrightarrow> length fs < 3 \<Longrightarrow>
     ipv4_loop (CHR ''.'' # cs) False n k fs = ipv4_loop cs True 0 0 (fs @ [n])"
  by simp

lemma parseIPv4Fields_dotted:
  assumes "0 \<le> a" "a \<le> 255" "0 \<le> b" "b \<le> 255" "0 \<le> c" "c \<le> 255" "0 \<le> d" "d \<le> 255"
  shows "parseIPv4Fields (dotted a b c d) = Some [a, b, c, d]"
proof -
  have octet: "ipv4_loop (FormatUint n @ CHR ''.'' # cs) True 0 0 fs =
      ipv4_loop cs True 0 0 (fs @ [n])" if "0 \<le> n" "n \<le> 255" "cs \<noteq> []" "length fs < 3" for n cs fs
    using ipv4_loop_octet[OF that(1,2), of "CHR ''.'' # cs" fs] ipv4_loop_dot[OF that(3,4)] by metis
  have last: "ipv4_loop (FormatUint d) True 0 0 [a, b, c] = Some [a, b, c, d]"
    using ipv4_loop_octet[OF assms(7,8), of "[]" "[a, b, c]"] by auto
  show ?thesis
    using FormatUint_spec[of b] FormatUint_spec[of c] FormatUint_spec[of d] assms
    by (simp add: parseIPv4Fields_def dotted_def octet last)
qed

lemma find_dot_dotted:
  "0 \<le> a \<Longrightarrow> find (\<lambda>c. c = CHR ''.'' \<or> c = CHR '':'' \<or> c = CHR ''%'') (dotted a b c d) = Some CHR ''.''"
proof -
  have "find (\<lambda>c. c = CHR ''.'' \<or> c = CHR '':'' \<or> c = CHR ''%'') (ds @ CHR ''.'' # t) =
      Some CHR ''.''" if "list_all is_digit ds" for ds t
    using that by (induction ds) (auto simp: is_digit_def code_def)
  with FormatUint_spec[of a] show "0 \<le> a \<Longrightarrow> ?thesis" by (simp add: dotted_def)
qed

lemma ParseIP_dotted:
  assumes "0 \<le> a" "a \<le> 255" "0 \<le> b" "b \<le> 255" "0 \<le> c" "c \<le> 255" "0 \<le> d" "d \<le> 255"
  shows "ParseIP (dotted a b c d) = Some (v4_in_v6 [a, b, c, d])"
  using assms by (simp add: ParseIP_def find_dot_dotted parseIPv4Fields_dotted)

section \<open>Host and port\<close>

definition SplitHostPort :: "string \<Rightarrow> (string \<times> string) result" where
  "SplitHostPort hp =
     (case LastIndexByte hp CHR '':'' of
        None \<Rightarrow> Inl ''missing port in address''
      | Some i \<Rightarrow>
          let tail = (\<lambda>host j k.
                if CHR ''['' \<in> set (drop j hp) then Inl ''unexpected '[' in address''
                else if CHR '']'' \<in> set (drop k hp) then Inl ''unexpected ']' in address''
                else Inr (host, drop (i + 1) hp))
          in if hd hp = CHR ''['' then
               case IndexByte hp CHR '']'' of
                 None \<Rightarrow> Inl ''missing ']' in address''
               | Some e \<Rightarrow>
                   if e + 1 = length hp then Inl ''missing port in address''
                   else if e + 1 = i then tail (drop 1 (take e hp)) 1 (e + 1)
                   else if hp ! (e + 1) = CHR '':'' then Inl ''too many colons in address''
                   else Inl ''missing port in address''
             else if CHR '':'' \<in> set (take i hp) then Inl ''too many colons in address''
             else tail (take i hp) 0 0)"

definition JoinHostPort :: "string \<Rightarrow> string \<Rightarrow> string" where
  "JoinHostPort host port =
     (if CHR '':'' \<in> set host then ''['' @ host @ '']:'' @ port else host @ '':'' @ port)"

lemma SplitHostPort_JoinHostPort:
  assumes "CHR ''['' \<notin> set host" "CHR '']'' \<notin> set host"
    and "CHR '':'' \<notin> set port" "CHR ''['' \<notin> set port" "CHR '']'' \<notin> set port"
  shows "SplitHostPort (JoinHostPort host port) = Inr (host, port)"
proof (cases "CHR '':'' \<in> set host")
  case True
  let ?hp = "(CHR ''['' # host @ [CHR '']'']) @ CHR '':'' # port"
  have last: "LastIndexByte ?hp CHR '':'' = Some (length host + 2)"
    using LastIndexByte_last[OF assms(3), of "CHR ''['' # host @ [CHR '']'']"] by simp
  have first: "IndexByte ?hp CHR '']'' = Some (length host + 1)"
    using IndexByte_first[of "CHR '']''" "CHR ''['' # host" "CHR '':'' # port"] assms(2) by simp
  have "JoinHostPort host port = ?hp" using True by (simp add: JoinHostPort_def)
  with last first assms show ?thesis by (simp add: SplitHostPort_def Let_def)
next
  case False
  have last: "LastIndexByte (host @ CHR '':'' # port) CHR '':'' = Some (length host)"
    using LastIndexByte_last[OF assms(3)] .
  have "hd (host @ CHR '':'' # port) \<noteq> CHR ''[''"
    using assms(1) by (cases host) auto
  moreover have "JoinHostPort host port = host @ CHR '':'' # port"
    using False by (simp add: JoinHostPort_def)
  ultimately show ?thesis using last False assms by (simp add: SplitHostPort_def Let_def)
qed

end
