(* ===== verification/DnsMsg.thy ===== *)
theory DnsMsg
  imports GoNet
begin

text \<open>
  The DNS messages the program reads and builds, and the functions of \<open>github.com/miekg/dns\<close> it
  calls. The package is a dependency outside the repository: its functions are the record
  \<open>dns_lib\<close>, a parameter of the resolver and of the DoH handlers, and \<open>dns_lib_ok\<close> states the
  documented behaviour that the proofs use.
\<close>

type_synonym uint16 = "16 word"

definition TypeA :: uint16 where "TypeA = 1"
definition TypeCNAME :: uint16 where "TypeCNAME = 5"
definition TypeTXT :: uint16 where "TypeTXT = 16"
definition TypeAAAA :: uint16 where "TypeAAAA = 28"
definition TypeANY :: uint16 where "TypeANY = 255"
definition ClassINET :: uint16 where "ClassINET = 1"

definition RcodeSuccess :: int where "RcodeSuccess = 0"
definition RcodeFormatError :: int where "RcodeFormatError = 1"
definition RcodeServerFailure :: int where "RcodeServerFailure = 2"
definition RcodeNameError :: int where "RcodeNameError = 3"

lemmas type_defs = TypeA_def TypeCNAME_def TypeTXT_def TypeAAAA_def TypeANY_def
lemmas rcode_defs = RcodeSuccess_def RcodeFormatError_def RcodeServerFailure_def RcodeNameError_def

record question =
  q_Name :: string
  q_Qtype :: uint16
  q_Qclass :: uint16

record rr_header =
  rh_Name :: string
  rh_Rrtype :: uint16
  rh_Class :: uint16
  rh_Ttl :: uint32

text \<open>The records the program builds itself; any other record is kept as its header and wire data.\<close>

datatype rr =
    A rr_header "int list"
  | AAAA rr_header ip
  | TXT rr_header "string list"
  | CNAME rr_header string
  | OtherRR rr_header bytes

fun rr_hdr :: "rr \<Rightarrow> rr_header" where
  "rr_hdr (A h _) = h"
| "rr_hdr (AAAA h _) = h"
| "rr_hdr (TXT h _) = h"
| "rr_hdr (CNAME h _) = h"
| "rr_hdr (OtherRR h _) = h"

record msg =
  m_Id :: uint16
  m_Response :: bool
  m_Opcode :: int
  m_Authoritative :: bool
  m_Truncated :: bool
  m_RecursionDesired :: bool
  m_RecursionAvailable :: bool
  m_Rcode :: int
  m_Question :: "question list"
  m_Answer :: "rr list"
  m_Ns :: "rr list"
  m_Extra :: "rr list"

text \<open>\<open>SetReply\<close> and \<open>SetQuestion\<close> applied to a new message, \<open>Fqdn\<close>, the table \<open>StringToType\<close>
  (0 for a missing key), \<open>Pack\<close> and \<open>Unpack\<close>.\<close>

record dns_lib =
  lib_SetReply :: "msg \<Rightarrow> msg"
  lib_SetQuestion :: "string \<Rightarrow> uint16 \<Rightarrow> msg"
  lib_Fqdn :: "string \<Rightarrow> string"
  lib_StringToType :: "string \<Rightarrow> uint16"
  lib_Pack :: "msg \<Rightarrow> bytes result"
  lib_Unpack :: "bytes \<Rightarrow> msg result"

definition set_reply_ok :: "(msg \<Rightarrow> msg) \<Rightarrow> bool" where
  "set_reply_ok f \<longleftrightarrow>
     (\<forall>r. m_Id (f r) = m_Id r \<and> m_Response (f r) \<and> m_Rcode (f r) = RcodeSuccess \<and>
          m_Question (f r) = take 1 (m_Question r) \<and> m_Answer (f r) = [])"

definition set_question_ok :: "(string \<Rightarrow> uint16 \<Rightarrow> msg) \<Rightarrow> bool" where
  "set_question_ok f \<longleftrightarrow>
     (\<forall>n t. m_Question (f n t) = [\<lparr>q_Name = n, q_Qtype = t, q_Qclass = ClassINET\<rparr>])"

definition dns_lib_ok :: "dns_lib \<Rightarrow> bool" where
  "dns_lib_ok L \<longleftrightarrow> set_reply_ok (lib_SetReply L) \<and> set_question_ok (lib_SetQuestion L)"

lemma SetReply_simps:
  assumes "dns_lib_ok L"
  shows "m_Id (lib_SetReply L r) = m_Id r" "m_Response (lib_SetReply L r)"
    "m_Rcode (lib_SetReply L r) = RcodeSuccess" "m_Question (lib_SetReply L r) = take 1 (m_Question r)"
    "m_Answer (lib_SetReply L r) = []"
  using assms by (simp_all add: dns_lib_ok_def set_reply_ok_def)

text \<open>An instance for the witnesses; its wire format is the text of the first name asked for.\<close>

definition blank_msg :: msg where
  "blank_msg =
     \<lparr>m_Id = 0, m_Response = False, m_Opcode = 0, m_Authoritative = False, m_Truncated = False,
      m_RecursionDesired = False, m_RecursionAvailable = False, m_Rcode = 0,
      m_Question = [], m_Answer = [], m_Ns = [], m_Extra = []\<rparr>"

definition query_msg :: "string \<Rightarrow> uint16 \<Rightarrow> msg" where
  "query_msg n t =
     blank_msg\<lparr>m_Id := 4660, m_RecursionDesired := True,
               m_Question := [\<lparr>q_Name = n, q_Qtype = t, q_Qclass = ClassINET\<rparr>]\<rparr>"

definition example_lib :: dns_lib where
  "example_lib =
     \<lparr>lib_SetReply = (\<lambda>r. blank_msg\<lparr>m_Id := m_Id r, m_Response := True, m_Opcode := m_Opcode r,
                           m_RecursionDesired := m_RecursionDesired r,
                           m_Question := take 1 (m_Question r)\<rparr>),
      lib_SetQuestion = query_msg,
      lib_Fqdn = (\<lambda>s. if HasSuffix s ''.'' then s else s @ ''.''),
      lib_StringToType = (\<lambda>s. if s = ''A'' then 1 else if s = ''AAAA'' then 28 else 0),
      lib_Pack = (\<lambda>m. case m_Question m of [] \<Rightarrow> Inr [] | q # _ \<Rightarrow> Inr (q_Name q)),
      lib_Unpack = (\<lambda>b. if b = [] then Inl ''dns: overflow unpacking uint16'' else Inr (query_msg b 1))\<rparr>"

lemma example_lib_ok [simp]: "dns_lib_ok example_lib"
  by (simp add: dns_lib_ok_def example_lib_def set_reply_ok_def set_question_ok_def query_msg_def
      blank_msg_def RcodeSuccess_def)

end
