(* ===== verification/Upstream.thy ===== *)
theory Upstream
  imports DnsMsg
begin

text \<open>
  \<open>internal/dns/upstream.go\<close>: one query to an upstream server, over UDP with a fallback to TCP
  or over HTTPS, by the form of its address. The network is the record \<open>net_env\<close>: what the
  \<open>n\<close>-th exchange of the process returns. A Go pair of a pointer and an error is a pair of
  options. The counters are 64-bit words.
\<close>

text \<open>The reply to an HTTP request: a status and the reading of the body.\<close>

record net_env =
  ne_exchange :: "nat \<Rightarrow> string \<Rightarrow> msg \<Rightarrow> string \<Rightarrow> msg option \<times> go_error option"
  ne_new_request :: "string \<Rightarrow> go_error option"
  ne_post :: "nat \<Rightarrow> string \<Rightarrow> bytes \<Rightarrow> (int \<times> bytes result) result"

type_synonym reply = "msg option \<times> go_error option"

definition min_int :: "int \<Rightarrow> int \<Rightarrow> int" where
  "min_int a b = (if a < b then a else b)"

definition httpErr_Error :: "bytes \<Rightarrow> go_error" where
  "httpErr_Error body = ''DoH HTTP '' @ take (nat (min_int 40 (int (length body)))) body"

text \<open>The second component of the results is the number of network calls so far.\<close>

definition dohQuery :: "dns_lib \<Rightarrow> net_env \<Rightarrow> string \<Rightarrow> msg \<Rightarrow> nat \<Rightarrow> reply \<times> nat" where
  "dohQuery L N url req n =
     (case lib_Pack L req of
        Inl e \<Rightarrow> ((None, Some e), n)
      | Inr packed \<Rightarrow>
          (case ne_new_request N url of
             Some e \<Rightarrow> ((None, Some e), n)
           | None \<Rightarrow>
               (case ne_post N n url packed of
                  Inl e \<Rightarrow> ((None, Some e), n + 1)
                | Inr (status, body') \<Rightarrow>
                    (case body' of
                       Inl e \<Rightarrow> ((None, Some e), n + 1)
                     | Inr body \<Rightarrow>
                         if status \<noteq> 200 then ((None, Some (httpErr_Error body)), n + 1)
                         else
                           (case lib_Unpack L body of
                              Inl e \<Rightarrow> ((None, Some e), n + 1)
                            | Inr m \<Rightarrow> ((Some m, None), n + 1))))))"

definition dial_addr :: "string \<Rightarrow> string" where
  "dial_addr addr = (case SplitHostPort addr of Inl _ \<Rightarrow> JoinHostPort addr ''53'' | Inr _ \<Rightarrow> addr)"

text \<open>When both exchanges fail, the error is the one of the first, which may be nil.\<close>

definition stdDNSQuery :: "net_env \<Rightarrow> string \<Rightarrow> msg \<Rightarrow> nat \<Rightarrow> reply \<times> nat" where
  "stdDNSQuery N addr0 req n =
     (let addr = dial_addr addr0 in
      case ne_exchange N n ''udp'' req addr of
        (r, err) \<Rightarrow>
          if err = None \<and> r \<noteq> None then ((r, None), n + 1)
          else
            (case ne_exchange N (n + 1) ''tcp'' req addr of
               (resp, err2) \<Rightarrow>
                 if err2 \<noteq> None then ((None, err), n + 2)
                 else ((resp, None), n + 2)))"

definition UpstreamQuery_Query :: "dns_lib \<Rightarrow> net_env \<Rightarrow> string \<Rightarrow> msg \<Rightarrow> nat \<Rightarrow> reply \<times> nat" where
  "UpstreamQuery_Query L N url req n =
     (if HasPrefix url ''https://'' \<or> HasPrefix url ''http://'' then dohQuery L N url req n
      else stdDNSQuery N url req n)"

record forward_counter =
  fc_n :: int64

definition Incr :: "forward_counter \<Rightarrow> forward_counter" where
  "Incr f = f\<lparr>fc_n := fc_n f + 1\<rparr>"

definition Get :: "forward_counter \<Rightarrow> int64" where
  "Get f = fc_n f"

text \<open>The documented contract of an exchange: a message or an error.\<close>

definition exchange_ok :: "net_env \<Rightarrow> bool" where
  "exchange_ok N \<longleftrightarrow> (\<forall>n net m addr. ne_exchange N n net m addr \<noteq> (None, None))"

section \<open>What a query returns\<close>

lemma httpErr_length: "length (httpErr_Error body) \<le> 49"
  by (simp add: httpErr_Error_def min_int_def)

lemma dohQuery_exclusive:
  "(fst (fst (dohQuery L N url req n)) = None) = (snd (fst (dohQuery L N url req n)) \<noteq> None)"
  by (simp add: dohQuery_def split: sum.split option.split prod.split)

lemma stdDNSQuery_exclusive:
  assumes "exchange_ok N" and "fst (stdDNSQuery N addr req n) = (r, e)"
  shows "(r = None) = (e \<noteq> None)"
proof -
  have ok: "ne_exchange N n' net m a \<noteq> (None, None)" for n' net m a
    using assms(1) by (simp add: exchange_ok_def)
  show ?thesis
    using assms(2) ok[of n "''udp''" req "dial_addr addr"] ok[of "n + 1" "''tcp''" req "dial_addr addr"]
    by (auto simp: stdDNSQuery_def Let_def split: prod.splits if_splits)
qed

lemma Query_exclusive:
  "exchange_ok N \<Longrightarrow>
     (fst (fst (UpstreamQuery_Query L N url req n)) = None) = (snd (fst (UpstreamQuery_Query L N url req n)) \<noteq> None)"
  using dohQuery_exclusive[of L N url req n]
    stdDNSQuery_exclusive[of N url req n "fst (fst (stdDNSQuery N url req n))" "snd (fst (stdDNSQuery N url req n))"]
  by (simp add: UpstreamQuery_Query_def)

text \<open>A query uses the network at most twice.\<close>

lemma Query_calls: "n \<le> snd (UpstreamQuery_Query L N url req n) \<and> snd (UpstreamQuery_Query L N url req n) \<le> n + 2"
  by (auto simp: UpstreamQuery_Query_def dohQuery_def stdDNSQuery_def Let_def
      split: sum.split option.split prod.split)

text \<open>An upstream query answers a message or an error, never neither and never both, when every
  exchange answers one of them, and it uses the network at most twice.\<close>

theorem Query_total:
  assumes "exchange_ok N"
  shows "(fst (fst (UpstreamQuery_Query L N url req n)) = None) = (snd (fst (UpstreamQuery_Query L N url req n)) \<noteq> None) \<and>
    snd (UpstreamQuery_Query L N url req n) \<le> n + 2"
  using Query_exclusive[OF assms] Query_calls by blast

lemma LastIndexByte_split:
  "c \<in> set s \<Longrightarrow> \<exists>xs ys. s = xs @ c # ys \<and> c \<notin> set ys \<and> LastIndexByte s c = Some (length xs)"
  using split_list_last[of c s] LastIndexByte_last by fastforce

lemma dial_no_port:
  assumes "CHR ''['' \<notin> set host" and "CountByte host CHR '':'' \<noteq> 1"
  shows "dial_addr host = JoinHostPort host ''53''"
proof (cases "CHR '':'' \<in> set host")
  case False
  with LastIndexByte_None[of host "CHR '':''"] show ?thesis
    by (simp add: dial_addr_def SplitHostPort_def)
next
  case True
  then obtain xs ys where s: "host = xs @ CHR '':'' # ys" "CHR '':'' \<notin> set ys"
    and last: "LastIndexByte host CHR '':'' = Some (length xs)"
    using LastIndexByte_split by blast
  have "CHR '':'' \<in> set xs"
    using assms(2) s by (auto simp: CountByte_def filter_empty_conv)
  moreover have "hd host \<noteq> CHR ''[''" using assms(1) True by (cases host) auto
  ultimately show ?thesis using last by (simp add: dial_addr_def SplitHostPort_def s(1))
qed

text \<open>An address with a port is dialled as it is, and a name, an IPv4 or a bare IPv6 address
  without a port gets port 53.\<close>

theorem dial_addr_port:
  assumes "CHR ''['' \<notin> set host" and "CHR '']'' \<notin> set host" and "CountByte host CHR '':'' \<noteq> 1"
    and "list_all is_digit port"
  shows "dial_addr (JoinHostPort host port) = JoinHostPort host port \<and>
    dial_addr host = JoinHostPort host ''53''"
proof -
  have "\<not> is_digit CHR '':''" "\<not> is_digit CHR ''[''" "\<not> is_digit CHR '']''" by (code_simp+)
  then have "CHR '':'' \<notin> set port" "CHR ''['' \<notin> set port" "CHR '']'' \<notin> set port"
    using assms(4) by (auto simp: list_all_iff)
  from SplitHostPort_JoinHostPort[OF assms(1,2) this] dial_no_port[OF assms(1,3)]
  show ?thesis by (simp add: dial_addr_def)
qed

text \<open>An IPv6 address in brackets without a port is dialled under an address that no resolver
  accepts, with the brackets doubled.\<close>

theorem dial_addr_bracketed:
  assumes "CHR '':'' \<in> set host" and "CHR '']'' \<notin> set host"
  shows "dial_addr (''['' @ host @ '']'') = ''[['' @ host @ '']]:53''"
proof -
  obtain xs ys where s: "host = xs @ CHR '':'' # ys" "CHR '':'' \<notin> set ys"
    using split_list_last[OF assms(1)] by blast
  have last: "LastIndexByte (''['' @ host @ '']'') CHR '':'' = Some (length xs + 1)"
    using LastIndexByte_last[of "CHR '':''" "ys @ '']''" "CHR ''['' # xs"] s by simp
  have first: "IndexByte (''['' @ host @ '']'') CHR '']'' = Some (length host + 1)"
    using IndexByte_first[of "CHR '']''" "CHR ''['' # host" "[]"] assms(2) by simp
  have "SplitHostPort (''['' @ host @ '']'') = Inl ''missing port in address''"
    using last first by (simp add: SplitHostPort_def)
  then show ?thesis using assms(1) by (simp add: dial_addr_def JoinHostPort_def)
qed

section \<open>A concrete network\<close>

text \<open>UDP is lost, TCP answers the question, and an HTTPS server answers 503.\<close>

definition example_net :: net_env where
  "example_net =
     \<lparr>ne_exchange = (\<lambda>n net m addr. if net = ''udp'' then (None, Some ''i/o timeout'')
         else (Some (m\<lparr>m_Response := True, m_RecursionAvailable := True\<rparr>), None)),
      ne_new_request = (\<lambda>url. None),
      ne_post = (\<lambda>n url body. Inr (503, Inr ''overloaded''))\<rparr>"

lemma example_net_ok [simp]: "exchange_ok example_net"
  by (simp add: exchange_ok_def example_net_def)

theorem Query_total_witness:
  "snd (UpstreamQuery_Query example_lib example_net ''8.8.8.8'' (query_msg ''a.'' 1) 5) \<le> 7"
  using Query_total[OF example_net_ok, of example_lib "''8.8.8.8''" "query_msg ''a.'' 1" 5] by simp

theorem dial_addr_port_witness:
  "dial_addr ''dns.lan:853'' = ''dns.lan:853'' \<and> dial_addr ''dns.lan'' = ''dns.lan:53''"
proof -
  have "list_all is_digit ''853''" "CountByte ''dns.lan'' CHR '':'' \<noteq> 1" by code_simp+
  with dial_addr_port[of "''dns.lan''" "''853''"] show ?thesis by (simp add: JoinHostPort_def)
qed

theorem dial_addr_bracketed_witness: "dial_addr ''[::1]'' = ''[[::1]]:53''"
  using dial_addr_bracketed[of "''::1''"] by simp

end
