(* ===== verification/Admin.thy ===== *)
theory Admin
  imports Reloader Http Config Upstream
begin

text \<open>
  The management server of \<open>cmd/dns-proxy/main.go\<close>: \<open>buildAdminMux\<close>, the authentication in front
  of every route, and the handlers, each with the whole of its control flow. The state is the
  store with the two caches, the notification channel and the two counters of the resolver.
  Decoding a JSON body and the embedded static files are parameters.
\<close>

section \<open>State\<close>

record admin =
  ad_rel :: reloader
  ad_notify :: notify
  ad_forward :: forward_counter
  ad_local :: forward_counter

record auth_request =
  au_OldUser :: string
  au_OldPassword :: string
  au_NewUser :: string
  au_NewPassword :: string

text \<open>What \<open>json.NewDecoder(r.Body).Decode\<close> makes of a body, for each type the handlers decode, and
  the files of \<open>web.Static\<close>.\<close>

record admin_env =
  en_sql :: sql_env
  en_RuleCreate :: "bytes \<times> go_error option \<Rightarrow> rule_create result"
  en_RuleUpdate :: "bytes \<times> go_error option \<Rightarrow> rule_update result"
  en_HostCreate :: "bytes \<times> go_error option \<Rightarrow> host_create result"
  en_HostUpdate :: "bytes \<times> go_error option \<Rightarrow> host_update result"
  en_Auth :: "bytes \<times> go_error option \<Rightarrow> auth_request result"
  en_Static :: "string \<Rightarrow> bytes result"

abbreviation ad_store :: "admin \<Rightarrow> db" where
  "ad_store a \<equiv> rd_store (ad_rel a)"

definition with_store :: "admin \<Rightarrow> db \<Rightarrow> admin" where
  "with_store a s = a\<lparr>ad_rel := (ad_rel a)\<lparr>rd_store := s\<rparr>\<rparr>"

lemma with_store_simps [simp]:
  "rd_store (ad_rel (with_store a s)) = s" "rd_cache (ad_rel (with_store a s)) = rd_cache (ad_rel a)"
  "rd_hosts (ad_rel (with_store a s)) = rd_hosts (ad_rel a)" "ad_notify (with_store a s) = ad_notify a"
  by (simp_all add: with_store_def)

section \<open>Authentication\<close>

datatype verdict = Admitted | Unauthorized | InternalError

text \<open>The checks of \<open>auth\<close>, over the two readers of the account.\<close>

definition check_credentials ::
  "('s \<Rightarrow> string result \<times> 's) \<Rightarrow> ('s \<Rightarrow> string result \<times> 's) \<Rightarrow> (string \<times> string) option \<Rightarrow> 's \<Rightarrow> verdict \<times> 's" where
  "check_credentials get_user get_pass cred s =
     (case cred of
        None \<Rightarrow> (Unauthorized, s)
      | Some (u, p) \<Rightarrow>
          (case get_user s of
             (Inl e, s1) \<Rightarrow> (InternalError, s1)
           | (Inr adminUser, s1) \<Rightarrow>
               (case get_pass s1 of
                  (Inl e, s2) \<Rightarrow> (InternalError, s2)
                | (Inr adminPass, s2) \<Rightarrow>
                    if ConstantTimeCompare u adminUser \<noteq> 1 \<or> ConstantTimeCompare p adminPass \<noteq> 1
                    then (Unauthorized, s2)
                    else (Admitted, s2))))"

definition unauthorized :: http_response where
  "unauthorized =
     \<lparr>rs_Status = 401,
      rs_Header = [(''Www-Authenticate'', ''Basic realm='' @ [CHR 0x22] @ ''dns-proxy'' @ [CHR 0x22]),
                   (''Content-Type'', text_plain), (''X-Content-Type-Options'', ''nosniff'')],
      rs_Body = Bytes (''unauthorized'' @ [CHR 0x0A])\<rparr>"

type_synonym handler = "http_request \<Rightarrow> admin \<Rightarrow> http_response \<times> admin"

definition auth :: "sql_env \<Rightarrow> handler \<Rightarrow> handler" where
  "auth E nxt rq a =
     (case check_credentials (GetAdminUser E) (GetAdminPass E) (BasicAuth rq) (ad_store a) of
        (Unauthorized, s) \<Rightarrow> (unauthorized, with_store a s)
      | (InternalError, s) \<Rightarrow> (http_Error ''internal error'' 500, with_store a s)
      | (Admitted, s) \<Rightarrow> nxt rq (with_store a s))"

section \<open>Handlers\<close>

definition not_allowed :: http_response where
  "not_allowed = http_Error ''method not allowed'' 405"

definition status_ok :: body where
  "status_ok = JsonText [(''status'', ''ok'')]"

text \<open>The end of every handler that changed something: reload, signal, answer.\<close>

definition reload_and_answer :: "sql_env \<Rightarrow> body \<Rightarrow> admin \<Rightarrow> http_response \<times> admin" where
  "reload_and_answer E b a =
     (case Reload E (ad_rel a) of
        (Inl e, R) \<Rightarrow> (http_Error e 500, a\<lparr>ad_rel := R\<rparr>)
      | (Inr _, R) \<Rightarrow> (json_response b, a\<lparr>ad_rel := R, ad_notify := Signal (ad_notify a)\<rparr>))"

definition reloadHandler :: "admin_env \<Rightarrow> handler" where
  "reloadHandler V rq a =
     (if rq_Method rq \<noteq> ''POST'' then (not_allowed, a)
      else reload_and_answer (en_sql V) status_ok a)"

definition rulesHandler :: "admin_env \<Rightarrow> handler" where
  "rulesHandler V rq a =
     (if rq_Method rq = ''GET'' then
        (case ListRules (en_sql V) (ad_store a) of
           (Inl e, s) \<Rightarrow> (http_Error e 500, with_store a s)
         | (Inr rs, s) \<Rightarrow> (json_response (JsonRules rs), with_store a s))
      else if rq_Method rq = ''POST'' then
        (case en_RuleCreate V (rq_Body rq) of
           Inl e \<Rightarrow> (http_Error e 400, a)
         | Inr c \<Rightarrow>
             if rc_Domain c = [] \<or> rc_Mode c = [] then (http_Error ''domain/mode required'' 400, a)
             else if rc_Domain c \<noteq> ''*'' \<and> rc_Mode c \<noteq> ''exact'' \<and> rc_Mode c \<noteq> ''suffix'' then
               (http_Error ''mode must be exact or suffix'' 400, a)
             else
               (case CreateRule (en_sql V) c (ad_store a) of
                  (Inl e, s) \<Rightarrow> (http_Error e 500, with_store a s)
                | (Inr rule, s) \<Rightarrow> reload_and_answer (en_sql V) (JsonRule rule) (with_store a s)))
      else (not_allowed, a))"

definition rules_prefix :: string where
  "rules_prefix = ''/api/rules/''"

definition hosts_prefix :: string where
  "hosts_prefix = ''/api/hosts/''"

definition ruleByIDHandler :: "admin_env \<Rightarrow> handler" where
  "ruleByIDHandler V rq a =
     (let trimmed = drop (length rules_prefix) (rq_Path rq) in
      if trimmed = [] then (http_Error ''id required'' 400, a)
      else
        (case ParseInt trimmed of
           None \<Rightarrow> (http_Error ''bad id'' 400, a)
         | Some i \<Rightarrow>
             if rq_Method rq = ''GET'' then
               (case GetRule (en_sql V) i (ad_store a) of
                  (Inl e, s) \<Rightarrow> (http_Error e 404, with_store a s)
                | (Inr rule, s) \<Rightarrow> (json_response (JsonRule rule), with_store a s))
             else if rq_Method rq = ''PUT'' \<or> rq_Method rq = ''PATCH'' then
               (case en_RuleUpdate V (rq_Body rq) of
                  Inl e \<Rightarrow> (http_Error e 400, a)
                | Inr u \<Rightarrow>
                    (case UpdateRule (en_sql V) i u (ad_store a) of
                       (Inl e, s) \<Rightarrow> (http_Error e 500, with_store a s)
                     | (Inr _, s) \<Rightarrow> reload_and_answer (en_sql V) status_ok (with_store a s)))
             else if rq_Method rq = ''DELETE'' then
               (case DeleteRule (en_sql V) i (ad_store a) of
                  (Inl e, s) \<Rightarrow> (http_Error e 500, with_store a s)
                | (Inr _, s) \<Rightarrow> reload_and_answer (en_sql V) status_ok (with_store a s))
             else (not_allowed, a)))"

definition hostsHandler :: "admin_env \<Rightarrow> handler" where
  "hostsHandler V rq a =
     (if rq_Method rq = ''GET'' then
        (case ListHosts (en_sql V) (ad_store a) of
           (Inl e, s) \<Rightarrow> (http_Error e 500, with_store a s)
         | (Inr hs, s) \<Rightarrow> (json_response (JsonHosts hs), with_store a s))
      else if rq_Method rq = ''POST'' then
        (case en_HostCreate V (rq_Body rq) of
           Inl e \<Rightarrow> (http_Error e 400, a)
         | Inr c \<Rightarrow>
             if hc_Domain c = [] \<or> hc_Value c = [] then (http_Error ''domain/value required'' 400, a)
             else
               (case CreateHost (en_sql V) c (ad_store a) of
                  (Inl e, s) \<Rightarrow> (http_Error e 500, with_store a s)
                | (Inr h, s) \<Rightarrow> reload_and_answer (en_sql V) (JsonHost h) (with_store a s)))
      else (not_allowed, a))"

definition hostByIDHandler :: "admin_env \<Rightarrow> handler" where
  "hostByIDHandler V rq a =
     (let trimmed = drop (length hosts_prefix) (rq_Path rq) in
      if trimmed = [] then (http_Error ''id required'' 400, a)
      else
        (case ParseInt trimmed of
           None \<Rightarrow> (http_Error ''bad id'' 400, a)
         | Some i \<Rightarrow>
             if rq_Method rq = ''GET'' then
               (case GetHost (en_sql V) i (ad_store a) of
                  (Inl e, s) \<Rightarrow> (http_Error e 404, with_store a s)
                | (Inr h, s) \<Rightarrow> (json_response (JsonHost h), with_store a s))
             else if rq_Method rq = ''PUT'' \<or> rq_Method rq = ''PATCH'' then
               (case en_HostUpdate V (rq_Body rq) of
                  Inl e \<Rightarrow> (http_Error e 400, a)
                | Inr u \<Rightarrow>
                    (case UpdateHost (en_sql V) i u (ad_store a) of
                       (Inl e, s) \<Rightarrow> (http_Error e 500, with_store a s)
                     | (Inr _, s) \<Rightarrow> reload_and_answer (en_sql V) status_ok (with_store a s)))
             else if rq_Method rq = ''DELETE'' then
               (case DeleteHost (en_sql V) i (ad_store a) of
                  (Inl e, s) \<Rightarrow> (http_Error e 500, with_store a s)
                | (Inr _, s) \<Rightarrow> reload_and_answer (en_sql V) status_ok (with_store a s))
             else (not_allowed, a)))"

definition configHandler :: "config \<Rightarrow> handler" where
  "configHandler cfg rq a =
     (if rq_Method rq \<noteq> ''GET'' then (not_allowed, a)
      else
        (json_response (JsonText
           [(''dns_addr'', cfg_DNSAddr cfg), (''dot_addr'', cfg_DoTAddr cfg),
            (''doh_addr'', cfg_DoHAddr cfg), (''http_addr'', cfg_HTTPAddr cfg),
            (''default_upstream'', cfg_DefaultUpstream cfg),
            (''cert_file'', cfg_CertFile cfg), (''key_file'', cfg_KeyFile cfg)]), a))"

definition authHandler :: "admin_env \<Rightarrow> handler" where
  "authHandler V rq a =
     (if rq_Method rq = ''PUT'' then
        (case en_Auth V (rq_Body rq) of
           Inl e \<Rightarrow> (http_Error e 400, a)
         | Inr req \<Rightarrow>
             if au_OldUser req = [] \<or> au_OldPassword req = [] \<or> au_NewUser req = [] \<or> au_NewPassword req = [] then
               (http_Error ''all fields required'' 400, a)
             else
               (case GetAdminUser (en_sql V) (ad_store a) of
                  (Inl e, s1) \<Rightarrow> (http_Error ''internal error'' 500, with_store a s1)
                | (Inr currentUser, s1) \<Rightarrow>
                    (case GetAdminPass (en_sql V) s1 of
                       (Inl e, s2) \<Rightarrow> (http_Error ''internal error'' 500, with_store a s2)
                     | (Inr currentPass, s2) \<Rightarrow>
                         if ConstantTimeCompare (au_OldUser req) currentUser \<noteq> 1 \<or>
                            ConstantTimeCompare (au_OldPassword req) currentPass \<noteq> 1 then
                           (http_Error ''old username or password incorrect'' 401, with_store a s2)
                         else
                           (case UpdateAdminAccount (en_sql V) (au_NewUser req) (au_NewPassword req) s2 of
                              (Inl e, s3) \<Rightarrow> (http_Error ''update failed'' 500, with_store a s3)
                            | (Inr _, s3) \<Rightarrow> (json_response status_ok, with_store a s3)))))
      else (not_allowed, a))"

definition statusHandler :: "config \<Rightarrow> handler" where
  "statusHandler cfg rq a =
     (if rq_Method rq \<noteq> ''GET'' then (not_allowed, a)
      else
        (json_response (JsonStatus
           [(''dns_addr'', cfg_DNSAddr cfg), (''dot_addr'', cfg_DoTAddr cfg),
            (''doh_addr'', cfg_DoHAddr cfg), (''http_addr'', cfg_HTTPAddr cfg),
            (''default_upstream'', cfg_DefaultUpstream cfg)]
           [(''rules_loaded'', int (Reloader_Count (ad_rel a))), (''hosts_loaded'', int (HostsCount (ad_rel a))),
            (''cache_hits'', sint (HitsCounter (Some (rd_cache (ad_rel a))))),
            (''cache_misses'', sint (MissesCounter (Some (rd_cache (ad_rel a))))),
            (''forwards'', sint (Get (ad_forward a))), (''local_hits'', sint (Get (ad_local a)))]), a))"

definition static_response :: "string \<Rightarrow> bytes \<Rightarrow> http_response" where
  "static_response ct data =
     \<lparr>rs_Status = 200, rs_Header = [(''Content-Type'', ct), (''Cache-Control'', ''no-cache'')], rs_Body = Bytes data\<rparr>"

definition serveIndex :: "admin_env \<Rightarrow> handler" where
  "serveIndex V rq a =
     (case en_Static V ''static/index.html'' of
        Inl e \<Rightarrow> (http_Error (''index.html missing: '' @ e) 500, a)
      | Inr data \<Rightarrow> (static_response ''text/html; charset=utf-8'' data, a))"

definition serveStaticFile :: "admin_env \<Rightarrow> string \<Rightarrow> handler" where
  "serveStaticFile V name rq a =
     (case en_Static V (''static/'' @ name) of
        Inl e \<Rightarrow> (http_Error (name @ '' missing: '' @ e) 500, a)
      | Inr data \<Rightarrow>
          let ct = (if name = ''app.js'' then ''application/javascript; charset=utf-8''
                    else if name = ''style.css'' then ''text/css; charset=utf-8''
                    else text_plain)
          in (static_response ct data, a))"

section \<open>Routes\<close>

datatype admin_route =
    Index | AppJs | StyleCss | Rules | RuleByID | RulesReload | Hosts | HostByID | ConfigPage | StatusPage | AuthPage

definition admin_routes :: "(string \<times> admin_route) list" where
  "admin_routes =
     [(''/'', Index), (''/app.js'', AppJs), (''/style.css'', StyleCss),
      (''/api/rules'', Rules), (''/api/rules/'', RuleByID), (''/api/rules/reload'', RulesReload),
      (''/api/hosts'', Hosts), (''/api/hosts/'', HostByID), (''/api/config'', ConfigPage),
      (''/api/status'', StatusPage), (''/api/auth'', AuthPage)]"

fun admin_handler :: "config \<Rightarrow> admin_env \<Rightarrow> admin_route \<Rightarrow> handler" where
  "admin_handler cfg V Index = serveIndex V"
| "admin_handler cfg V AppJs = serveStaticFile V ''app.js''"
| "admin_handler cfg V StyleCss = serveStaticFile V ''style.css''"
| "admin_handler cfg V Rules = rulesHandler V"
| "admin_handler cfg V RuleByID = ruleByIDHandler V"
| "admin_handler cfg V RulesReload = reloadHandler V"
| "admin_handler cfg V Hosts = hostsHandler V"
| "admin_handler cfg V HostByID = hostByIDHandler V"
| "admin_handler cfg V ConfigPage = configHandler cfg"
| "admin_handler cfg V StatusPage = statusHandler cfg"
| "admin_handler cfg V AuthPage = authHandler V"

definition buildAdminMux :: "config \<Rightarrow> admin_env \<Rightarrow> handler" where
  "buildAdminMux cfg V rq a =
     (case mux_dispatch admin_routes rq of
        Redirect p \<Rightarrow> (\<lparr>rs_Status = 301, rs_Header = [(''Location'', p)], rs_Body = Bytes []\<rparr>, a)
      | NoHandler \<Rightarrow> (NotFound, a)
      | Serve r \<Rightarrow> auth (en_sql V) (admin_handler cfg V r) rq a)"

end
