(* ===== verification/AdminProps.thy ===== *)
theory AdminProps
  imports Admin
begin

text \<open>
  What the management server guarantees: nobody without the stored credentials reads or changes
  anything, a request that is answered 200 leaves the caches coherent with the store, input is
  validated where it is, and a change of the password takes effect. The interface between the
  authentication and the store is the locale \<open>account_reader\<close>.
\<close>

section \<open>The interface of the account\<close>

locale account_reader =
  fixes same :: "'s \<Rightarrow> 's \<Rightarrow> bool"
    and get_user :: "'s \<Rightarrow> string result \<times> 's"
    and get_pass :: "'s \<Rightarrow> string result \<times> 's"
    and user :: "'s \<Rightarrow> string result"
    and pass :: "'s \<Rightarrow> string result"
  assumes same_refl: "same s s"
    and same_trans: "same s t \<Longrightarrow> same t r \<Longrightarrow> same s r"
    and same_pass: "same s t \<Longrightarrow> pass t = pass s"
    and get_user_same: "same s (snd (get_user s))"
    and get_pass_same: "same s (snd (get_pass s))"
    and get_user_value: "fst (get_user s) = Inr u \<Longrightarrow> user s = Inr u"
    and get_pass_value: "fst (get_pass s) = Inr p \<Longrightarrow> pass s = Inr p"
begin

lemma check_same: "same s (snd (check_credentials get_user get_pass cred s))"
proof (cases cred)
  case None
  then show ?thesis by (simp add: check_credentials_def same_refl)
next
  case (Some up)
  obtain u p where up: "up = (u, p)" by (cases up)
  obtain r1 s1 where 1: "get_user s = (r1, s1)" by (cases "get_user s")
  obtain r2 s2 where 2: "get_pass s1 = (r2, s2)" by (cases "get_pass s1")
  have "same s s1" "same s1 s2" using get_user_same[of s] get_pass_same[of s1] 1 2 by simp_all
  then show ?thesis
    using same_trans by (auto simp: check_credentials_def Some up 1 2 split: sum.split)
qed

lemma check_admitted:
  assumes "fst (check_credentials get_user get_pass cred s) = Admitted"
  shows "\<exists>u p. cred = Some (u, p) \<and> user s = Inr u \<and> pass s = Inr p"
proof -
  obtain u p where c: "cred = Some (u, p)"
    using assms by (cases cred) (auto simp: check_credentials_def)
  obtain r1 s1 where 1: "get_user s = (r1, s1)" by (cases "get_user s")
  obtain r2 s2 where 2: "get_pass s1 = (r2, s2)" by (cases "get_pass s1")
  from assms c 1 2 have "r1 = Inr u" "r2 = Inr p"
    by (auto simp: check_credentials_def split: sum.splits if_splits)
  moreover have "same s s1" using get_user_same[of s] 1 by simp
  ultimately show ?thesis
    using c 1 2 get_user_value[of s u] get_pass_value[of s1 p] same_pass by auto
qed

lemma check_right:
  assumes "get_user s = (Inr u, s1)" and "get_pass s1 = (Inr p, s2)"
  shows "check_credentials get_user get_pass (Some (u', p')) s =
    (if u' = u \<and> p' = p then Admitted else Unauthorized, s2)"
  using assms by (simp add: check_credentials_def)

end

interpretation account: account_reader same_tables "GetAdminUser E" "GetAdminPass E"
  "stored_value E adminUserKey" "stored_value E adminPassKey" for E :: sql_env
  by unfold_locales
    (auto simp: GetAdminUser_def GetAdminPass_def get_admin_value_unfold stored_value_def same_tables_def
      split: option.splits)

section \<open>Frames\<close>

definition unchanged :: "admin \<Rightarrow> admin \<Rightarrow> bool" where
  "unchanged a b \<longleftrightarrow>
     same_tables (ad_store a) (ad_store b) \<and> rd_cache (ad_rel b) = rd_cache (ad_rel a) \<and>
     rd_hosts (ad_rel b) = rd_hosts (ad_rel a) \<and> ad_notify b = ad_notify a"

lemma unchanged_refl [simp]: "unchanged a a"
  by (simp add: unchanged_def)

lemma unchanged_with_store: "same_tables (ad_store a) s \<Longrightarrow> unchanged a (with_store a s)"
  by (simp add: unchanged_def)

definition granted :: "sql_env \<Rightarrow> http_request \<Rightarrow> admin \<Rightarrow> bool" where
  "granted E rq a \<longleftrightarrow>
     (\<exists>u p. BasicAuth rq = Some (u, p) \<and> stored_value E adminUserKey (ad_store a) = Inr u \<and>
            stored_value E adminPassKey (ad_store a) = Inr p)"

lemma auth_cases:
  obtains (refused) "rs_Status (fst (auth E nxt rq a)) \<in> {401, 500}" "unchanged a (snd (auth E nxt rq a))"
  | (admitted) s where "auth E nxt rq a = nxt rq (with_store a s)" "same_tables (ad_store a) s" "granted E rq a"
proof (cases "check_credentials (GetAdminUser E) (GetAdminPass E) (BasicAuth rq) (ad_store a)")
  case (Pair v s)
  have same: "same_tables (ad_store a) s"
    using account.check_same[of "ad_store a" E "BasicAuth rq"] Pair by simp
  show ?thesis
  proof (cases v)
    case Admitted
    with Pair account.check_admitted[of E "BasicAuth rq" "ad_store a"] have "granted E rq a"
      by (simp add: granted_def)
    with Admitted Pair same that(2) show ?thesis by (simp add: auth_def)
  qed (use Pair same that(1) in \<open>simp_all add: auth_def unauthorized_def unchanged_with_store\<close>)
qed

section \<open>Coherence\<close>

lemma coherent_tables:
  assumes "domain_rules (rd_store S) = domain_rules (rd_store R)" and "host_records (rd_store S) = host_records (rd_store R)"
    and "rd_cache S = rd_cache R" and "rd_hosts S = rd_hosts R"
  shows "coherent E S = coherent E R"
proof -
  have "stored_rules E (rd_store S) = stored_rules E (rd_store R)" "stored_hosts E (rd_store S) = stored_hosts E (rd_store R)"
    using assms(1,2) by (simp_all add: stored_rules_def stored_hosts_def)
  then show ?thesis
    using assms(3,4) by (cases "rd_hosts R") (simp_all add: coherent_def rules_coherent_def hosts_coherent_def)
qed

lemma coherent_same:
  assumes "same_tables (ad_store a) s"
  shows "coherent E (ad_rel (with_store a s)) = coherent E (ad_rel a)"
  by (rule coherent_tables) (use assms in \<open>simp_all add: same_tables_def\<close>)

lemma store_ok_same: "store_ok E s \<Longrightarrow> same_tables s s' \<Longrightarrow> store_ok E s'"
  by (auto simp: store_ok_def intro: db_wf_same_tables)

lemma reload_answer_coherent:
  assumes "store_ok E (ad_store a)" and "rs_Status (fst (reload_and_answer E b a)) = 200"
  shows "coherent E (ad_rel (snd (reload_and_answer E b a)))"
proof (cases "Reload E (ad_rel a)")
  case (Pair r R)
  with assms(2) have "r = Inr ()" by (cases r) (auto simp: reload_and_answer_def)
  with Pair Reload_ok(1)[of E "ad_rel a" R] assms(1) show ?thesis by (simp add: reload_and_answer_def)
qed

text \<open>A handler keeps the caches coherent when it answers 200.\<close>

definition keeps_coherent :: "sql_env \<Rightarrow> handler \<Rightarrow> bool" where
  "keeps_coherent E h \<longleftrightarrow>
     (\<forall>rq a. store_ok E (ad_store a) \<longrightarrow> coherent E (ad_rel a) \<longrightarrow> rs_Status (fst (h rq a)) = 200 \<longrightarrow>
        coherent E (ad_rel (snd (h rq a))))"

lemma reload_after:
  assumes "store_ok E s" and "rs_Status (fst (reload_and_answer E b (with_store a s))) = 200"
  shows "coherent E (ad_rel (snd (reload_and_answer E b (with_store a s))))"
  using reload_answer_coherent[of E "with_store a s"] assms by simp

lemma store_ok_ops:
  assumes "store_ok E s"
  shows "CreateRule E c s = (r1, s1) \<Longrightarrow> store_ok E s1" "UpdateRule E i u s = (r1, s1) \<Longrightarrow> store_ok E s1"
    "DeleteRule E i s = (r2, s1) \<Longrightarrow> store_ok E s1" "CreateHost E hc s = (r3, s1) \<Longrightarrow> store_ok E s1"
    "UpdateHost E i hu s = (r3, s1) \<Longrightarrow> store_ok E s1" "DeleteHost E i s = (r2, s1) \<Longrightarrow> store_ok E s1"
  using assms db_wf_CreateRule[of s E c] db_wf_UpdateRule[of s E i u] db_wf_DeleteRule[of s E i]
    db_wf_CreateHost[of s E hc] db_wf_UpdateHost[of s E i hu] db_wf_DeleteHost[of s E i]
  by (auto simp: store_ok_def)

lemma read_coherent:
  "ListRules E (ad_store a) = (r1, s1) \<Longrightarrow> coherent E (ad_rel (with_store a s1)) = coherent E (ad_rel a)"
  "ListHosts E (ad_store a) = (r2, s1) \<Longrightarrow> coherent E (ad_rel (with_store a s1)) = coherent E (ad_rel a)"
  "GetRule E i (ad_store a) = (r3, s1) \<Longrightarrow> coherent E (ad_rel (with_store a s1)) = coherent E (ad_rel a)"
  "GetHost E i (ad_store a) = (r4, s1) \<Longrightarrow> coherent E (ad_rel (with_store a s1)) = coherent E (ad_rel a)"
  by (auto intro!: coherent_same dest!: read_state_eq)

lemma keeps_rules: "keeps_coherent (en_sql V) (rulesHandler V)"
  by (auto simp: keeps_coherent_def rulesHandler_def not_allowed_def read_coherent
      intro!: reload_after dest: store_ok_ops split: prod.splits sum.splits if_splits)

lemma keeps_hosts: "keeps_coherent (en_sql V) (hostsHandler V)"
  by (auto simp: keeps_coherent_def hostsHandler_def not_allowed_def read_coherent
      intro!: reload_after dest: store_ok_ops split: prod.splits sum.splits if_splits)

lemma keeps_ruleByID: "keeps_coherent (en_sql V) (ruleByIDHandler V)"
  by (auto simp: keeps_coherent_def ruleByIDHandler_def Let_def not_allowed_def read_coherent
      intro!: reload_after dest: store_ok_ops split: prod.splits sum.splits option.splits if_splits)

lemma keeps_hostByID: "keeps_coherent (en_sql V) (hostByIDHandler V)"
  by (auto simp: keeps_coherent_def hostByIDHandler_def Let_def not_allowed_def read_coherent
      intro!: reload_after dest: store_ok_ops split: prod.splits sum.splits option.splits if_splits)

lemma keeps_reload: "keeps_coherent (en_sql V) (reloadHandler V)"
  by (auto simp: keeps_coherent_def reloadHandler_def not_allowed_def intro: reload_answer_coherent
      split: if_splits)

lemma keeps_pages:
  "keeps_coherent E (configHandler cfg)" "keeps_coherent E (statusHandler cfg)"
  "keeps_coherent E (serveIndex V)" "keeps_coherent E (serveStaticFile V name)"
  by (auto simp: keeps_coherent_def configHandler_def statusHandler_def serveIndex_def serveStaticFile_def
      Let_def split: sum.splits if_splits)


lemma rules_of_account_ops:
  "GetAdminUser E s = (r, s1) \<Longrightarrow> same_tables s s1" "GetAdminPass E s = (r, s1) \<Longrightarrow> same_tables s s1"
  by (auto dest!: read_state_eq(5,6))

lemma rules_of_account_change:
  assumes "UpdateAdminAccount E u p s = (r, s1)"
  shows "domain_rules s1 = domain_rules s" and "host_records s1 = host_records s"
  using UpdateAdminAccount_ok[of E u p s s1] UpdateAdminAccount_error[of E u p s _ s1] assms
  by (cases r; auto simp: same_tables_def)+

text \<open>The branches of the handler of the account.\<close>

lemma authHandler_ok:
  assumes "rs_Status (fst (authHandler V rq a)) = 200"
  shows "\<exists>req s2 s3. en_Auth V (rq_Body rq) = Inr req \<and> same_tables (ad_store a) s2 \<and>
    stored_value (en_sql V) adminUserKey (ad_store a) = Inr (au_OldUser req) \<and>
    stored_value (en_sql V) adminPassKey (ad_store a) = Inr (au_OldPassword req) \<and>
    UpdateAdminAccount (en_sql V) (au_NewUser req) (au_NewPassword req) s2 = (Inr (), s3) \<and>
    snd (authHandler V rq a) = with_store a s3"
proof -
  let ?E = "en_sql V"
  from assms obtain req where m: "rq_Method rq = ''PUT''" and req: "en_Auth V (rq_Body rq) = Inr req"
    by (auto simp: authHandler_def not_allowed_def split: if_splits sum.splits)
  obtain r1 s1 where 1: "GetAdminUser ?E (ad_store a) = (r1, s1)" by (cases "GetAdminUser ?E (ad_store a)")
  obtain r2 s2 where 2: "GetAdminPass ?E s1 = (r2, s2)" by (cases "GetAdminPass ?E s1")
  obtain r3 s3 where 3: "UpdateAdminAccount ?E (au_NewUser req) (au_NewPassword req) s2 = (r3, s3)"
    by (cases "UpdateAdminAccount ?E (au_NewUser req) (au_NewPassword req) s2")
  from assms m req 1 2 3 have r: "r1 = Inr (au_OldUser req)" "r2 = Inr (au_OldPassword req)" "r3 = Inr ()"
    and s: "snd (authHandler V rq a) = with_store a s3"
    by (auto simp: authHandler_def split: if_splits sum.splits)
  have s1: "same_tables (ad_store a) s1" and s2: "same_tables s1 s2"
    by (rule rules_of_account_ops(1)[OF 1], rule rules_of_account_ops(2)[OF 2])
  have "stored_value ?E adminUserKey (ad_store a) = Inr (au_OldUser req)"
    by (rule account.get_user_value) (simp add: 1 r)
  moreover have "stored_value ?E adminPassKey s1 = Inr (au_OldPassword req)"
    by (rule account.get_pass_value) (simp add: 2 r)
  ultimately show ?thesis
    using req 3 r s same_tables_trans[OF s1 s2] account.same_pass[OF s1, of ?E] by auto
qed

lemma keeps_auth: "keeps_coherent (en_sql V) (authHandler V)"
  unfolding keeps_coherent_def
proof (intro allI impI)
  fix rq a
  assume c: "coherent (en_sql V) (ad_rel a)" and ok: "rs_Status (fst (authHandler V rq a)) = 200"
  from authHandler_ok[OF ok] obtain req :: auth_request and s2 s3
    where same: "same_tables (ad_store a) s2"
    and upd: "UpdateAdminAccount (en_sql V) (au_NewUser req) (au_NewPassword req) s2 = (Inr (), s3)"
    and s: "snd (authHandler V rq a) = with_store a s3" by blast
  have "coherent (en_sql V) (ad_rel (with_store a s3)) = coherent (en_sql V) (ad_rel a)"
    by (rule coherent_tables) (use same rules_of_account_change[OF upd] in \<open>simp_all add: same_tables_def\<close>)
  with c s show "coherent (en_sql V) (ad_rel (snd (authHandler V rq a)))" by simp
qed

lemma keeps_route: "keeps_coherent (en_sql V) (admin_handler cfg V r)"
  by (cases r) (simp_all add: keeps_rules keeps_hosts keeps_ruleByID keeps_hostByID keeps_reload keeps_pages keeps_auth)

section \<open>Properties\<close>

text \<open>What the authentication answers to other credentials than the stored ones, or to none.\<close>

lemma same_tables_count: "same_tables s (s\<lparr>stmt_count := n\<rparr>)"
  by simp

definition can_check :: "sql_env \<Rightarrow> db \<Rightarrow> bool" where
  "can_check E s \<longleftrightarrow>
     is_ok (fst (GetAdminUser E s)) \<and> is_ok (fst (GetAdminPass E (snd (GetAdminUser E s))))"

lemma auth_refused:
  assumes "\<not> granted E rq a"
  shows "fst (auth E nxt rq a) =
      (if BasicAuth rq = None \<or> can_check E (ad_store a) then unauthorized else http_Error ''internal error'' 500) \<and>
    (\<exists>n. snd (auth E nxt rq a) = with_store a ((ad_store a)\<lparr>stmt_count := n\<rparr>))"
proof (cases "BasicAuth rq")
  case None
  have "with_store a ((ad_store a)\<lparr>stmt_count := stmt_count (ad_store a)\<rparr>) = a" by (simp add: with_store_def)
  then have "\<exists>n. a = with_store a ((ad_store a)\<lparr>stmt_count := n\<rparr>)" by metis
  with None show ?thesis by (simp add: auth_def check_credentials_def with_store_def)
next
  case (Some up)
  obtain u p where up: "up = (u, p)" by (cases up)
  let ?s = "ad_store a"
  obtain r1 s1 where 1: "GetAdminUser E ?s = (r1, s1)" by (cases "GetAdminUser E ?s")
  obtain r2 s2 where 2: "GetAdminPass E s1 = (r2, s2)" by (cases "GetAdminPass E s1")
  from 1 2 have s1: "s1 = ?s\<lparr>stmt_count := stmt_count ?s + 1\<rparr>" and s2: "s2 = ?s\<lparr>stmt_count := stmt_count ?s + 1 + 1\<rparr>"
    by (auto dest!: read_state_eq(5,6))
  have "\<not> (r1 = Inr u \<and> r2 = Inr p)"
    using assms Some up account.get_user_value[of E ?s u] account.get_pass_value[of E s1 p] 1 2
    by (auto simp: granted_def s1)
  moreover have "\<exists>n. with_store a s1 = with_store a (?s\<lparr>stmt_count := n\<rparr>)" "\<exists>n. with_store a s2 = with_store a (?s\<lparr>stmt_count := n\<rparr>)"
    using s1 s2 by blast+
  ultimately show ?thesis
    by (auto simp: auth_def check_credentials_def Some up can_check_def 1 2 split: sum.split)
qed

text \<open>C5: without the stored user and password nothing is read and nothing changes. The whole answer
  is fixed by the request and by whether the account can be read: a redirect or 404 where no page is
  served; on every page 401 with the fixed text, or 500 with a fixed text when credentials came and
  the account could not be read to compare them. No other byte depends on the state, whose tables,
  caches, channel and counters stay as they were; the store has only counted its statements.\<close>

theorem no_access_without_credentials:
  assumes "\<not> granted (en_sql V) rq a"
  shows "rs_Status (fst (buildAdminMux cfg V rq a)) \<in> {301, 401, 404, 500} \<and>
    unchanged a (snd (buildAdminMux cfg V rq a)) \<and>
    (\<exists>n. snd (buildAdminMux cfg V rq a) = with_store a ((ad_store a)\<lparr>stmt_count := n\<rparr>)) \<and>
    fst (buildAdminMux cfg V rq a) =
      (case mux_dispatch admin_routes rq of
         Redirect p \<Rightarrow> \<lparr>rs_Status = 301, rs_Header = [(''Location'', p)], rs_Body = Bytes []\<rparr>
       | NoHandler \<Rightarrow>
           \<lparr>rs_Status = 404,
            rs_Header = [(''Content-Type'', ''text/plain; charset=utf-8''), (''X-Content-Type-Options'', ''nosniff'')],
            rs_Body = Bytes (''404 page not found'' @ [CHR 0x0A])\<rparr>
       | Serve r \<Rightarrow>
           if BasicAuth rq = None \<or> can_check (en_sql V) (ad_store a) then
             \<lparr>rs_Status = 401,
              rs_Header = [(''Www-Authenticate'', ''Basic realm='' @ [CHR 0x22] @ ''dns-proxy'' @ [CHR 0x22]),
                           (''Content-Type'', ''text/plain; charset=utf-8''), (''X-Content-Type-Options'', ''nosniff'')],
              rs_Body = Bytes (''unauthorized'' @ [CHR 0x0A])\<rparr>
           else
             \<lparr>rs_Status = 500,
              rs_Header = [(''Content-Type'', ''text/plain; charset=utf-8''), (''X-Content-Type-Options'', ''nosniff'')],
              rs_Body = Bytes (''internal error'' @ [CHR 0x0A])\<rparr>)"
proof (cases "mux_dispatch admin_routes rq")
  case (Serve r)
  note refused = auth_refused[OF assms, of "admin_handler cfg V r"]
  then obtain n where n: "snd (auth (en_sql V) (admin_handler cfg V r) rq a) = with_store a ((ad_store a)\<lparr>stmt_count := n\<rparr>)"
    by blast
  with unchanged_with_store[OF same_tables_count] refused Serve show ?thesis
    by (auto simp: buildAdminMux_def unauthorized_def http_Error_def text_plain_def)
next
  case (Redirect p)
  then show ?thesis by (auto simp: buildAdminMux_def with_store_def intro!: exI[of _ "stmt_count (ad_store a)"])
next
  case NoHandler
  then show ?thesis
    by (auto simp: buildAdminMux_def with_store_def NotFound_def http_Error_def text_plain_def
        intro!: exI[of _ "stmt_count (ad_store a)"])
qed

text \<open>C10: a request that is answered 200 leaves the caches coherent with the store, on every route: a
  change of a rule or a record is in force for the resolver before the client sees its answer.\<close>

theorem answered_requests_coherent:
  assumes "store_ok (en_sql V) (ad_store a)" and "coherent (en_sql V) (ad_rel a)"
    and "rs_Status (fst (buildAdminMux cfg V rq a)) = 200"
  shows "coherent (en_sql V) (ad_rel (snd (buildAdminMux cfg V rq a)))"
proof (cases "mux_dispatch admin_routes rq")
  case (Serve r)
  show ?thesis
  proof (cases rule: auth_cases[of "en_sql V" "admin_handler cfg V r" rq a])
    case refused
    with Serve assms(3) show ?thesis by (simp add: buildAdminMux_def)
  next
    case (admitted s)
    have "store_ok (en_sql V) (ad_store (with_store a s))" "coherent (en_sql V) (ad_rel (with_store a s))"
      using store_ok_same[OF assms(1) admitted(2)] coherent_same[OF admitted(2)] assms(2) by simp_all
    with keeps_route[of V cfg r] assms(3) admitted(1) Serve show ?thesis
      unfolding keeps_coherent_def by (simp add: buildAdminMux_def)
  qed
qed (use assms in \<open>simp_all add: buildAdminMux_def\<close>)

text \<open>A rule whose domain or mode is empty, or whose mode is unknown for a domain other than
  \<open>*\<close>, is refused with 400 before the store is touched.\<close>

theorem bad_rule_refused:
  assumes "rq_Method rq = ''POST''" and "en_RuleCreate V (rq_Body rq) = Inr c"
    and "rc_Domain c = [] \<or> rc_Mode c = [] \<or> rc_Domain c \<noteq> ''*'' \<and> rc_Mode c \<notin> {''exact'', ''suffix''}"
  shows "rs_Status (fst (rulesHandler V rq a)) = 400 \<and> snd (rulesHandler V rq a) = a"
  using assms by (auto simp: rulesHandler_def)

text \<open>An update is not validated: a PUT may store any text as the mode of a rule, is answered
  200, and the cache then treats the rule as a suffix rule unless the text is \<open>exact\<close>.\<close>

theorem update_not_validated:
  assumes "store_ok (en_sql V) (ad_store a)" and "rq_Method rq = ''PUT''"
    and "drop (length rules_prefix) (rq_Path rq) \<noteq> []" and "ParseInt (drop (length rules_prefix) (rq_Path rq)) = Some i"
    and "en_RuleUpdate V (rq_Body rq) = Inr u" and "ru_Mode u = Some m" and "m \<noteq> ''exact''"
    and "rs_Status (fst (ruleByIDHandler V rq a)) = 200"
  shows "\<exists>r. rules_map (en_sql V) (ad_store (snd (ruleByIDHandler V rq a))) i = Some r \<and> dr_Mode r = m \<and>
    classify r \<in> {Skipped, Default, SuffixFor (normalize_domain (TrimSpace (dr_Domain r)))}"
proof -
  let ?E = "en_sql V"
  obtain r s where upd: "UpdateRule ?E i u (ad_store a) = (r, s)" by (cases "UpdateRule ?E i u (ad_store a)")
  from assms(2-5,8) upd obtain rule where rule: "r = Inr rule"
    by (cases r) (simp_all add: ruleByIDHandler_def Let_def)
  have h: "ruleByIDHandler V rq a = reload_and_answer ?E status_ok (with_store a s)"
    using assms(2-5) upd rule by (simp add: ruleByIDHandler_def Let_def)
  have wf: "db_wf (ad_store a)" using assms(1) by (simp add: store_ok_def)
  from UpdateRule_ok[OF wf] upd rule obtain old
    where v: "rule = updated_rule ?E u old (current_timestamp ?E (stmt_count (ad_store a) + 2))"
      and new: "rules_map ?E s i = Some rule" by fastforce
  have mode: "dr_Mode rule = m" using assms(6) by (simp add: v updated_rule_def apply_rule_update_def)
  have ok: "store_ok ?E s" using store_ok_ops(2)[OF assms(1)] upd rule by blast
  obtain R where "Reload ?E (ad_rel (with_store a s)) = (Inr (), R)"
  proof (cases "Reload ?E (ad_rel (with_store a s))")
    case (Pair r2 R)
    with assms(8) h have "r2 = Inr ()" by (cases r2) (simp_all add: reload_and_answer_def)
    with Pair that show ?thesis by simp
  qed
  moreover from Reload_ok(2)[OF this] ok obtain n where "rd_store R = s\<lparr>stmt_count := n\<rparr>" by auto
  ultimately have "rules_map ?E (ad_store (snd (ruleByIDHandler V rq a))) i = Some rule"
    unfolding h by (simp add: reload_and_answer_def new)
  with mode assms(7) show ?thesis by (auto simp: classify_def Let_def)
qed

text \<open>The authentication of a store whose account can be decrypted, on every branch.\<close>

lemma auth_of_account:
  assumes "stored_value E adminUserKey (ad_store a) = Inr user" and "stored_value E adminPassKey (ad_store a) = Inr pass"
  shows "auth E nxt rq a =
    (let s = ad_store a; n = stmt_count s; count = (\<lambda>m. with_store a (s\<lparr>stmt_count := m\<rparr>)) in
     case BasicAuth rq of
       None \<Rightarrow> (unauthorized, a)
     | Some (u, p) \<Rightarrow>
         if stmt_error E n \<noteq> None then (http_Error ''internal error'' 500, count (n + 1))
         else if stmt_error E (n + 1) \<noteq> None then (http_Error ''internal error'' 500, count (n + 2))
         else if u = user \<and> p = pass then nxt rq (count (n + 2))
         else (unauthorized, count (n + 2)))"
proof -
  obtain s1 s2 where s1: "s1 = (ad_store a)\<lparr>stmt_count := stmt_count (ad_store a) + 1\<rparr>"
    and s2: "s2 = (ad_store a)\<lparr>stmt_count := stmt_count (ad_store a) + 2\<rparr>" by blast
  obtain n1 where n1: "n1 = stmt_count (ad_store a) + 1" by blast
  have u: "GetAdminUser E (ad_store a) =
      (case stmt_error E (stmt_count (ad_store a)) of Some e \<Rightarrow> Inl e | None \<Rightarrow> Inr user, s1)"
    by (simp add: GetAdminUser_def get_admin_value_unfold assms(1) s1 split: option.split)
  have p: "GetAdminPass E s1 = (case stmt_error E n1 of Some e \<Rightarrow> Inl e | None \<Rightarrow> Inr pass, s2)"
    by (simp add: GetAdminPass_def get_admin_value_unfold assms(2) s1 s2 n1 split: option.split)
  have "with_store a (ad_store a) = a" by (simp add: with_store_def)
  then show ?thesis
    unfolding Let_def s1[symmetric] s2[symmetric] n1[symmetric]
    by (simp add: auth_def check_credentials_def u p s1[folded n1, symmetric] split: option.split)
qed

text \<open>C12: a change of the account that is answered 200 came with the stored user and password, and
  from then on the authentication runs the next handler for the new user and password and for no
  other: every other request, one with the old ones included, is answered 401, and any request 500
  when a statement that reads the account fails.\<close>

theorem password_change_effective:
  assumes "rs_Status (fst (authHandler V rq a)) = 200" and "has_account (ad_store a)"
    and "gcm_ok (sql_gcm (en_sql V))" and "nonces_ok (en_sql V)"
  shows "\<exists>req. en_Auth V (rq_Body rq) = Inr req \<and>
    stored_value (en_sql V) adminUserKey (ad_store a) = Inr (au_OldUser req) \<and>
    stored_value (en_sql V) adminPassKey (ad_store a) = Inr (au_OldPassword req) \<and>
    (let a' = snd (authHandler V rq a); s = ad_store a'; n = stmt_count s;
         count = (\<lambda>m. with_store a' (s\<lparr>stmt_count := m\<rparr>)) in
     auth (en_sql V) nxt rq' a' =
      (case BasicAuth rq' of
         None \<Rightarrow> (unauthorized, a')
       | Some (u, p) \<Rightarrow>
           if stmt_error (en_sql V) n \<noteq> None then (http_Error ''internal error'' 500, count (n + 1))
           else if stmt_error (en_sql V) (n + 1) \<noteq> None then (http_Error ''internal error'' 500, count (n + 2))
           else if u = au_NewUser req \<and> p = au_NewPassword req then nxt rq' (count (n + 2))
           else (unauthorized, count (n + 2))))"
proof -
  from authHandler_ok[OF assms(1)] obtain req s2 s3 where req: "en_Auth V (rq_Body rq) = Inr req"
    and same: "same_tables (ad_store a) s2"
    and old: "stored_value (en_sql V) adminUserKey (ad_store a) = Inr (au_OldUser req)"
      "stored_value (en_sql V) adminPassKey (ad_store a) = Inr (au_OldPassword req)"
    and upd: "UpdateAdminAccount (en_sql V) (au_NewUser req) (au_NewPassword req) s2 = (Inr (), s3)"
    and s: "snd (authHandler V rq a) = with_store a s3" by blast
  have "has_account s2" using same assms(2) by (simp add: same_tables_def has_account_def)
  from account_after_update(1,2)[OF upd this assms(3,4)]
  have "stored_value (en_sql V) adminUserKey (ad_store (snd (authHandler V rq a))) = Inr (au_NewUser req)"
    and "stored_value (en_sql V) adminPassKey (ad_store (snd (authHandler V rq a))) = Inr (au_NewPassword req)"
    by (simp_all add: s)
  from auth_of_account[OF this, of nxt rq'] req old show ?thesis by (auto simp: Let_def)
qed

text \<open>C37: when the stored texts of the account are too short to hold a nonce, every request with an
  empty user and an empty password passes the authentication.\<close>

theorem short_account_opens:
  assumes "never_fails E" and "map_of (app_config (ad_store a)) adminUserKey = Some (Some cu)"
    and "map_of (app_config (ad_store a)) adminPassKey = Some (Some cp)"
    and "StdDecodeString cu = Inr du" and "length du < NonceSize"
    and "StdDecodeString cp = Inr dp" and "length dp < NonceSize"
    and "BasicAuth rq = Some ([], [])"
  shows "\<exists>s. auth E nxt rq a = nxt rq (with_store a s) \<and> same_tables (ad_store a) s"
proof -
  let ?s = "ad_store a" and ?s1 = "(ad_store a)\<lparr>stmt_count := stmt_count (ad_store a) + 1\<rparr>"
  have "stored_value E adminUserKey ?s = Inr []" "stored_value E adminPassKey ?s = Inr []"
    using assms(2-7) by (simp_all add: stored_value_def DecryptAES_def)
  then have u: "GetAdminUser E ?s = (Inr [], ?s1)"
    and p: "GetAdminPass E ?s1 = (Inr [], ?s1\<lparr>stmt_count := stmt_count ?s1 + 1\<rparr>)"
    using assms(1) by (simp_all add: GetAdminUser_def GetAdminPass_def get_admin_value_unfold never_fails_def)
  have "check_credentials (GetAdminUser E) (GetAdminPass E) (BasicAuth rq) ?s =
      (Admitted, ?s1\<lparr>stmt_count := stmt_count ?s1 + 1\<rparr>)"
    using account.check_right[OF u p, of "[]" "[]"] assms(8) by simp
  then show ?thesis by (auto simp: auth_def same_tables_def)
qed

end
