(* ===== verification/Goroutine.thy ===== *)
theory Goroutine
  imports Prelude
begin

text \<open>
  Goroutines on a shared state with one \<open>sync.RWMutex\<close>. A goroutine is what it still has to do: a
  tree whose nodes are the accesses to the shared state, in the order of the source, each followed
  by what the values it read lead to. The scheduler picks any goroutine that can go on; nothing
  else is fixed. A program without loops on its way is a finite tree, so the datatype is inductive.
\<close>

section \<open>Programs\<close>

text \<open>\<open>Step u n\<close> changes the state by \<open>u\<close> in one go and goes on with \<open>n\<close> of the state it found; \<open>Read\<close>
  is a section between \<open>RLock\<close> and \<open>RUnlock\<close>, which only looks at the state; \<open>Acquire\<close> and
  \<open>Release\<close> are \<open>Lock\<close> and \<open>Unlock\<close>.\<close>

datatype ('s, 'r) prog =
    Return 'r
  | Step "'s \<Rightarrow> 's" "'s \<Rightarrow> ('s, 'r) prog"
  | Read "'s \<Rightarrow> ('s, 'r) prog"
  | Acquire "('s, 'r) prog"
  | Release "('s, 'r) prog"

primrec bind :: "('s, 'a) prog \<Rightarrow> ('a \<Rightarrow> ('s, 'b) prog) \<Rightarrow> ('s, 'b) prog" where
  "bind (Return x) k = k x"
| "bind (Step u n) k = Step u (\<lambda>s. bind (n s) k)"
| "bind (Read n) k = Read (\<lambda>s. bind (n s) k)"
| "bind (Acquire p) k = Acquire (bind p k)"
| "bind (Release p) k = Release (bind p k)"

text \<open>What a program does when no other goroutine runs.\<close>

primrec run :: "('s, 'r) prog \<Rightarrow> 's \<Rightarrow> 'r \<times> 's" where
  "run (Return x) s = (x, s)"
| "run (Step u n) s = run (n s) (u s)"
| "run (Read n) s = run (n s) s"
| "run (Acquire p) s = run p s"
| "run (Release p) s = run p s"

lemma run_bind [simp]: "run (bind p k) s = (case run p s of (x, s') \<Rightarrow> run (k x) s')"
  by (induction p arbitrary: s) simp_all

text \<open>The lock is used well: a goroutine releases what it holds, takes the lock only when it does not
  hold it, does not read under its own lock, and ends without it.\<close>

primrec bracket :: "('s, 'r) prog \<Rightarrow> bool \<Rightarrow> bool" where
  "bracket (Return x) held \<longleftrightarrow> \<not> held"
| "bracket (Step u n) held \<longleftrightarrow> (\<forall>s. bracket (n s) held)"
| "bracket (Read n) held \<longleftrightarrow> \<not> held \<and> (\<forall>s. bracket (n s) held)"
| "bracket (Acquire p) held \<longleftrightarrow> \<not> held \<and> bracket p True"
| "bracket (Release p) held \<longleftrightarrow> held \<and> bracket p False"

lemma bracket_bind: "bracket p held \<Longrightarrow> (\<And>x. bracket (k x) False) \<Longrightarrow> bracket (bind p k) held"
  by (induction p arbitrary: held) auto

section \<open>The scheduler\<close>

record ('s, 'r) system =
  sy_state :: 's
  sy_lock :: "nat option"
  sy_reqs :: "nat \<Rightarrow> ('s, 'r) prog option"

text \<open>One step of goroutine \<open>t\<close>. \<open>Lock\<close> and \<open>RLock\<close> wait for the holder; an answered request is gone.\<close>

inductive go_step :: "nat \<Rightarrow> ('s, 'r) system \<Rightarrow> ('s, 'r) system \<Rightarrow> bool" for t S where
  step: "sy_reqs S t = Some (Step u n) \<Longrightarrow>
    go_step t S (S\<lparr>sy_state := u (sy_state S), sy_reqs := (sy_reqs S)(t \<mapsto> n (sy_state S))\<rparr>)"
| read: "sy_reqs S t = Some (Read n) \<Longrightarrow> sy_lock S = None \<Longrightarrow>
    go_step t S (S\<lparr>sy_reqs := (sy_reqs S)(t \<mapsto> n (sy_state S))\<rparr>)"
| acquire: "sy_reqs S t = Some (Acquire p) \<Longrightarrow> sy_lock S = None \<Longrightarrow>
    go_step t S (S\<lparr>sy_lock := Some t, sy_reqs := (sy_reqs S)(t \<mapsto> p)\<rparr>)"
| release: "sy_reqs S t = Some (Release p) \<Longrightarrow>
    go_step t S (S\<lparr>sy_lock := None, sy_reqs := (sy_reqs S)(t \<mapsto> p)\<rparr>)"
| answer: "sy_reqs S t = Some (Return x) \<Longrightarrow> go_step t S (S\<lparr>sy_reqs := (sy_reqs S)(t := None)\<rparr>)"

inductive_cases go_stepE: "go_step t S S'"

lemmas go_step_cases = go_stepE [consumes 1, case_names step read acquire release answer]

definition some_step :: "('s, 'r) system \<Rightarrow> ('s, 'r) system \<Rightarrow> bool" where
  "some_step S S' \<longleftrightarrow> (\<exists>t. go_step t S S')"

section \<open>Alone\<close>

text \<open>A goroutine that is left to run ends with what \<open>run\<close> says, and without the lock.\<close>

definition ended :: "nat \<Rightarrow> 'r \<times> 's \<Rightarrow> ('s, 'r) system \<Rightarrow> ('s, 'r) system" where
  "ended t r S = S\<lparr>sy_state := snd r, sy_lock := None, sy_reqs := (sy_reqs S)(t \<mapsto> Return (fst r))\<rparr>"

lemma ended_upd [simp]:
  "ended t r (S\<lparr>sy_state := a, sy_reqs := (sy_reqs S)(t \<mapsto> p)\<rparr>) = ended t r S"
  "ended t r (S\<lparr>sy_lock := l, sy_reqs := (sy_reqs S)(t \<mapsto> p)\<rparr>) = ended t r S"
  "ended t r (S\<lparr>sy_reqs := (sy_reqs S)(t \<mapsto> p)\<rparr>) = ended t r S"
  by (cases S; simp add: ended_def)+

lemma run_alone:
  assumes "sy_reqs S t = Some p" and "bracket p held" and "sy_lock S = (if held then Some t else None)"
  shows "(go_step t)\<^sup>*\<^sup>* S (ended t (run p (sy_state S)) S)"
  using assms
proof (induction p arbitrary: S held)
  case (Return x)
  then have "ended t (x, sy_state S) S = S"
    by (cases S) (auto simp: ended_def fun_upd_idem)
  then show ?case by (simp only: run.simps rtranclp.rtrancl_refl)
next
  case (Step u n)
  let ?T = "S\<lparr>sy_state := u (sy_state S), sy_reqs := (sy_reqs S)(t \<mapsto> n (sy_state S))\<rparr>"
  have 1: "go_step t S ?T" by (rule go_step.step[OF Step.prems(1)])
  have "bracket (n (sy_state S)) held" using Step.prems(2) by simp
  from Step.IH[OF rangeI _ this, of ?T] Step.prems(3)
  have "(go_step t)\<^sup>*\<^sup>* ?T (ended t (run (n (sy_state S)) (u (sy_state S))) S)" by simp
  from converse_rtranclp_into_rtranclp[OF 1 this] show ?case by simp
next
  case (Read n)
  let ?T = "S\<lparr>sy_reqs := (sy_reqs S)(t \<mapsto> n (sy_state S))\<rparr>"
  have 1: "go_step t S ?T" using Read.prems by (intro go_step.read) simp_all
  have "bracket (n (sy_state S)) held" using Read.prems(2) by (auto simp only: bracket.simps)
  from Read.IH[OF rangeI _ this, of ?T] Read.prems(3)
  have "(go_step t)\<^sup>*\<^sup>* ?T (ended t (run (n (sy_state S)) (sy_state S)) S)" by simp
  from converse_rtranclp_into_rtranclp[OF 1 this] show ?case by simp
next
  case (Acquire p)
  let ?T = "S\<lparr>sy_lock := Some t, sy_reqs := (sy_reqs S)(t \<mapsto> p)\<rparr>"
  have 1: "go_step t S ?T" using Acquire.prems by (intro go_step.acquire) simp_all
  from Acquire.IH[of ?T True] Acquire.prems(2) have "(go_step t)\<^sup>*\<^sup>* ?T (ended t (run p (sy_state S)) S)" by simp
  from converse_rtranclp_into_rtranclp[OF 1 this] show ?case by simp
next
  case (Release p)
  let ?T = "S\<lparr>sy_lock := None, sy_reqs := (sy_reqs S)(t \<mapsto> p)\<rparr>"
  have 1: "go_step t S ?T" by (rule go_step.release[OF Release.prems(1)])
  from Release.IH[of ?T False] Release.prems(2) have "(go_step t)\<^sup>*\<^sup>* ?T (ended t (run p (sy_state S)) S)" by simp
  from converse_rtranclp_into_rtranclp[OF 1 this] show ?case by simp
qed

section \<open>Every goroutine can end\<close>

definition sched_ok :: "('s, 'r) system \<Rightarrow> bool" where
  "sched_ok S \<longleftrightarrow>
     finite (dom (sy_reqs S)) \<and>
     (\<forall>t p. sy_reqs S t = Some p \<longrightarrow> bracket p (sy_lock S = Some t)) \<and>
     (\<forall>t. sy_lock S = Some t \<longrightarrow> sy_reqs S t \<noteq> None)"

lemma sched_ok_step:
  assumes "sched_ok S" and "go_step t S S'"
  shows "sched_ok S'"
  using assms(2)
proof (cases rule: go_step_cases)
  case (answer x)
  with assms(1) have "sy_lock S \<noteq> Some t" unfolding sched_ok_def by (metis bracket.simps(1))
  with answer assms(1) show ?thesis by (auto simp: sched_ok_def)
next
  case (release p)
  with assms(1) have held: "sy_lock S = Some t" and p: "bracket p False"
    unfolding sched_ok_def by (metis bracket.simps(5))+
  have "bracket q False" if "sy_reqs S u = Some q" "u \<noteq> t" for u q
    using assms(1) that held unfolding sched_ok_def by (metis option.inject)
  with release p assms(1) show ?thesis by (auto simp: sched_ok_def)
qed (use assms(1) in \<open>force simp: sched_ok_def\<close>)+

lemma sched_ok_request: "sched_ok S \<Longrightarrow> sy_reqs S t = None \<Longrightarrow> bracket p False \<Longrightarrow>
    sched_ok (S\<lparr>sy_reqs := (sy_reqs S)(t \<mapsto> p)\<rparr>)"
  by (force simp: sched_ok_def)

lemma finish_one:
  assumes "sched_ok S" and "sy_reqs S t = Some p" and "sy_lock S = None \<or> sy_lock S = Some t"
  shows "\<exists>a. some_step\<^sup>*\<^sup>* S (S\<lparr>sy_state := a, sy_lock := None, sy_reqs := (sy_reqs S)(t := None)\<rparr>)"
proof -
  have "bracket p (sy_lock S = Some t)" using assms(1,2) by (simp add: sched_ok_def)
  note run = run_alone[OF assms(2) this]
  let ?T = "ended t (run p (sy_state S)) S"
  have "(go_step t)\<^sup>*\<^sup>* S ?T" using run assms(3) by auto
  moreover have "go_step t ?T (?T\<lparr>sy_reqs := (sy_reqs ?T)(t := None)\<rparr>)" by (rule go_step.answer) (simp add: ended_def)
  ultimately have "(go_step t)\<^sup>*\<^sup>* S (?T\<lparr>sy_reqs := (sy_reqs ?T)(t := None)\<rparr>)" by simp
  moreover have "(go_step t)\<^sup>*\<^sup>* \<le> some_step\<^sup>*\<^sup>*" by (rule rtranclp_mono) (auto simp: some_step_def)
  ultimately have "some_step\<^sup>*\<^sup>* S (?T\<lparr>sy_reqs := (sy_reqs ?T)(t := None)\<rparr>)" by blast
  then show ?thesis unfolding ended_def by (intro exI[of _ "snd (run p (sy_state S))"]) simp
qed

lemma finish_all:
  assumes "sched_ok S"
  shows "\<exists>S'. some_step\<^sup>*\<^sup>* S S' \<and> sy_reqs S' = Map.empty \<and> sy_lock S' = None"
  using assms
proof (induction "card (dom (sy_reqs S))" arbitrary: S rule: less_induct)
  case less
  show ?case
  proof (cases "sy_reqs S = Map.empty")
    case True
    with less.prems have "sy_lock S = None" by (auto simp: sched_ok_def)
    with True show ?thesis by blast
  next
    case False
    then obtain t p where t: "sy_reqs S t = Some p" "sy_lock S = None \<or> sy_lock S = Some t"
      using less.prems unfolding sched_ok_def by (metis not_None_eq)
    from finish_one[OF less.prems t] obtain a where
      a: "some_step\<^sup>*\<^sup>* S (S\<lparr>sy_state := a, sy_lock := None, sy_reqs := (sy_reqs S)(t := None)\<rparr>)" ..
    let ?T = "S\<lparr>sy_state := a, sy_lock := None, sy_reqs := (sy_reqs S)(t := None)\<rparr>"
    have fin: "finite (dom (sy_reqs S))" using less.prems by (simp add: sched_ok_def)
    have "sy_lock S = None \<or> t \<notin> dom (sy_reqs ?T)" by simp
    have other: "bracket q False" if "sy_reqs S u = Some q" "u \<noteq> t" for u q
      using less.prems that t(2) unfolding sched_ok_def by (metis option.inject option.discI)
    have ok: "sched_ok ?T" using other fin by (auto simp: sched_ok_def)
    have "card (dom (sy_reqs ?T)) < card (dom (sy_reqs S))"
      using t(1) fin by (auto intro!: psubset_card_mono)
    from less.hyps[OF this ok] a show ?thesis by (meson rtranclp_trans)
  qed
qed

end
