(* ===== verification/Requests.thy ===== *)
theory Requests
  imports AdminProps Goroutine
begin

text \<open>
  The management requests of \<open>cmd/dns-proxy/main.go\<close> as goroutines: each operation of the store
  statement by statement, \<open>Reload\<close> with its lock, and each handler with the accesses it makes, in
  the order of the source. \<open>run_admin_task\<close> ties them to the handlers of the theory \<open>Admin\<close>: a
  goroutine that is left alone does what the handler does.

  A statement is one step: the store has one connection (\<open>SetMaxOpenConns(1)\<close>), which also makes a
  transaction one step, since it keeps the connection until its end. Decoding a body, comparing
  texts and writing an answer touch nothing that is shared.
\<close>

type_synonym 'a task = "(admin, 'a) prog"

definition stmt :: "(db \<Rightarrow> 'a \<times> db) \<Rightarrow> 'a task" where
  "stmt f = Step (\<lambda>a. with_store a (snd (f (ad_store a)))) (\<lambda>a. Return (fst (f (ad_store a))))"

section \<open>The operations of the store\<close>

definition CreateRule_task :: "sql_env \<Rightarrow> rule_create \<Rightarrow> domain_rule result task" where
  "CreateRule_task E c =
     (let enabled = (case rc_Enabled c of None \<Rightarrow> 1 | Some b \<Rightarrow> if \<not> b then 0 else 1);
          mode = (if rc_Mode c \<noteq> ''exact'' \<and> rc_Mode c \<noteq> ''suffix'' then ''suffix'' else rc_Mode c)
      in bind (stmt (insert_rule E (rc_Domain c) mode (rc_Upstream c) enabled))
           (\<lambda>r. case r of Inl e \<Rightarrow> Return (Inl e) | Inr i \<Rightarrow> stmt (GetRule E i)))"

definition UpdateRule_task :: "sql_env \<Rightarrow> int \<Rightarrow> rule_update \<Rightarrow> domain_rule result task" where
  "UpdateRule_task E i u =
     bind (stmt (GetRule E i))
       (\<lambda>r. case r of
          Inl e \<Rightarrow> Return (Inl e)
        | Inr cur0 \<Rightarrow>
            let cur = apply_rule_update u cur0;
                enabled = (if dr_Enabled cur then 1 else 0)
            in bind (stmt (update_rule_stmt E (dr_Domain cur) (dr_Mode cur) (dr_Upstream cur) enabled i))
                 (\<lambda>r. case r of Inl e \<Rightarrow> Return (Inl e) | Inr _ \<Rightarrow> stmt (GetRule E i)))"

definition CreateHost_task :: "sql_env \<Rightarrow> host_create \<Rightarrow> host_record result task" where
  "CreateHost_task E c =
     (let enabled = (case hc_Enabled c of None \<Rightarrow> 1 | Some b \<Rightarrow> if \<not> b then 0 else 1);
          ttl = (case hc_TTL c of None \<Rightarrow> 300 | Some t \<Rightarrow> if t < 0 then 0 else t);
          t = ToUpper (TrimSpace (hc_Type c));
          ty = (if t = [] then ''A'' else t);
          matchMode = normalizeMatchMode (hc_MatchMode c)
      in bind (stmt (insert_host E (hc_Domain c) ty matchMode (hc_Value c) ttl (hc_Comment c) enabled))
           (\<lambda>r. case r of Inl e \<Rightarrow> Return (Inl e) | Inr i \<Rightarrow> stmt (GetHost E i)))"

definition UpdateHost_task :: "sql_env \<Rightarrow> int \<Rightarrow> host_update \<Rightarrow> host_record result task" where
  "UpdateHost_task E i u =
     bind (stmt (GetHost E i))
       (\<lambda>r. case r of
          Inl e \<Rightarrow> Return (Inl e)
        | Inr cur0 \<Rightarrow>
            let cur = apply_host_update u cur0;
                enabled = (if hr_Enabled cur then 1 else 0)
            in bind (stmt (update_host_stmt E cur enabled i))
                 (\<lambda>r. case r of Inl e \<Rightarrow> Return (Inl e) | Inr _ \<Rightarrow> stmt (GetHost E i)))"

text \<open>The encryptions draw nonces; then the transaction.\<close>

definition UpdateAdminAccount_task :: "sql_env \<Rightarrow> string \<Rightarrow> string \<Rightarrow> unit result task" where
  "UpdateAdminAccount_task E user pass =
     bind (stmt (encrypt_pair E user pass))
       (\<lambda>r. case r of
          Inl e \<Rightarrow> Return (Inl e)
        | Inr (eu, ep) \<Rightarrow> stmt (in_tx E (seq_unit (update_config E eu adminUserKey) (update_config E ep adminPassKey))))"

section \<open>Reload\<close>

definition set_rules :: "domain_rule list \<Rightarrow> admin \<Rightarrow> admin" where
  "set_rules rules a =
     (case foldl load_rule ([], [], []) rules of
        (exact, suffs, defaultUpstream) \<Rightarrow>
          a\<lparr>ad_rel := (ad_rel a)\<lparr>rd_cache := (rd_cache (ad_rel a))\<lparr>rc_exact := exact, rc_suffix := sortSuffixes suffs,
                                                                rc_defaultUpstream := defaultUpstream\<rparr>\<rparr>\<rparr>)"

definition set_hosts :: "host_record list \<Rightarrow> admin \<Rightarrow> admin" where
  "set_hosts recs a =
     a\<lparr>ad_rel := (ad_rel a)\<lparr>rd_hosts := map_option (\<lambda>h. HostCache_Load h recs) (rd_hosts (ad_rel a))\<rparr>\<rparr>"

text \<open>\<open>r.cache.mu\<close> is held from the first listing to the load of the records; \<open>defer\<close> releases it on
  every return.\<close>

definition Reload_task :: "sql_env \<Rightarrow> unit result task" where
  "Reload_task E =
     Acquire (bind (stmt (ListRules E))
       (\<lambda>r. case r of
          Inl e \<Rightarrow> Release (Return (Inl e))
        | Inr rules \<Rightarrow>
            Step (set_rules rules)
              (\<lambda>a. if rd_hosts (ad_rel a) = None then Release (Return (Inr ()))
                 else bind (stmt (ListHosts E))
                   (\<lambda>r. case r of
                      Inl e \<Rightarrow> Release (Return (Inl e))
                    | Inr recs \<Rightarrow> Step (set_hosts recs) (\<lambda>_. Release (Return (Inr ())))))))"

section \<open>Handlers\<close>

definition reload_and_answer_task :: "sql_env \<Rightarrow> body \<Rightarrow> http_response task" where
  "reload_and_answer_task E b =
     bind (Reload_task E)
       (\<lambda>r. case r of
          Inl e \<Rightarrow> Return (http_Error e 500)
        | Inr _ \<Rightarrow> Step (\<lambda>a. a\<lparr>ad_notify := Signal (ad_notify a)\<rparr>) (\<lambda>_. Return (json_response b)))"

definition reload_task :: "admin_env \<Rightarrow> http_request \<Rightarrow> http_response task" where
  "reload_task V rq =
     (if rq_Method rq \<noteq> ''POST'' then Return not_allowed else reload_and_answer_task (en_sql V) status_ok)"

text \<open>What an operation of the store leads to: the error, or the rest of the handler.\<close>

definition then_task :: "'a result task \<Rightarrow> int \<Rightarrow> ('a \<Rightarrow> http_response task) \<Rightarrow> http_response task" where
  "then_task p status k = bind p (\<lambda>r. case r of Inl e \<Rightarrow> Return (http_Error e status) | Inr x \<Rightarrow> k x)"

definition rules_task :: "admin_env \<Rightarrow> http_request \<Rightarrow> http_response task" where
  "rules_task V rq =
     (if rq_Method rq = ''GET'' then
        then_task (stmt (ListRules (en_sql V))) 500 (\<lambda>rs. Return (json_response (JsonRules rs)))
      else if rq_Method rq = ''POST'' then
        (case en_RuleCreate V (rq_Body rq) of
           Inl e \<Rightarrow> Return (http_Error e 400)
         | Inr c \<Rightarrow>
             if rc_Domain c = [] \<or> rc_Mode c = [] then Return (http_Error ''domain/mode required'' 400)
             else if rc_Domain c \<noteq> ''*'' \<and> rc_Mode c \<noteq> ''exact'' \<and> rc_Mode c \<noteq> ''suffix'' then
               Return (http_Error ''mode must be exact or suffix'' 400)
             else
               then_task (CreateRule_task (en_sql V) c) 500 (\<lambda>rule. reload_and_answer_task (en_sql V) (JsonRule rule)))
      else Return not_allowed)"

definition ruleByID_task :: "admin_env \<Rightarrow> http_request \<Rightarrow> http_response task" where
  "ruleByID_task V rq =
     (let trimmed = drop (length rules_prefix) (rq_Path rq) in
      if trimmed = [] then Return (http_Error ''id required'' 400)
      else
        (case ParseInt trimmed of
           None \<Rightarrow> Return (http_Error ''bad id'' 400)
         | Some i \<Rightarrow>
             if rq_Method rq = ''GET'' then
               then_task (stmt (GetRule (en_sql V) i)) 404 (\<lambda>rule. Return (json_response (JsonRule rule)))
             else if rq_Method rq = ''PUT'' \<or> rq_Method rq = ''PATCH'' then
               (case en_RuleUpdate V (rq_Body rq) of
                  Inl e \<Rightarrow> Return (http_Error e 400)
                | Inr u \<Rightarrow>
                    then_task (UpdateRule_task (en_sql V) i u) 500 (\<lambda>_. reload_and_answer_task (en_sql V) status_ok))
             else if rq_Method rq = ''DELETE'' then
               then_task (stmt (DeleteRule (en_sql V) i)) 500 (\<lambda>_. reload_and_answer_task (en_sql V) status_ok)
             else Return not_allowed))"

definition hosts_task :: "admin_env \<Rightarrow> http_request \<Rightarrow> http_response task" where
  "hosts_task V rq =
     (if rq_Method rq = ''GET'' then
        then_task (stmt (ListHosts (en_sql V))) 500 (\<lambda>hs. Return (json_response (JsonHosts hs)))
      else if rq_Method rq = ''POST'' then
        (case en_HostCreate V (rq_Body rq) of
           Inl e \<Rightarrow> Return (http_Error e 400)
         | Inr c \<Rightarrow>
             if hc_Domain c = [] \<or> hc_Value c = [] then Return (http_Error ''domain/value required'' 400)
             else then_task (CreateHost_task (en_sql V) c) 500 (\<lambda>h. reload_and_answer_task (en_sql V) (JsonHost h)))
      else Return not_allowed)"

definition hostByID_task :: "admin_env \<Rightarrow> http_request \<Rightarrow> http_response task" where
  "hostByID_task V rq =
     (let trimmed = drop (length hosts_prefix) (rq_Path rq) in
      if trimmed = [] then Return (http_Error ''id required'' 400)
      else
        (case ParseInt trimmed of
           None \<Rightarrow> Return (http_Error ''bad id'' 400)
         | Some i \<Rightarrow>
             if rq_Method rq = ''GET'' then
               then_task (stmt (GetHost (en_sql V) i)) 404 (\<lambda>h. Return (json_response (JsonHost h)))
             else if rq_Method rq = ''PUT'' \<or> rq_Method rq = ''PATCH'' then
               (case en_HostUpdate V (rq_Body rq) of
                  Inl e \<Rightarrow> Return (http_Error e 400)
                | Inr u \<Rightarrow>
                    then_task (UpdateHost_task (en_sql V) i u) 500 (\<lambda>_. reload_and_answer_task (en_sql V) status_ok))
             else if rq_Method rq = ''DELETE'' then
               then_task (stmt (DeleteHost (en_sql V) i)) 500 (\<lambda>_. reload_and_answer_task (en_sql V) status_ok)
             else Return not_allowed))"

definition account_task :: "admin_env \<Rightarrow> http_request \<Rightarrow> http_response task" where
  "account_task V rq =
     (if rq_Method rq = ''PUT'' then
        (case en_Auth V (rq_Body rq) of
           Inl e \<Rightarrow> Return (http_Error e 400)
         | Inr req \<Rightarrow>
             if au_OldUser req = [] \<or> au_OldPassword req = [] \<or> au_NewUser req = [] \<or> au_NewPassword req = [] then
               Return (http_Error ''all fields required'' 400)
             else
               bind (stmt (GetAdminUser (en_sql V)))
                 (\<lambda>r. case r of
                    Inl e \<Rightarrow> Return (http_Error ''internal error'' 500)
                  | Inr currentUser \<Rightarrow>
                      bind (stmt (GetAdminPass (en_sql V)))
                        (\<lambda>r. case r of
                           Inl e \<Rightarrow> Return (http_Error ''internal error'' 500)
                         | Inr currentPass \<Rightarrow>
                             if ConstantTimeCompare (au_OldUser req) currentUser \<noteq> 1 \<or>
                                ConstantTimeCompare (au_OldPassword req) currentPass \<noteq> 1 then
                               Return (http_Error ''old username or password incorrect'' 401)
                             else
                               bind (UpdateAdminAccount_task (en_sql V) (au_NewUser req) (au_NewPassword req))
                                 (\<lambda>r. case r of
                                    Inl e \<Rightarrow> Return (http_Error ''update failed'' 500)
                                  | Inr _ \<Rightarrow> Return (json_response status_ok)))))
      else Return not_allowed)"

text \<open>The status page: one section under the read lock for the count of the rules, then one read after
  the other.\<close>

definition status_task :: "config \<Rightarrow> http_request \<Rightarrow> http_response task" where
  "status_task cfg rq =
     (if rq_Method rq \<noteq> ''GET'' then Return not_allowed
      else
        Read (\<lambda>a. let rules = Reloader_Count (ad_rel a) in
        Step id (\<lambda>a. let hosts = HostsCount (ad_rel a) in
        Step id (\<lambda>a. let hits = HitsCounter (Some (rd_cache (ad_rel a))) in
        Step id (\<lambda>a. let misses = MissesCounter (Some (rd_cache (ad_rel a))) in
        Step id (\<lambda>a. let forwards = Get (ad_forward a) in
        Step id (\<lambda>a. Return (json_response (JsonStatus
           [(''dns_addr'', cfg_DNSAddr cfg), (''dot_addr'', cfg_DoTAddr cfg),
            (''doh_addr'', cfg_DoHAddr cfg), (''http_addr'', cfg_HTTPAddr cfg),
            (''default_upstream'', cfg_DefaultUpstream cfg)]
           [(''rules_loaded'', int rules), (''hosts_loaded'', int hosts), (''cache_hits'', sint hits),
            (''cache_misses'', sint misses), (''forwards'', sint forwards),
            (''local_hits'', sint (Get (ad_local a)))])))))))))"

text \<open>The pages that touch nothing shared answer at once.\<close>

fun route_task :: "config \<Rightarrow> admin_env \<Rightarrow> admin_route \<Rightarrow> http_request \<Rightarrow> http_response task" where
  "route_task cfg V Rules rq = rules_task V rq"
| "route_task cfg V RuleByID rq = ruleByID_task V rq"
| "route_task cfg V RulesReload rq = reload_task V rq"
| "route_task cfg V Hosts rq = hosts_task V rq"
| "route_task cfg V HostByID rq = hostByID_task V rq"
| "route_task cfg V StatusPage rq = status_task cfg rq"
| "route_task cfg V AuthPage rq = account_task V rq"
| "route_task cfg V Index rq = Step id (\<lambda>a. Return (fst (serveIndex V rq a)))"
| "route_task cfg V AppJs rq = Step id (\<lambda>a. Return (fst (serveStaticFile V ''app.js'' rq a)))"
| "route_task cfg V StyleCss rq = Step id (\<lambda>a. Return (fst (serveStaticFile V ''style.css'' rq a)))"
| "route_task cfg V ConfigPage rq = Step id (\<lambda>a. Return (fst (configHandler cfg rq a)))"

definition auth_task :: "sql_env \<Rightarrow> (http_request \<Rightarrow> http_response task) \<Rightarrow> http_request \<Rightarrow> http_response task" where
  "auth_task E nxt rq =
     (case BasicAuth rq of
        None \<Rightarrow> Return unauthorized
      | Some (u, p) \<Rightarrow>
          bind (stmt (GetAdminUser E))
            (\<lambda>r. case r of
               Inl e \<Rightarrow> Return (http_Error ''internal error'' 500)
             | Inr adminUser \<Rightarrow>
                 bind (stmt (GetAdminPass E))
                   (\<lambda>r. case r of
                      Inl e \<Rightarrow> Return (http_Error ''internal error'' 500)
                    | Inr adminPass \<Rightarrow>
                        if ConstantTimeCompare u adminUser \<noteq> 1 \<or> ConstantTimeCompare p adminPass \<noteq> 1
                        then Return unauthorized
                        else nxt rq)))"

definition admin_task :: "config \<Rightarrow> admin_env \<Rightarrow> http_request \<Rightarrow> http_response task" where
  "admin_task cfg V rq =
     (case mux_dispatch admin_routes rq of
        Redirect p \<Rightarrow> Return \<lparr>rs_Status = 301, rs_Header = [(''Location'', p)], rs_Body = Bytes []\<rparr>
      | NoHandler \<Rightarrow> Return NotFound
      | Serve r \<Rightarrow> auth_task (en_sql V) (route_task cfg V r) rq)"

section \<open>Alone, a goroutine does what the handler does\<close>

lemma with_store_twice [simp]: "with_store (with_store a s) s' = with_store a s'"
  by (simp add: with_store_def)

lemma with_store_same [simp]: "with_store a (ad_store a) = a"
  by (simp add: with_store_def)

lemma run_stmt_task [simp]: "run (stmt f) a = (fst (f (ad_store a)), with_store a (snd (f (ad_store a))))"
  by (simp add: stmt_def)

lemma run_ops [simp]:
  "run (CreateRule_task E c) a = (fst (CreateRule E c (ad_store a)), with_store a (snd (CreateRule E c (ad_store a))))"
  "run (UpdateRule_task E i u) a = (fst (UpdateRule E i u (ad_store a)), with_store a (snd (UpdateRule E i u (ad_store a))))"
  "run (CreateHost_task E hc) a = (fst (CreateHost E hc (ad_store a)), with_store a (snd (CreateHost E hc (ad_store a))))"
  "run (UpdateHost_task E i hu) a = (fst (UpdateHost E i hu (ad_store a)), with_store a (snd (UpdateHost E i hu (ad_store a))))"
  "run (UpdateAdminAccount_task E n p) a =
     (fst (UpdateAdminAccount E n p (ad_store a)), with_store a (snd (UpdateAdminAccount E n p (ad_store a))))"
  by (auto simp: CreateRule_task_def CreateRule_def UpdateRule_task_def UpdateRule_def CreateHost_task_def CreateHost_def
      UpdateHost_task_def UpdateHost_def UpdateAdminAccount_task_def UpdateAdminAccount_def Let_def
      split: prod.split sum.split)

lemma run_Reload_task [simp]:
  "run (Reload_task E) a = (fst (Reload E (ad_rel a)), a\<lparr>ad_rel := snd (Reload E (ad_rel a))\<rparr>)"
proof -
  obtain r s where l: "ListRules E (ad_store a) = (r, s)" by fastforce
  obtain r' s' where h: "ListHosts E s = (r', s')" by fastforce
  show ?thesis
    by (cases r; cases r'; cases "rd_hosts (ad_rel a)"; cases a)
      (use l h in \<open>auto simp: Reload_task_def Reload_def reload_rules_def reload_hosts_def set_rules_def set_hosts_def
        with_store_def split: prod.split\<close>)
qed

lemma run_reload_and_answer [simp]: "run (reload_and_answer_task E b) a = reload_and_answer E b a"
  by (auto simp: reload_and_answer_task_def reload_and_answer_def split: prod.split sum.split)

lemma run_then_task [simp]:
  "run (then_task p status k) a = (case run p a of (Inl e, a') \<Rightarrow> (http_Error e status, a') | (Inr x, a') \<Rightarrow> run (k x) a')"
  by (auto simp: then_task_def split: prod.split sum.split)

lemma run_handlers:
  "run (reload_task V rq) a = reloadHandler V rq a" "run (rules_task V rq) a = rulesHandler V rq a"
  "run (ruleByID_task V rq) a = ruleByIDHandler V rq a" "run (hosts_task V rq) a = hostsHandler V rq a"
  "run (hostByID_task V rq) a = hostByIDHandler V rq a" "run (status_task cfg rq) a = statusHandler cfg rq a"
  by (simp_all add: reload_task_def reloadHandler_def rules_task_def rulesHandler_def ruleByID_task_def
      ruleByIDHandler_def hosts_task_def hostsHandler_def hostByID_task_def hostByIDHandler_def
      status_task_def statusHandler_def Let_def split: prod.split sum.split option.split)

lemma run_account_task: "run (account_task V rq) a = authHandler V rq a"
  by (simp add: account_task_def authHandler_def split: prod.split sum.split)

lemma page_states:
  "snd (serveIndex V rq a) = a" "snd (serveStaticFile V name rq a) = a" "snd (configHandler cfg rq a) = a"
  by (simp_all add: serveIndex_def serveStaticFile_def configHandler_def Let_def split: sum.split)

lemma run_route_task: "run (route_task cfg V r rq) a = admin_handler cfg V r rq a"
  by (cases r) (simp_all add: run_handlers run_account_task page_states prod_eq_iff)

lemma run_auth_task: "(\<And>a. run (nxt rq) a = h rq a) \<Longrightarrow> run (auth_task E nxt rq) a = auth E h rq a"
  by (simp add: auth_task_def auth_def check_credentials_def split: prod.split sum.split option.split)

theorem run_admin_task: "run (admin_task cfg V rq) a = buildAdminMux cfg V rq a"
  by (simp add: admin_task_def buildAdminMux_def run_auth_task run_route_task split: dispatch.split)

section \<open>The lock\<close>

lemma bracket_stmt [simp]: "bracket (stmt f) held \<longleftrightarrow> \<not> held"
  by (simp add: stmt_def)

lemma bracket_Reload: "bracket (Reload_task E) False"
  by (auto simp: Reload_task_def stmt_def split: sum.split)

lemma bracket_ops:
  "bracket (CreateRule_task E c) False" "bracket (UpdateRule_task E i u) False"
  "bracket (CreateHost_task E hc) False" "bracket (UpdateHost_task E i hu) False"
  "bracket (UpdateAdminAccount_task E n p) False"
  by (auto simp: CreateRule_task_def UpdateRule_task_def CreateHost_task_def UpdateHost_task_def
      UpdateAdminAccount_task_def Let_def intro!: bracket_bind split: sum.split)

lemma bracket_reload_and_answer: "bracket (reload_and_answer_task E b) False"
  unfolding reload_and_answer_task_def by (rule bracket_bind[OF bracket_Reload]) (simp split: sum.split)

lemma bracket_then_task: "bracket p False \<Longrightarrow> (\<And>x. bracket (k x) False) \<Longrightarrow> bracket (then_task p status k) False"
  unfolding then_task_def by (rule bracket_bind) (simp_all split: sum.split)

lemmas brackets = bracket_ops bracket_reload_and_answer

lemma bracket_route_task: "bracket (route_task cfg V r rq) False"
  by (cases r)
    (auto simp: reload_task_def rules_task_def ruleByID_task_def hosts_task_def hostByID_task_def status_task_def
      account_task_def Let_def brackets intro!: bracket_then_task bracket_bind split: sum.split option.split)

lemma bracket_admin_task: "bracket (admin_task cfg V rq) False"
  by (auto simp: admin_task_def auth_task_def bracket_route_task intro!: bracket_bind
      split: dispatch.split option.split sum.split)

end
