(* ===== verification/Refusals.thy ===== *)
theory Refusals
  imports Reloader
begin

text \<open>
  Operations of the store that are refused, when the driver does not fail: they leave every table
  alone. And the lookups of the rule cache, which leave its tables alone.
\<close>

text \<open>When no statement fails, an operation that is refused changes no table.\<close>

lemma same_tables_read: "snd (f s) = s\<lparr>stmt_count := n\<rparr> \<Longrightarrow> same_tables s (snd (f s))"
  by simp

lemma refused_CreateRule:
  assumes "never_fails E" and "db_wf s" and "\<not> is_ok (fst (CreateRule E c s))"
  shows "same_tables s (snd (CreateRule E c s))"
proof -
  let ?m = "if rc_Mode c = ''exact'' then ''exact'' else ''suffix''"
  let ?en = "if rc_Enabled c \<noteq> Some False then 1 else (0 :: int)"
  have "fst (GetRule E i s1) = Inr v \<or> True" for i s1 v by simp
  show ?thesis
  proof (cases "insert_rule E (rc_Domain c) ?m (rc_Upstream c) ?en s")
    case (Pair r s1)
    show ?thesis
    proof (cases r)
      case (Inl e)
      with Pair have "same_tables s s1"
        using assms(1) by (auto simp: insert_rule_def Let_def same_tables_def split: sum.splits)
      with Pair Inl show ?thesis by (simp add: CreateRule_unfold)
    next
      case (Inr i)
      with Pair have ins: "insert_rule E (rc_Domain c) ?m (rc_Upstream c) ?en s = (Inr i, s1)" by simp
      have wf1: "db_wf s1"
        using db_wf_insert_rule[OF assms(2), of ?en] ins by (metis insertCI snd_conv)
      have "is_ok (fst (GetRule E i s1))"
        using assms(1) by (simp add: GetRule_fst[OF wf1] rules_map_insert(2)[OF assms(2) ins] never_fails_def)
      with assms(3) ins show ?thesis by (simp add: CreateRule_unfold)
    qed
  qed
qed

lemma refused_CreateHost:
  assumes "never_fails E" and "db_wf s" and "\<not> is_ok (fst (CreateHost E c s))"
  shows "same_tables s (snd (CreateHost E c s))"
proof -
  let ?c = "created_host E c 0 []" and ?en = "if hc_Enabled c \<noteq> Some False then 1 else (0 :: int)"
  let ?ins = "insert_host E (hc_Domain c) (hr_Type ?c) (hr_MatchMode ?c) (hc_Value c) (hr_TTL ?c) (hc_Comment c) ?en s"
  show ?thesis
  proof (cases ?ins)
    case (Pair r s1)
    show ?thesis
    proof (cases r)
      case (Inl e)
      with Pair have "same_tables s s1"
        using assms(1) by (auto simp: insert_host_def Let_def same_tables_def split: sum.splits)
      with Pair Inl show ?thesis by (simp add: CreateHost_unfold[of E c s])
    next
      case (Inr i)
      with Pair have ins: "?ins = (Inr i, s1)" by simp
      have "snd (CreateHost E c s) = s1\<lparr>stmt_count := stmt_count s1 + 1\<rparr>"
        by (simp add: CreateHost_unfold[of E c s] ins read_states)
      then have wf1: "db_wf s1" using db_wf_CreateHost[OF assms(2), of E c] by simp
      have "is_ok (fst (GetHost E i s1))"
        using assms(1) by (simp add: GetHost_fst[OF wf1] hosts_map_insert(2)[OF assms(2) ins] never_fails_def)
      with assms(3) ins show ?thesis by (simp add: CreateHost_unfold[of E c s])
    qed
  qed
qed

lemma refused_UpdateRule:
  assumes "never_fails E" and "db_wf s" and "\<not> is_ok (fst (UpdateRule E i u s))"
  shows "same_tables s (snd (UpdateRule E i u s))"
proof -
  have n: "stmt_error E k = None" for k using assms(1) by (simp add: never_fails_def)
  show ?thesis
  proof (cases "rules_map E s i")
    case None
    then have "fst (GetRule E i s) = Inl no_rows" by (simp add: GetRule_fst[OF assms(2)] n)
    then have "GetRule E i s = (Inl no_rows, s\<lparr>stmt_count := stmt_count s + 1\<rparr>)"
      by (metis read_states(2) prod.collapse)
    then show ?thesis by (simp add: UpdateRule_def)
  next
    case (Some old)
    let ?n = "apply_rule_update u old" and ?s1 = "s\<lparr>stmt_count := stmt_count s + 1\<rparr>"
    have "fst (GetRule E i s) = Inr old" using Some by (simp add: GetRule_fst[OF assms(2)] n)
    then have get: "GetRule E i s = (Inr old, ?s1)" by (metis read_states(2) prod.collapse)
    have wf1: "db_wf ?s1" and old1: "rules_map E ?s1 i = Some old" using assms(2) Some by simp_all
    obtain s2 where upd: "update_rule_stmt E (dr_Domain ?n) (dr_Mode ?n) (dr_Upstream ?n)
        (if dr_Enabled ?n then 1 else 0) i ?s1 = (Inr (), s2)"
      using assms(1) by (simp add: update_rule_stmt_def)
    have wf2: "db_wf s2"
      using db_wf_update_rule_stmt[OF wf1, of "if dr_Enabled ?n then 1 else 0"] upd by (metis insertCI snd_conv)
    have "is_ok (fst (GetRule E i s2))"
      by (simp add: GetRule_fst[OF wf2] n rules_map_update[OF wf1 old1 upd])
    with assms(3) get upd show ?thesis by (simp add: UpdateRule_def Let_def)
  qed
qed

lemma refused_UpdateHost:
  assumes "never_fails E" and "db_wf s" and "\<not> is_ok (fst (UpdateHost E i u s))"
  shows "same_tables s (snd (UpdateHost E i u s))"
proof -
  have n: "stmt_error E k = None" for k using assms(1) by (simp add: never_fails_def)
  show ?thesis
  proof (cases "hosts_map E s i")
    case None
    then have "fst (GetHost E i s) = Inl no_rows" by (simp add: GetHost_fst[OF assms(2)] n)
    then have "GetHost E i s = (Inl no_rows, s\<lparr>stmt_count := stmt_count s + 1\<rparr>)"
      by (metis read_states(4) prod.collapse)
    then show ?thesis by (simp add: UpdateHost_def)
  next
    case (Some old)
    let ?n = "apply_host_update u old" and ?s1 = "s\<lparr>stmt_count := stmt_count s + 1\<rparr>"
    have "fst (GetHost E i s) = Inr old" using Some by (simp add: GetHost_fst[OF assms(2)] n)
    then have get: "GetHost E i s = (Inr old, ?s1)" by (metis read_states(4) prod.collapse)
    have wf1: "db_wf ?s1" and old1: "hosts_map E ?s1 i = Some old" using assms(2) Some by simp_all
    obtain s2 where upd: "update_host_stmt E ?n (if hr_Enabled ?n then 1 else 0) i ?s1 = (Inr (), s2)"
      using assms(1) by (simp add: update_host_stmt_def)
    have "db_wf (snd (update_host_stmt E ?n (if hr_Enabled ?n then 1 else 0) i ?s1))"
      by (rule db_wf_update_host_stmt[OF wf1]) (auto intro: host_ok_update hosts_map_host_ok[OF assms(2) Some])
    then have wf2: "db_wf s2" unfolding upd by simp
    have "is_ok (fst (GetHost E i s2))"
      by (simp add: GetHost_fst[OF wf2] n hosts_map_update[OF wf1 old1 upd])
    with assms(3) get upd show ?thesis by (simp add: UpdateHost_def Let_def)
  qed
qed

lemma refused_Delete:
  assumes "never_fails E" and "db_wf s"
  shows "\<not> is_ok (fst (DeleteRule E i s)) \<Longrightarrow> same_tables s (snd (DeleteRule E i s))"
    and "\<not> is_ok (fst (DeleteHost E i s)) \<Longrightarrow> same_tables s (snd (DeleteHost E i s))"
  using assms(1) rule_rows.delete_count[of i "domain_rules s"] rule_rows.delete_absent[of i "domain_rules s"]
    host_rows.delete_count[of i "host_records s"] host_rows.delete_absent[of i "host_records s"]
  by (auto simp: DeleteRule_def DeleteHost_def split_beta same_tables_def split: if_splits)

lemma error_states:
  "\<not> is_ok (fst (UpdateAdminAccount E u p s)) \<Longrightarrow> same_tables s (snd (UpdateAdminAccount E u p s))"
  "\<not> is_ok (fst (initAdminAccount E s)) \<Longrightarrow> same_tables s (snd (initAdminAccount E s))"
  using UpdateAdminAccount_error[of E u p s] init_error[of E s]
  by (metis is_ok.elims(3) prod.collapse)+

lemma Match_tables: "rule_tables (snd (RuleCache_Match c name)) = rule_tables c"
  by (auto simp: RuleCache_Match_def rule_tables_def Let_def split: option.split)

lemma Lookup_tables: "host_tables_of (snd (HostCache_Lookup h name qt)) = host_tables_of h"
  by (auto simp: HostCache_Lookup_def host_tables_of_def Let_def split: option.split)

lemma rules_coherent_Match [simp]:
  "rules_coherent E s (snd (RuleCache_Match c name)) = rules_coherent E s c"
  by (simp add: rules_coherent_def Match_tables)

end
