(* ===== verification/ReloadModes.thy ===== *)
theory ReloadModes
  imports Requests Refusals
begin

text \<open>
  What a management request still owes to the caches, at each of its steps. A goroutine is in a
  mode: nothing owed, a reload owed after a change, or one of the stations of a reload; a step is a
  move from a mode to a mode. The theory proves of every request that it makes such moves only and
  owes nothing at its end, whatever other goroutines do to the state between its steps, as long as
  the driver does not fail. The modes are ghost state: no definition of the program has them.
\<close>

section \<open>Modes\<close>

text \<open>What a goroutine owes: nothing; the reload after a change that it reads back first; a reload; and
  the stations of a reload.\<close>

datatype mode =
    Calm | BackRule int | BackHost int | Must
  | ListsRules | HasRules "domain_rule list" | ListsHosts | HasHosts "host_record list" | Unlocks

fun locked :: "mode \<Rightarrow> bool" where
  "locked ListsRules = True" | "locked (HasRules rs) = True" | "locked ListsHosts = True"
| "locked (HasHosts hs) = True" | "locked Unlocks = True" | "locked _ = False"

text \<open>A goroutine that will list both tables, unless the row it reads back is gone: then the one that
  deleted it will.\<close>

fun need :: "db \<Rightarrow> mode \<Rightarrow> bool" where
  "need s (BackRule i) \<longleftrightarrow> tab_find rw_id i (domain_rules s) \<noteq> None"
| "need s (BackHost i) \<longleftrightarrow> tab_find hw_id i (host_records s) \<noteq> None"
| "need s Must = True" | "need s ListsRules = True" | "need s _ = False"

definition same_records :: "db \<Rightarrow> db \<Rightarrow> bool" where
  "same_records s s' \<longleftrightarrow> domain_rules s' = domain_rules s \<and> host_records s' = host_records s"

definition same_caches_as :: "admin \<Rightarrow> admin \<Rightarrow> bool" where
  "same_caches_as a b \<longleftrightarrow>
     rule_tables (rd_cache (ad_rel b)) = rule_tables (rd_cache (ad_rel a)) \<and>
     map_option host_tables_of (rd_hosts (ad_rel b)) = map_option host_tables_of (rd_hosts (ad_rel a))"

inductive move :: "sql_env \<Rightarrow> admin \<Rightarrow> admin \<Rightarrow> mode \<Rightarrow> mode \<Rightarrow> bool" for E a b where
  look: "same_records (ad_store a) (ad_store b) \<Longrightarrow> same_caches_as a b \<Longrightarrow> move E a b m m"
| change: "same_caches_as a b \<Longrightarrow> need (ad_store b) m \<Longrightarrow> \<not> locked m \<Longrightarrow> move E a b Calm m"
| settle: "same_records (ad_store a) (ad_store b) \<Longrightarrow> same_caches_as a b \<Longrightarrow> \<not> locked m \<Longrightarrow>
    (need (ad_store a) m \<Longrightarrow> m' = Must) \<Longrightarrow> m' \<in> {Calm, Must} \<Longrightarrow> move E a b m m'"
| rules_listed: "same_records (ad_store a) (ad_store b) \<Longrightarrow> same_caches_as a b \<Longrightarrow>
    rs = stored_rules E (ad_store a) \<Longrightarrow> move E a b ListsRules (HasRules rs)"
| rules_set: "same_records (ad_store a) (ad_store b) \<Longrightarrow>
    rule_tables (rd_cache (ad_rel b)) = rule_tables (RuleCache_Load RuleCache_New rs) \<Longrightarrow>
    rd_hosts (ad_rel b) = rd_hosts (ad_rel a) \<Longrightarrow>
    m = (if rd_hosts (ad_rel a) = None then Unlocks else ListsHosts) \<Longrightarrow> move E a b (HasRules rs) m"
| hosts_listed: "same_records (ad_store a) (ad_store b) \<Longrightarrow> same_caches_as a b \<Longrightarrow>
    hs = stored_hosts E (ad_store a) \<Longrightarrow> move E a b ListsHosts (HasHosts hs)"
| hosts_set: "same_records (ad_store a) (ad_store b) \<Longrightarrow> rd_cache (ad_rel b) = rd_cache (ad_rel a) \<Longrightarrow>
    map_option host_tables_of (rd_hosts (ad_rel b)) =
      map_option (\<lambda>_. host_tables_of (HostCache_Load NewHostCache hs)) (rd_hosts (ad_rel a)) \<Longrightarrow>
    move E a b (HasHosts hs) Unlocks"

text \<open>A program that starts in a mode and makes moves only, whatever the others do to the state
  between its steps.\<close>

primrec ok :: "sql_env \<Rightarrow> ('r \<Rightarrow> mode \<Rightarrow> bool) \<Rightarrow> 'r task \<Rightarrow> mode \<Rightarrow> bool" where
  "ok E Q (Return x) m \<longleftrightarrow> Q x m"
| "ok E Q (Step u n) m \<longleftrightarrow>
     (\<forall>a. store_ok E (ad_store a) \<longrightarrow>
        store_ok E (ad_store (u a)) \<and> (\<exists>m'. move E a (u a) m m' \<and> ok E Q (n a) m'))"
| "ok E Q (Read n) m \<longleftrightarrow> \<not> locked m \<and> (\<forall>a. ok E Q (n a) m)"
| "ok E Q (Acquire p) m \<longleftrightarrow> m \<in> {Calm, Must} \<and> ok E Q p ListsRules"
| "ok E Q (Release p) m \<longleftrightarrow> m = Unlocks \<and> ok E Q p Calm"

lemma ok_bind: "ok E P p m \<Longrightarrow> (\<And>x m. P x m \<Longrightarrow> ok E Q (k x) m) \<Longrightarrow> ok E Q (bind p k) m"
proof (induction p arbitrary: m)
  case (Step u n)
  show ?case unfolding bind.simps ok.simps
  proof (intro allI impI conjI)
    fix a
    assume "store_ok E (ad_store a)"
    with Step.prems(1) show "store_ok E (ad_store (u a))" by simp
    from Step.prems(1) \<open>store_ok E (ad_store a)\<close> obtain m' where "move E a (u a) m m'" "ok E P (n a) m'" by auto
    with Step.IH[OF rangeI _ Step.prems(2)] show "\<exists>m'. move E a (u a) m m' \<and> ok E Q (bind (n a) k) m'" by blast
  qed
next
  case (Read n)
  then show ?case by (simp only: bind.simps ok.simps) (meson rangeI)
qed simp_all

lemma ok_stmt:
  assumes "\<And>a. store_ok E (ad_store a) \<Longrightarrow> store_ok E (snd (f (ad_store a))) \<and>
    (\<exists>m'. move E a (with_store a (snd (f (ad_store a)))) m m' \<and> Q (fst (f (ad_store a))) m')"
  shows "ok E Q (stmt f) m"
  using assms by (simp add: stmt_def)

section \<open>The programs make moves only\<close>

definition at_rest :: "'r \<Rightarrow> mode \<Rightarrow> bool" where
  [simp]: "at_rest x m \<longleftrightarrow> m = Calm"

text \<open>After an operation: a reload may be owed when it succeeded, nothing when it was refused.\<close>

definition settled :: "'a result \<Rightarrow> mode \<Rightarrow> bool" where
  "settled r m \<longleftrightarrow> m \<in> {Calm, Must} \<and> (\<not> is_ok r \<longrightarrow> m = Calm)"

lemma same_caches_with_store [simp]: "same_caches_as a (with_store a s)"
  by (simp add: same_caches_as_def)

lemma same_records_counters [simp]:
  "same_records s (s\<lparr>stmt_count := n\<rparr>)" "same_records s s" "same_records s (s\<lparr>rand_count := n\<rparr>)"
  by (simp_all add: same_records_def)

lemma ok_read:
  assumes "\<And>s. store_ok E s \<Longrightarrow> store_ok E (snd (f s)) \<and> same_records s (snd (f s)) \<and> P (fst (f s))"
  shows "ok E (\<lambda>r m'. m' = m \<and> P r) (stmt f) m"
  by (rule ok_stmt) (use assms in \<open>auto intro!: look\<close>)

lemma GetRule_found:
  assumes "never_fails E" and "db_wf s"
  shows "is_ok (fst (GetRule E i s)) \<longleftrightarrow> tab_find rw_id i (domain_rules s) \<noteq> None"
proof (cases "tab_find rw_id i (domain_rules s)")
  case (Some r)
  then have "r \<in> set (t_rows (domain_rules s))" using rule_rows.find_in_rows by blast
  with assms(2) have "rule_row_ok r" by (simp add: db_wf_def)
  from rowToRule_ok[OF this, of E] obtain v where "rowToRule E r = Inr v" ..
  with Some assms(1) show ?thesis by (simp add: GetRule_def run_stmt_def never_fails_def Let_def)
qed (use assms(1) in \<open>simp add: GetRule_def run_stmt_def never_fails_def Let_def\<close>)

lemma GetHost_found:
  assumes "never_fails E" and "db_wf s"
  shows "is_ok (fst (GetHost E i s)) \<longleftrightarrow> tab_find hw_id i (host_records s) \<noteq> None"
proof (cases "tab_find hw_id i (host_records s)")
  case (Some r)
  then have "r \<in> set (t_rows (host_records s))" using host_rows.find_in_rows by blast
  with assms(2) have "host_row_ok r" by (simp add: db_wf_def)
  from rowToHost_ok[OF this, of E] obtain v where "rowToHost E r = Inr v" ..
  with Some assms(1) show ?thesis by (simp add: GetHost_def run_stmt_def never_fails_def Let_def)
qed (use assms(1) in \<open>simp add: GetHost_def run_stmt_def never_fails_def Let_def\<close>)

text \<open>The read-back at the end of an operation.\<close>

lemma ok_read_back:
  assumes "\<And>s. store_ok E s \<Longrightarrow> store_ok E (snd (f s)) \<and> same_records s (snd (f s)) \<and>
      (need s m \<longrightarrow> is_ok (fst (f s))) \<and> (is_ok (fst (f s)) \<longrightarrow> m = Calm \<or> need s m)" and "\<not> locked m" "m \<noteq> Must"
  shows "ok E settled (stmt f) m"
proof (rule ok_stmt)
  fix a
  assume "store_ok E (ad_store a)"
  note f = assms(1)[OF this]
  let ?m = "if need (ad_store a) m then Must else Calm"
  have "move E a (with_store a (snd (f (ad_store a)))) m ?m"
    by (rule settle) (use f assms(2) in auto)
  then show "store_ok E (snd (f (ad_store a))) \<and>
      (\<exists>m'. move E a (with_store a (snd (f (ad_store a)))) m m' \<and> settled (fst (f (ad_store a))) m')"
    using f by (intro conjI exI[of _ ?m]) (auto simp: settled_def)
qed

lemma ok_GetRule_back: "never_fails E \<Longrightarrow> m \<in> {Calm, BackRule i} \<Longrightarrow> ok E settled (stmt (GetRule E i)) m"
  by (rule ok_read_back) (use GetRule_found in \<open>auto simp: read_states store_ok_def\<close>)

lemma ok_GetHost_back: "never_fails E \<Longrightarrow> m \<in> {Calm, BackHost i} \<Longrightarrow> ok E settled (stmt (GetHost E i)) m"
  by (rule ok_read_back) (use GetHost_found in \<open>auto simp: read_states store_ok_def\<close>)

text \<open>A statement that changes a table: it is either without effect, or leaves something owed.\<close>

lemma ok_write:
  assumes "\<And>s. store_ok E s \<Longrightarrow> store_ok E (snd (f s)) \<and>
      (same_records s (snd (f s)) \<and> Q (fst (f s)) Calm \<or>
       (\<exists>m. need (snd (f s)) m \<and> \<not> locked m \<and> Q (fst (f s)) m))"
  shows "ok E Q (stmt f) Calm"
proof (rule ok_stmt)
  fix a
  assume "store_ok E (ad_store a)"
  from assms[OF this] show "store_ok E (snd (f (ad_store a))) \<and>
      (\<exists>m'. move E a (with_store a (snd (f (ad_store a)))) Calm m' \<and> Q (fst (f (ad_store a))) m')"
    using look[of a "with_store a (snd (f (ad_store a)))" E Calm] change[of a "with_store a (snd (f (ad_store a)))" _ E]
    by auto
qed

definition inserted :: "(int \<Rightarrow> mode) \<Rightarrow> int result \<Rightarrow> mode \<Rightarrow> bool" where
  "inserted back_to r m \<longleftrightarrow> (case r of Inl _ \<Rightarrow> m = Calm | Inr i \<Rightarrow> m = back_to i)"

lemma insert_rule_leads:
  assumes "never_fails E" and "tab_wf rw_id (domain_rules s)" and "insert_rule E d mo u en s = (r, s')"
  shows "case r of Inl _ \<Rightarrow> same_records s s' | Inr i \<Rightarrow> need s' (BackRule i)"
proof (cases r)
  case (Inl e)
  with assms(1,3) show ?thesis
    by (auto simp: insert_rule_def run_stmt_def Let_def never_fails_def split: sum.splits)
next
  case (Inr i)
  with assms(1,3) obtain row t where "tab_insert (\<lambda>i r. r\<lparr>rw_id := i\<rparr>) row (domain_rules s) = Inr (i, t)" "domain_rules s' = t"
    by (auto simp: insert_rule_def run_stmt_def Let_def never_fails_def split: sum.splits)
  with rule_rows.find_insert[OF assms(2)] Inr show ?thesis by simp
qed

lemma insert_host_leads:
  assumes "never_fails E" and "tab_wf hw_id (host_records s)" and "insert_host E d ty mm v ttl c en s = (r, s')"
  shows "case r of Inl _ \<Rightarrow> same_records s s' | Inr i \<Rightarrow> need s' (BackHost i)"
proof (cases r)
  case (Inl e)
  with assms(1,3) show ?thesis
    by (auto simp: insert_host_def run_stmt_def Let_def never_fails_def split: sum.splits)
next
  case (Inr i)
  with assms(1,3) obtain row t where "tab_insert (\<lambda>i r. r\<lparr>hw_id := i\<rparr>) row (host_records s) = Inr (i, t)" "host_records s' = t"
    by (auto simp: insert_host_def run_stmt_def Let_def never_fails_def split: sum.splits)
  with host_rows.find_insert[OF assms(2)] Inr show ?thesis by simp
qed

lemma ok_insert:
  assumes "\<And>s r s'. store_ok E s \<Longrightarrow> f s = (r, s') \<Longrightarrow> store_ok E s' \<and>
      (case r of Inl _ \<Rightarrow> same_records s s' | Inr i \<Rightarrow> need s' (back_to i) \<and> \<not> locked (back_to i))"
  shows "ok E (inserted back_to) (stmt f) Calm"
proof (rule ok_write)
  fix s
  assume s: "store_ok E s"
  obtain r s' where f: "f s = (r, s')" by fastforce
  from assms[OF s this] show "store_ok E (snd (f s)) \<and>
      (same_records s (snd (f s)) \<and> inserted back_to (fst (f s)) Calm \<or>
       (\<exists>m. need (snd (f s)) m \<and> \<not> locked m \<and> inserted back_to (fst (f s)) m))"
    by (cases r) (auto simp: f inserted_def)
qed

lemma ok_insert_rule:
  assumes "never_fails E" and "en \<in> {0, 1}"
  shows "ok E (inserted BackRule) (stmt (insert_rule E d mo u en)) Calm"
proof (rule ok_insert)
  fix s r s'
  assume s: "store_ok E s" and f: "insert_rule E d mo u en s = (r, s')"
  have "tab_wf rw_id (domain_rules s)" using s by (simp add: store_ok_def db_wf_def)
  from insert_rule_leads[OF assms(1) this f] db_wf_insert_rule[OF _ assms(2), of s E d mo u] s f
  show "store_ok E s' \<and> (case r of Inl _ \<Rightarrow> same_records s s' | Inr i \<Rightarrow> need s' (BackRule i) \<and> \<not> locked (BackRule i))"
    by (cases r) (simp_all add: store_ok_def del: need.simps)
qed

lemma ok_insert_host:
  assumes "never_fails E" and "en \<in> {0, 1}" and "ty \<noteq> []" "ToUpper ty = ty" "mm \<in> {''exact'', ''suffix''}" "0 \<le> ttl"
  shows "ok E (inserted BackHost) (stmt (insert_host E d ty mm v ttl c en)) Calm"
proof (rule ok_insert)
  fix s r s'
  assume s: "store_ok E s" and f: "insert_host E d ty mm v ttl c en s = (r, s')"
  have "tab_wf hw_id (host_records s)" using s by (simp add: store_ok_def db_wf_def)
  from insert_host_leads[OF assms(1) this f] db_wf_insert_host[OF _ assms(2-6), of s E d v c] s f
  show "store_ok E s' \<and> (case r of Inl _ \<Rightarrow> same_records s s' | Inr i \<Rightarrow> need s' (BackHost i) \<and> \<not> locked (BackHost i))"
    by (cases r) (simp_all add: store_ok_def del: need.simps)
qed

lemma ok_update_rule:
  assumes "never_fails E" and "en \<in> {0, 1}"
  shows "ok E (\<lambda>r m. is_ok r \<and> m \<in> {Calm, BackRule i}) (stmt (update_rule_stmt E d mo u en i)) Calm"
proof (rule ok_write)
  fix s
  assume s: "store_ok E s"
  let ?f = "update_rule_stmt E d mo u en i s"
  have "store_ok E (snd ?f)" using s db_wf_update_rule_stmt[OF _ assms(2)] by (simp add: store_ok_def)
  moreover have "stmt_error E n = None" for n using assms(1) by (simp add: never_fails_def)
  moreover have "is_ok (fst ?f)"
    using assms(1) by (simp add: update_rule_stmt_def run_stmt_def Let_def never_fails_def)
  moreover have "tab_find rw_id i (domain_rules s) = None \<Longrightarrow> same_records s (snd ?f)"
    using assms(1) by (simp add: update_rule_stmt_def run_stmt_def Let_def never_fails_def same_records_def rule_rows.update_absent)
  moreover have "tab_find rw_id i (domain_rules s) \<noteq> None \<Longrightarrow> need (snd ?f) (BackRule i)"
    using assms(1) by (simp add: update_rule_stmt_def run_stmt_def Let_def never_fails_def rule_rows.find_update)
  ultimately show "store_ok E (snd ?f) \<and> (same_records s (snd ?f) \<and> is_ok (fst ?f) \<and> Calm \<in> {Calm, BackRule i} \<or>
      (\<exists>m. need (snd ?f) m \<and> \<not> locked m \<and> is_ok (fst ?f) \<and> m \<in> {Calm, BackRule i}))"
    by (cases "tab_find rw_id i (domain_rules s)") (auto simp del: need.simps)
qed

lemma ok_update_host:
  assumes "never_fails E" and "host_ok cur" and "en \<in> {0, 1}"
  shows "ok E (\<lambda>r m. is_ok r \<and> m \<in> {Calm, BackHost i}) (stmt (update_host_stmt E cur en i)) Calm"
proof (rule ok_write)
  fix s
  assume s: "store_ok E s"
  let ?f = "update_host_stmt E cur en i s"
  have "store_ok E (snd ?f)" using s db_wf_update_host_stmt[OF _ assms(2,3)] by (simp add: store_ok_def)
  moreover have "is_ok (fst ?f)"
    using assms(1) by (simp add: update_host_stmt_def run_stmt_def Let_def never_fails_def)
  moreover have "tab_find hw_id i (host_records s) = None \<Longrightarrow> same_records s (snd ?f)"
    using assms(1) by (simp add: update_host_stmt_def run_stmt_def Let_def never_fails_def same_records_def host_rows.update_absent)
  moreover have "tab_find hw_id i (host_records s) \<noteq> None \<Longrightarrow> need (snd ?f) (BackHost i)"
    using assms(1) by (simp add: update_host_stmt_def run_stmt_def Let_def never_fails_def host_rows.find_update)
  ultimately show "store_ok E (snd ?f) \<and> (same_records s (snd ?f) \<and> is_ok (fst ?f) \<and> Calm \<in> {Calm, BackHost i} \<or>
      (\<exists>m. need (snd ?f) m \<and> \<not> locked m \<and> is_ok (fst ?f) \<and> m \<in> {Calm, BackHost i}))"
    by (cases "tab_find hw_id i (host_records s)") (auto simp del: need.simps)
qed

lemma ok_delete:
  assumes "never_fails E"
  shows "ok E settled (stmt (DeleteRule E i)) Calm" "ok E settled (stmt (DeleteHost E i)) Calm"
proof -
  have n: "stmt_error E n = None" for n using assms by (simp add: never_fails_def)
  show "ok E settled (stmt (DeleteRule E i)) Calm"
  proof (rule ok_write)
    fix s
    assume "store_ok E s"
    then show "store_ok E (snd (DeleteRule E i s)) \<and>
        (same_records s (snd (DeleteRule E i s)) \<and> settled (fst (DeleteRule E i s)) Calm \<or>
         (\<exists>m. need (snd (DeleteRule E i s)) m \<and> \<not> locked m \<and> settled (fst (DeleteRule E i s)) m))"
      using db_wf_DeleteRule[of s E i] rule_rows.delete_count[of i "domain_rules s"] rule_rows.delete_absent[of i "domain_rules s"]
      by (cases "tab_delete rw_id i (domain_rules s)"; cases "tab_find rw_id i (domain_rules s)")
        (auto simp: DeleteRule_def run_stmt_def Let_def n settled_def store_ok_def same_records_def intro: exI[of _ Must])
  qed
  show "ok E settled (stmt (DeleteHost E i)) Calm"
  proof (rule ok_write)
    fix s
    assume "store_ok E s"
    then show "store_ok E (snd (DeleteHost E i s)) \<and>
        (same_records s (snd (DeleteHost E i s)) \<and> settled (fst (DeleteHost E i s)) Calm \<or>
         (\<exists>m. need (snd (DeleteHost E i s)) m \<and> \<not> locked m \<and> settled (fst (DeleteHost E i s)) m))"
      using db_wf_DeleteHost[of s E i] host_rows.delete_count[of i "host_records s"] host_rows.delete_absent[of i "host_records s"]
      by (cases "tab_delete hw_id i (host_records s)"; cases "tab_find hw_id i (host_records s)")
        (auto simp: DeleteHost_def run_stmt_def Let_def n settled_def store_ok_def same_records_def intro: exI[of _ Must])
  qed
qed

text \<open>The operations of the store.\<close>

lemma ok_CreateRule: "never_fails E \<Longrightarrow> ok E settled (CreateRule_task E c) Calm"
  unfolding CreateRule_task_def Let_def
  by (rule ok_bind[OF ok_insert_rule])
    (auto simp: inserted_def settled_def split: sum.splits option.split intro: ok_GetRule_back)

lemma ok_CreateHost: "never_fails E \<Longrightarrow> ok E settled (CreateHost_task E c) Calm"
  unfolding CreateHost_task_def Let_def
  by (rule ok_bind[OF ok_insert_host[OF _ _ _ _ normalizeMatchMode_range]])
    (auto simp: inserted_def settled_def split: sum.splits option.split intro: ok_GetHost_back)

lemma ok_read_then:
  assumes "\<And>s. store_ok E s \<Longrightarrow> store_ok E (snd (f s)) \<and> same_records s (snd (f s)) \<and> P (fst (f s))"
    and "\<And>r. P r \<Longrightarrow> ok E Q (k r) m"
  shows "ok E Q (bind (stmt f) k) m"
  by (rule ok_bind[OF ok_read[OF assms(1)]]) (auto intro: assms(2))

lemma ok_UpdateRule:
  assumes "never_fails E"
  shows "ok E settled (UpdateRule_task E i u) Calm"
  unfolding UpdateRule_task_def Let_def
proof (rule ok_read_then[where P = "\<lambda>_. True"], goal_cases read found)
  case (found r)
  show ?case
  proof (cases r)
    case (Inr cur)
    show ?thesis unfolding Inr sum.case
      by (rule ok_bind[OF ok_update_rule[OF assms]])
        (auto simp: settled_def split: sum.split intro!: ok_GetRule_back[OF assms])
  qed (simp add: settled_def)
qed (simp add: read_states)

lemma ok_UpdateHost:
  assumes "never_fails E"
  shows "ok E settled (UpdateHost_task E i u) Calm"
  unfolding UpdateHost_task_def Let_def
proof (rule ok_read_then[where P = "\<lambda>r. \<forall>h. r = Inr h \<longrightarrow> host_ok h"], goal_cases read found)
  case (read s)
  then show ?case using GetHost_ok[of s E i] by (cases "GetHost E i s") (auto simp: store_ok_def dest: read_state_eq)
next
  case (found r)
  show ?case
  proof (cases r)
    case (Inr cur)
    with found have "host_ok (apply_host_update u cur)" by (simp add: host_ok_update)
    show ?thesis unfolding Inr sum.case
      by (rule ok_bind[OF ok_update_host[OF assms \<open>host_ok (apply_host_update u cur)\<close>]])
        (auto simp: settled_def split: sum.split intro!: ok_GetHost_back[OF assms])
  qed (simp add: settled_def)
qed

lemma account_tx_keeps:
  fixes E eu ep
  assumes "db_wf s"
  defines "t \<equiv> in_tx E (seq_unit (update_config E eu adminUserKey) (update_config E ep adminPassKey)) s"
  shows "db_wf (snd t)" and "same_records s (snd t)"
proof -
  have "db_wf (snd t) \<and> same_records s (snd t)"
  proof (cases t)
    case (Pair r s')
    show ?thesis
    proof (cases r)
      case (Inl e)
      with Pair have "same_tables s s'" unfolding t_def by (auto dest: in_tx_error)
      with Pair assms(1) show ?thesis by (auto simp: same_records_def same_tables_def intro: db_wf_same_tables)
    next
      case (Inr x)
      with Pair assms(1) show ?thesis unfolding t_def
        by (auto simp: seq_unit_ok same_records_def db_wf_def dest!: in_tx_ok update_config_ok)
    qed
  qed
  then show "db_wf (snd t)" and "same_records s (snd t)" by simp_all
qed

lemma ok_account: "ok E at_rest (UpdateAdminAccount_task E user pass) Calm"
  unfolding UpdateAdminAccount_task_def
proof (rule ok_read_then[where P = "\<lambda>_. True"], goal_cases encrypt found)
  case (encrypt s)
  then show ?case
    by (cases "encrypt_pair E user pass s") (auto simp: store_ok_def same_records_def dest!: encrypt_pair_state)
next
  case (found r)
  have tx: "ok E (\<lambda>r m'. m' = Calm \<and> True)
      (stmt (in_tx E (seq_unit (update_config E eu adminUserKey) (update_config E ep adminPassKey)))) Calm" for eu ep
    by (rule ok_read) (simp add: store_ok_def account_tx_keeps)
  then have "ok E at_rest (stmt (in_tx E (seq_unit (update_config E eu adminUserKey) (update_config E ep adminPassKey)))) Calm" for eu ep
    by (simp add: at_rest_def[abs_def])
  then show ?case by (auto simp: at_rest_def[abs_def] split: sum.split)
qed

text \<open>The reload.\<close>

lemma set_rules_load: "set_rules rs a = a\<lparr>ad_rel := (ad_rel a)\<lparr>rd_cache := RuleCache_Load (rd_cache (ad_rel a)) rs\<rparr>\<rparr>"
  by (auto simp: set_rules_def RuleCache_Load_def build_tables_def split: prod.split)

lemma ok_Reload:
  assumes "never_fails E" and "m \<in> {Calm, Must}"
  shows "ok E at_rest (Reload_task E) m"
proof -
  have n: "stmt_error E i = None" for i using assms(1) by (simp add: never_fails_def)
  have rules: "ok E (\<lambda>r m'. \<exists>rs. r = Inr rs \<and> m' = HasRules rs) (stmt (ListRules E)) ListsRules"
    by (rule ok_stmt) (use n in \<open>auto simp: read_states store_ok_def ListRules_fst intro!: rules_listed\<close>)
  have hosts: "ok E (\<lambda>r m'. \<exists>hs. r = Inr hs \<and> m' = HasHosts hs) (stmt (ListHosts E)) ListsHosts"
    by (rule ok_stmt) (use n in \<open>auto simp: read_states store_ok_def ListHosts_fst intro!: hosts_listed\<close>)
  have set_h: "move E a (set_hosts hs a) (HasHosts hs) Unlocks" for hs a
    by (rule hosts_set) (auto simp: set_hosts_def option.map_comp intro!: option.map_cong0 hosts_cached.load_tables)
  have load_hosts: "ok E at_rest (Step (set_hosts hs) (\<lambda>_. Release (Return r))) (HasHosts hs)" for hs and r :: "unit result"
    using set_h by (auto simp only: ok.simps at_rest_def) (simp_all add: set_hosts_def)
  have then_hosts: "ok E at_rest (bind (stmt (ListHosts E)) (\<lambda>r. case r of
      Inl e \<Rightarrow> Release (Return (Inl e))
    | Inr recs \<Rightarrow> Step (set_hosts recs) (\<lambda>_. Release (Return (Inr ()))))) ListsHosts"
    by (rule ok_bind[OF hosts]) (elim exE conjE, simp only: sum.case load_hosts)
  have load_rules: "move E a (set_rules rs a) (HasRules rs) (if rd_hosts (ad_rel a) = None then Unlocks else ListsHosts)"
    for rs a
    by (rule rules_set) (auto simp: set_rules_load intro: rules_cached.load_tables)
  have then_rules: "ok E at_rest (Step (set_rules rs) (\<lambda>a. if rd_hosts (ad_rel a) = None then Release (Return (Inr ()))
      else bind (stmt (ListHosts E)) (\<lambda>r. case r of
          Inl e \<Rightarrow> Release (Return (Inl e))
        | Inr recs \<Rightarrow> Step (set_hosts recs) (\<lambda>_. Release (Return (Inr ())))))) (HasRules rs)" for rs
    unfolding ok.simps
  proof (intro allI impI conjI, goal_cases kept moved)
    case (moved a)
    show ?case
      by (rule exI, rule conjI, rule load_rules) (simp add: then_hosts at_rest_def del: sum.case)
  qed (simp add: set_rules_load)
  have "ok E at_rest (bind (stmt (ListRules E)) (\<lambda>r. case r of
      Inl e \<Rightarrow> Release (Return (Inl e))
    | Inr rules \<Rightarrow> Step (set_rules rules) (\<lambda>a. if rd_hosts (ad_rel a) = None then Release (Return (Inr ()))
        else bind (stmt (ListHosts E)) (\<lambda>r. case r of
            Inl e \<Rightarrow> Release (Return (Inl e))
          | Inr recs \<Rightarrow> Step (set_hosts recs) (\<lambda>_. Release (Return (Inr ()))))))) ListsRules"
    by (rule ok_bind[OF rules]) (elim exE conjE, simp only: sum.case then_rules)
  with assms(2) show ?thesis by (simp only: Reload_task_def ok.simps simp_thms)
qed

section \<open>Every request makes moves only\<close>

lemma ok_reload_and_answer: "never_fails E \<Longrightarrow> m \<in> {Calm, Must} \<Longrightarrow> ok E at_rest (reload_and_answer_task E b) m"
  unfolding reload_and_answer_task_def
  by (rule ok_bind[OF ok_Reload]) (auto simp: at_rest_def same_caches_as_def split: sum.split intro: look)

lemma ok_then_task:
  assumes "ok E settled p Calm" and "\<And>x m. m \<in> {Calm, Must} \<Longrightarrow> ok E at_rest (k x) m"
  shows "ok E at_rest (then_task p status k) Calm"
  unfolding then_task_def
  by (rule ok_bind[OF assms(1)]) (use assms(2) in \<open>auto simp: settled_def at_rest_def split: sum.split\<close>)

lemma ok_read_calm:
  assumes "\<And>s. store_ok E s \<Longrightarrow> store_ok E (snd (f s)) \<and> same_records s (snd (f s))"
  shows "ok E at_rest (stmt f) Calm"
  by (rule ok_stmt) (use assms in \<open>auto intro!: look\<close>)

text \<open>A request that only reads: the program behind the reading answers in the calm.\<close>

lemma ok_reads:
  "ok E at_rest (stmt (ListRules E)) Calm" "ok E at_rest (stmt (ListHosts E)) Calm"
  "ok E at_rest (stmt (GetRule E i)) Calm" "ok E at_rest (stmt (GetHost E i)) Calm"
  "ok E at_rest (stmt (GetAdminUser E)) Calm" "ok E at_rest (stmt (GetAdminPass E)) Calm"
  by (rule ok_read_calm, simp add: read_states)+

lemma ok_then_read:
  assumes "ok E at_rest p Calm" and "\<And>x. ok E at_rest (k x) Calm"
  shows "ok E at_rest (then_task p status k) Calm"
  unfolding then_task_def
  by (rule ok_bind[OF assms(1)]) (use assms(2) in \<open>auto simp: at_rest_def split: sum.split\<close>)

lemmas ok_ops = ok_CreateRule ok_UpdateRule ok_CreateHost ok_UpdateHost ok_delete

lemma move_same [simp]: "move E a a m m"
  by (rule look) (simp_all add: same_caches_as_def)

lemma ok_glance: "(\<And>a. ok E Q (n a) m) \<Longrightarrow> ok E Q (Step id n) m"
  by (auto intro!: exI[of _ m])

lemma ok_then_reload:
  "never_fails E \<Longrightarrow> ok E settled p Calm \<Longrightarrow>
     ok E at_rest (then_task p status (\<lambda>x. reload_and_answer_task E (b x))) Calm"
  by (rule ok_then_task) (simp_all add: ok_reload_and_answer)

lemma ok_handlers:
  assumes "never_fails (en_sql V)"
  shows "ok (en_sql V) at_rest (reload_task V rq) Calm" "ok (en_sql V) at_rest (rules_task V rq) Calm"
    "ok (en_sql V) at_rest (ruleByID_task V rq) Calm" "ok (en_sql V) at_rest (hosts_task V rq) Calm"
    "ok (en_sql V) at_rest (hostByID_task V rq) Calm" "ok (en_sql V) at_rest (status_task cfg rq) Calm"
proof -
  note ops = ok_ops[OF assms] and reload = ok_reload_and_answer[OF assms] ok_then_reload[OF assms]
  show "ok (en_sql V) at_rest (reload_task V rq) Calm" by (simp add: reload_task_def reload)
  show "ok (en_sql V) at_rest (rules_task V rq) Calm" "ok (en_sql V) at_rest (hosts_task V rq) Calm"
    by (simp_all add: rules_task_def hosts_task_def ok_then_read ok_reads ops reload split: sum.split)
  show "ok (en_sql V) at_rest (ruleByID_task V rq) Calm" "ok (en_sql V) at_rest (hostByID_task V rq) Calm"
    by (simp_all add: ruleByID_task_def hostByID_task_def Let_def ok_then_read ok_reads ops reload
        split: sum.split option.split)
  show "ok (en_sql V) at_rest (status_task cfg rq) Calm"
    by (simp add: status_task_def Let_def ok_glance del: ok.simps(2))
qed

lemma ok_then_calm:
  assumes "ok E at_rest p Calm" and "\<And>x. ok E at_rest (k x) Calm"
  shows "ok E at_rest (bind p k) Calm"
  by (rule ok_bind[OF assms(1)]) (simp add: assms(2))

lemma ok_account_task: "ok (en_sql V) at_rest (account_task V rq) Calm"
  by (auto simp: account_task_def ok_account ok_reads split: sum.split intro!: ok_then_calm)

lemma ok_route_task:
  assumes "never_fails (en_sql V)"
  shows "ok (en_sql V) at_rest (route_task cfg V r rq) Calm"
  using ok_handlers[OF assms] ok_account_task by (cases r) simp_all

theorem ok_admin_task:
  assumes "never_fails (en_sql V)"
  shows "ok (en_sql V) at_rest (admin_task cfg V rq) Calm"
  using ok_route_task[OF assms]
  by (auto simp: admin_task_def auth_task_def ok_reads split: dispatch.split option.split sum.split
    intro!: ok_then_calm)

end
