(* ===== verification/AdminExamples.thy ===== *)
theory AdminExamples
  imports AdminProps
begin

text \<open>
  A management server at work: a concrete store, decoder and requests, on which the properties of
  the server are applied.
\<close>

definition example_decoders :: admin_env where
  "example_decoders =
     \<lparr>en_sql = quiet,
      en_RuleCreate = (\<lambda>_. Inr example_create),
      en_RuleUpdate = (\<lambda>_. Inr \<lparr>ru_Domain = None, ru_Mode = Some ''regex'', ru_Upstream = None, ru_Enabled = None\<rparr>),
      en_HostCreate = (\<lambda>_. Inr example_host_create),
      en_HostUpdate = (\<lambda>_. Inl ''EOF''),
      en_Auth = (\<lambda>_. Inr \<lparr>au_OldUser = ''admin'', au_OldPassword = ''123456'',
                           au_NewUser = ''root'', au_NewPassword = ''s3cret''\<rparr>),
      en_Static = (\<lambda>name. Inl ''file does not exist'')\<rparr>"

definition example_admin :: "db \<Rightarrow> admin" where
  "example_admin s =
     \<lparr>ad_rel = NewReloaderWithHosts s RuleCache_New NewHostCache, ad_notify = NewNotify,
      ad_forward = \<lparr>fc_n = 0\<rparr>, ad_local = \<lparr>fc_n = 0\<rparr>\<rparr>"

definition example_request :: "string \<Rightarrow> string \<Rightarrow> (string \<times> string) list \<Rightarrow> http_request" where
  "example_request meth path hdr =
     \<lparr>rq_Method = meth, rq_Path = path, rq_Query = [], rq_Header = hdr, rq_Body = (''{}'', None)\<rparr>"

definition example_config :: config where
  "example_config = finish_config (parsed_config (example_os []) [])"

definition as_admin :: "(string \<times> string) list" where
  "as_admin = [(''Authorization'', basic_header ''admin'' ''123456'')]"

lemma example_env_sql [simp]: "en_sql example_decoders = quiet"
  by (simp add: example_decoders_def)

lemma example_request_simps [simp]:
  "rq_Method (example_request m p h) = m" "rq_Path (example_request m p h) = p"
  "rq_Header (example_request m p h) = h" "rq_Body (example_request m p h) = (''{}'', None)"
  by (simp_all add: example_request_def)

lemma example_admin_simps [simp]: "ad_store (example_admin s) = s"
  by (simp add: example_admin_def NewReloaderWithHosts_def)

theorem no_access_without_credentials_witness:
  "fst (buildAdminMux example_config example_decoders (example_request ''DELETE'' ''/api/rules/1'' []) (example_admin one_rule_db)) =
     unauthorized"
proof -
  let ?rq = "example_request ''DELETE'' ''/api/rules/1'' []"
  have b: "BasicAuth ?rq = None" by (simp add: BasicAuth_def get_first_def)
  then have "\<not> granted (en_sql example_decoders) ?rq (example_admin one_rule_db)" by (simp add: granted_def)
  note refused = no_access_without_credentials[OF this, of example_config]
  have "mux_dispatch admin_routes ?rq = Serve RuleByID" by code_simp
  with refused b show ?thesis by (simp add: unauthorized_def text_plain_def)
qed

theorem bad_rule_refused_witness:
  "rs_Status (fst (rulesHandler (example_decoders\<lparr>en_RuleCreate := \<lambda>_. Inr (example_create\<lparr>rc_Mode := ''regex''\<rparr>)\<rparr>)
     (example_request ''POST'' ''/api/rules'' []) (example_admin account_db))) = 400"
proof -
  let ?V = "example_decoders\<lparr>en_RuleCreate := \<lambda>_. Inr (example_create\<lparr>rc_Mode := ''regex''\<rparr>)\<rparr>"
  have "en_RuleCreate ?V (rq_Body (example_request ''POST'' ''/api/rules'' [])) = Inr (example_create\<lparr>rc_Mode := ''regex''\<rparr>)"
    by simp
  from bad_rule_refused[OF _ this] show ?thesis by (simp add: example_create_def)
qed

theorem update_not_validated_witness:
  "\<exists>r. rules_map quiet (ad_store (snd (ruleByIDHandler example_decoders (example_request ''PUT'' ''/api/rules/1'' [])
          (example_admin one_rule_db)))) 1 = Some r \<and> dr_Mode r = ''regex''"
proof -
  let ?rq = "example_request ''PUT'' ''/api/rules/1'' []" and ?a = "example_admin one_rule_db"
  have st: "rs_Status (fst (ruleByIDHandler example_decoders ?rq ?a)) = 200" by code_simp
  have p: "drop (length rules_prefix) (rq_Path ?rq) = ''1''" by code_simp
  have i: "ParseInt (drop (length rules_prefix) (rq_Path ?rq)) = Some 1" unfolding p by code_simp
  have ok: "store_ok (en_sql example_decoders) (ad_store ?a)"
    by (simp add: store_ok_def example_dbs_wf)
  from update_not_validated[OF ok _ _ i _ _ _ st] p show ?thesis
    by (fastforce simp: example_decoders_def)
qed

theorem password_change_effective_witness:
  "let a' = snd (authHandler example_decoders (example_request ''PUT'' ''/api/auth'' as_admin) (example_admin account_db)) in
     fst (auth quiet (statusHandler example_config) (example_request ''GET'' ''/api/status'' as_admin) a') = unauthorized \<and>
     rs_Status (fst (auth quiet (statusHandler example_config)
       (example_request ''GET'' ''/api/status'' [(''Authorization'', basic_header ''root'' ''s3cret'')]) a')) = 200"
proof -
  let ?rq = "example_request ''PUT'' ''/api/auth'' as_admin" and ?a = "example_admin account_db"
  have "rs_Status (fst (authHandler example_decoders ?rq ?a)) = 200" by code_simp
  note new = password_change_effective[OF this, of "statusHandler example_config"]
  have old_cred: "BasicAuth (example_request ''GET'' ''/api/status'' as_admin) = Some (''admin'', ''123456'')"
    and new_cred: "BasicAuth (example_request ''GET'' ''/api/status'' [(''Authorization'', basic_header ''root'' ''s3cret'')]) =
      Some (''root'', ''s3cret'')"
    by (rule BasicAuth_header; simp add: as_admin_def get_first_def)+
  have status: "rs_Status (fst (statusHandler example_config
      (example_request ''GET'' ''/api/status'' [(''Authorization'', basic_header ''root'' ''s3cret'')]) b)) = 200" for b
    by (simp add: statusHandler_def Let_def)
  have q: "stmt_error quiet n = None" for n using example_env_never_fails by (simp add: never_fails_def)
  from new[of "example_request ''GET'' ''/api/status'' as_admin"]
    new[of "example_request ''GET'' ''/api/status'' [(''Authorization'', basic_header ''root'' ''s3cret'')]"]
    account_db_has_account old_cred new_cred
  show ?thesis by (auto simp: Let_def q status example_decoders_def)
qed

definition short_db :: db where
  "short_db = account_db\<lparr>app_config := [(adminUserKey, Some []), (adminPassKey, Some [])]\<rparr>"

theorem short_account_opens_witness:
  "\<exists>s. auth quiet (statusHandler example_config) (example_request ''GET'' ''/'' [(''Authorization'', basic_header [] [])])
        (example_admin short_db) =
      statusHandler example_config (example_request ''GET'' ''/'' [(''Authorization'', basic_header [] [])])
        (with_store (example_admin short_db) s)"
proof -
  have d: "StdDecodeString [] = Inr []" by code_simp
  have b: "BasicAuth (example_request ''GET'' ''/'' [(''Authorization'', basic_header [] [])]) = Some ([], [])"
    by (rule BasicAuth_header) (simp_all add: get_first_def)
  have u: "map_of (app_config (ad_store (example_admin short_db))) adminUserKey = Some (Some [])"
    and p: "map_of (app_config (ad_store (example_admin short_db))) adminPassKey = Some (Some [])"
    by (simp_all add: short_db_def)
  from short_account_opens[OF example_env_never_fails u p d _ d _ b] show ?thesis
    by (auto simp: NonceSize_def)
qed

theorem answered_requests_coherent_witness:
  "coherent quiet (ad_rel (snd (buildAdminMux example_config example_decoders
     (example_request ''POST'' ''/api/rules'' as_admin) (example_admin account_db))))"
proof -
  let ?rq = "example_request ''POST'' ''/api/rules'' as_admin" and ?a = "example_admin account_db"
  have m: "mux_dispatch admin_routes ?rq = Serve Rules" by code_simp
  have "rs_Status (fst (auth quiet (rulesHandler example_decoders) ?rq ?a)) = 200" by code_simp
  then have st: "rs_Status (fst (buildAdminMux example_config example_decoders ?rq ?a)) = 200"
    by (simp add: buildAdminMux_def m)
  have "db_wf account_db"
    unfolding account_db_def by (rule db_wf_initAdminAccount[OF db_wf_empty])
  then have ok: "store_ok (en_sql example_decoders) (ad_store ?a)"
    by (simp add: store_ok_def)
  have "coherent quiet (ad_rel ?a)" by code_simp
  with answered_requests_coherent[OF ok _ st] show ?thesis by simp
qed

end
