(* ===== verification/Concurrent.thy ===== *)
theory Concurrent
  imports ReloadModes AdminExamples
begin

text \<open>
  The management server and the resolver at work at the same time: any number of management requests
  as goroutines, statement by statement, on one store, one lock and the two caches, with the
  lookups of DNS queries between any two of their steps. The invariant says who will still reload
  when a cache is behind the store; it is proved with the modes of the theory \<open>ReloadModes\<close> as ghost
  state, and holds in every reachable state.
\<close>

section \<open>The system\<close>

text \<open>A DNS query looks names up in the rule cache, under the read lock, and in the host cache, and
  counts. Each of these is a step of its own, at any time.\<close>

definition match_in :: "string \<Rightarrow> admin \<Rightarrow> admin" where
  "match_in name a =
     a\<lparr>ad_rel := (ad_rel a)\<lparr>rd_cache := snd (RuleCache_Match (rd_cache (ad_rel a)) name)\<rparr>\<rparr>"

definition lookup_in :: "string \<Rightarrow> string \<Rightarrow> admin \<Rightarrow> admin" where
  "lookup_in name qt a =
     a\<lparr>ad_rel := (ad_rel a)\<lparr>rd_hosts := map_option (\<lambda>h. snd (HostCache_Lookup h name qt)) (rd_hosts (ad_rel a))\<rparr>\<rparr>"

type_synonym server = "(admin, http_response) system"

inductive server_step :: "config \<Rightarrow> admin_env \<Rightarrow> server \<Rightarrow> server \<Rightarrow> bool" for cfg V S where
  request: "sy_reqs S t = None \<Longrightarrow> server_step cfg V S (S\<lparr>sy_reqs := (sy_reqs S)(t \<mapsto> admin_task cfg V rq)\<rparr>)"
| go: "go_step t S S' \<Longrightarrow> server_step cfg V S S'"
| match: "sy_lock S = None \<Longrightarrow> server_step cfg V S (S\<lparr>sy_state := match_in name (sy_state S)\<rparr>)"
| lookup: "server_step cfg V S (S\<lparr>sy_state := lookup_in name qt (sy_state S)\<rparr>)"
| counted: "server_step cfg V S (S\<lparr>sy_state := (sy_state S)\<lparr>ad_forward := f, ad_local := l\<rparr>\<rparr>)"

inductive_cases server_stepE: "server_step cfg V S S'"

lemmas server_step_cases =
  server_stepE [consumes 1, case_names request go match lookup counted]

definition idle :: "admin \<Rightarrow> server" where
  "idle a = \<lparr>sy_state = a, sy_lock = None, sy_reqs = Map.empty\<rparr>"

section \<open>The invariant\<close>

text \<open>Some goroutine will list both tables; or what was listed and what is cached is what the tables
  hold.\<close>

definition owed :: "db \<Rightarrow> (nat \<Rightarrow> mode) \<Rightarrow> bool" where
  "owed s M \<longleftrightarrow> (\<exists>t. need s (M t))"

definition rules_fresh :: "sql_env \<Rightarrow> (nat \<Rightarrow> mode) \<Rightarrow> admin \<Rightarrow> bool" where
  "rules_fresh E M a \<longleftrightarrow>
     (\<forall>t rs. M t = HasRules rs \<longrightarrow> rs = stored_rules E (ad_store a)) \<and>
     (rules_coherent E (ad_store a) (rd_cache (ad_rel a)) \<or> (\<exists>t rs. M t = HasRules rs))"

definition hosts_fresh :: "sql_env \<Rightarrow> (nat \<Rightarrow> mode) \<Rightarrow> admin \<Rightarrow> bool" where
  "hosts_fresh E M a \<longleftrightarrow>
     (\<forall>t hs. M t = HasHosts hs \<longrightarrow> hs = stored_hosts E (ad_store a)) \<and>
     (hosts_coherent E (ad_store a) (rd_hosts (ad_rel a)) \<or>
      (\<exists>t. (\<exists>rs. M t = HasRules rs) \<or> M t = ListsHosts \<or> (\<exists>hs. M t = HasHosts hs)))"

definition fresh :: "sql_env \<Rightarrow> (nat \<Rightarrow> mode) \<Rightarrow> admin \<Rightarrow> bool" where
  "fresh E M a \<longleftrightarrow> owed (ad_store a) M \<or> rules_fresh E M a \<and> hosts_fresh E M a"

lemma same_records_facts:
  assumes "same_records s s'"
  shows "need s' m = need s m" "stored_rules E s' = stored_rules E s" "stored_hosts E s' = stored_hosts E s"
    "rules_coherent E s' c = rules_coherent E s c" "hosts_coherent E s' h = hosts_coherent E s h"
proof -
  show n: "need s' m = need s m" using assms by (cases m) (simp_all add: same_records_def)
  show r: "stored_rules E s' = stored_rules E s" "stored_hosts E s' = stored_hosts E s"
    using assms by (simp_all add: same_records_def stored_rules_def stored_hosts_def)
  then show "rules_coherent E s' c = rules_coherent E s c" "hosts_coherent E s' h = hosts_coherent E s h"
    by (simp_all add: rules_coherent_def hosts_coherent_def split: option.split)
qed

lemma same_caches_coherent:
  assumes "same_caches_as a b"
  shows "rules_coherent E s (rd_cache (ad_rel b)) = rules_coherent E s (rd_cache (ad_rel a))"
    and "hosts_coherent E s (rd_hosts (ad_rel b)) = hosts_coherent E s (rd_hosts (ad_rel a))"
  using assms by (auto simp: same_caches_as_def rules_coherent_def hosts_coherent_def split: option.splits)

text \<open>Every move keeps it, when the lock has one holder.\<close>

lemma owed_move:
  assumes "owed s M" and "same_records s s'" and "need s (M t) \<Longrightarrow> need s m'"
  shows "owed s' (M(t := m'))"
proof -
  from assms(1) obtain u where "need s (M u)" by (auto simp: owed_def)
  with assms(3) have "need s ((M(t := m')) u)" by (cases "u = t") simp_all
  with same_records_facts(1)[OF assms(2)] show ?thesis unfolding owed_def by blast
qed

lemma fresh_by:
  assumes "fresh E M a" and "same_records (ad_store a) (ad_store b)" and "need (ad_store a) (M t) \<Longrightarrow> need (ad_store a) m'"
    and "rules_fresh E M a \<Longrightarrow> hosts_fresh E M a \<Longrightarrow> rules_fresh E (M(t := m')) b \<and> hosts_fresh E (M(t := m')) b"
  shows "fresh E (M(t := m')) b"
  using assms owed_move[OF _ assms(2,3)] unfolding fresh_def by blast

lemma fresh_look: "fresh E M a \<Longrightarrow> same_records (ad_store a) (ad_store b) \<Longrightarrow> same_caches_as a b \<Longrightarrow> fresh E M b"
  by (simp add: fresh_def owed_def rules_fresh_def hosts_fresh_def same_records_facts same_caches_coherent)

definition only_holder :: "nat \<Rightarrow> (nat \<Rightarrow> mode) \<Rightarrow> bool" where
  "only_holder t M \<longleftrightarrow> (\<forall>u. u \<noteq> t \<longrightarrow> \<not> locked (M u))"

lemma only_holder: "only_holder t M \<Longrightarrow> M u = x \<Longrightarrow> locked x \<Longrightarrow> u = t"
  by (auto simp: only_holder_def)

lemma fresh_rules_set:
  assumes "fresh E M a" and "M t = HasRules rs" and "only_holder t M" and "same_records (ad_store a) (ad_store b)"
    and "rule_tables (rd_cache (ad_rel b)) = rule_tables (RuleCache_Load RuleCache_New rs)"
    and "rd_hosts (ad_rel b) = rd_hosts (ad_rel a)"
  shows "fresh E (M(t := if rd_hosts (ad_rel a) = None then Unlocks else ListsHosts)) b"
proof (rule fresh_by[OF assms(1,4)], goal_cases owes fresh)
  case fresh
  note others = only_holder[OF assms(3)]
  have no: "M u \<noteq> HasRules qs" "M u \<noteq> HasHosts hs" "M u \<noteq> ListsHosts" if "u \<noteq> t" for u qs hs
    using others[of u] that by auto
  have "rs = stored_rules E (ad_store b)"
    using fresh assms(2,4) by (auto simp: rules_fresh_def same_records_facts)
  with assms(5) have "rules_coherent E (ad_store b) (rd_cache (ad_rel b))" by (simp add: rules_coherent_def)
  with no show ?case
    by (cases "rd_hosts (ad_rel a)") (auto simp: rules_fresh_def hosts_fresh_def hosts_coherent_def assms(6))
qed (use assms(2) in simp)

lemma fresh_hosts_listed:
  assumes "fresh E M a" and "M t = ListsHosts" and "only_holder t M" and "same_records (ad_store a) (ad_store b)"
    and "same_caches_as a b"
  shows "fresh E (M(t := HasHosts (stored_hosts E (ad_store a)))) b"
proof (rule fresh_by[OF assms(1,4)], goal_cases owes fresh)
  case fresh
  note others = only_holder[OF assms(3)]
  have no: "M u \<noteq> HasRules rs" for u rs using others[of u "HasRules rs"] assms(2) by auto
  with fresh assms(4,5) have "rules_coherent E (ad_store b) (rd_cache (ad_rel b))"
    by (simp add: rules_fresh_def same_records_facts same_caches_coherent)
  with no others assms(4) show ?case by (auto simp: rules_fresh_def hosts_fresh_def same_records_facts)
qed (use assms(2) in simp)

lemma fresh_hosts_set:
  assumes "fresh E M a" and "M t = HasHosts hs" and "only_holder t M" and "same_records (ad_store a) (ad_store b)"
    and "rd_cache (ad_rel b) = rd_cache (ad_rel a)"
    and load: "map_option host_tables_of (rd_hosts (ad_rel b)) =
      map_option (\<lambda>_. host_tables_of (HostCache_Load NewHostCache hs)) (rd_hosts (ad_rel a))"
  shows "fresh E (M(t := Unlocks)) b"
proof (rule fresh_by[OF assms(1,4)], goal_cases owes fresh)
  case fresh
  note others = only_holder[OF assms(3)]
  have no: "M u \<noteq> HasRules rs" for u rs using others[of u "HasRules rs"] assms(2) by auto
  with fresh assms(4,5) have "rules_coherent E (ad_store b) (rd_cache (ad_rel b))"
    by (simp add: rules_fresh_def same_records_facts)
  with no have "rules_fresh E (M(t := Unlocks)) b" by (simp add: rules_fresh_def)
  moreover have "hs = stored_hosts E (ad_store b)"
    using fresh assms(2,4) by (auto simp: hosts_fresh_def same_records_facts)
  with load have "hosts_coherent E (ad_store b) (rd_hosts (ad_rel b))"
    by (cases "rd_hosts (ad_rel a)"; cases "rd_hosts (ad_rel b)") (auto simp: hosts_coherent_def)
  with others have "hosts_fresh E (M(t := Unlocks)) b" by (auto simp: hosts_fresh_def)
  ultimately show ?case by simp
qed (use assms(2) in simp)

lemma fresh_move:
  assumes fresh: "fresh E M a" and "move E a b (M t) m'" and one: "locked (M t) \<Longrightarrow> only_holder t M"
  shows "fresh E (M(t := m')) b"
  using assms(2)
proof (cases rule: move.cases)
  case look
  with fresh_look[OF fresh] show ?thesis by simp
next
  case change
  then have "owed (ad_store b) (M(t := m'))" by (auto simp: owed_def)
  then show ?thesis by (simp add: fresh_def)
next
  case settle
  show ?thesis
  proof (rule fresh_by[OF fresh settle(1)], goal_cases owes fresh)
    case fresh
    have "(M(t := m')) u = x \<longleftrightarrow> M u = x" if "locked x" for u x using settle that by auto
    with fresh settle show ?case
      by (simp add: rules_fresh_def hosts_fresh_def same_records_facts same_caches_coherent del: fun_upd_apply)
  qed (use settle in auto)
next
  case (rules_listed rs)
  with one have "M u = x \<Longrightarrow> locked x \<Longrightarrow> u = t" for u x by (auto dest: only_holder)
  with rules_listed have "rules_fresh E (M(t := m')) b" "hosts_fresh E (M(t := m')) b"
    by (auto simp: rules_fresh_def same_records_facts) (fastforce simp: hosts_fresh_def)
  then show ?thesis by (simp add: fresh_def)
next
  case (rules_set rs)
  with fresh_rules_set[OF fresh] one show ?thesis by simp
next
  case (hosts_listed hs)
  with fresh_hosts_listed[OF fresh] one show ?thesis by simp
next
  case (hosts_set hs)
  with fresh_hosts_set[OF fresh] one show ?thesis by simp
qed

lemma fresh_unlock:
  assumes "fresh E M a" and "M t = Unlocks"
  shows "fresh E (M(t := Calm)) a"
proof (rule fresh_by[OF assms(1)], goal_cases same owes fresh)
  case fresh
  have "(M(t := Calm)) u = x \<longleftrightarrow> M u = x" if "locked x" "x \<noteq> Unlocks" for u x using assms(2) that by auto
  with fresh show ?case by (simp add: rules_fresh_def hosts_fresh_def del: fun_upd_apply)
qed (use assms(2) in simp_all)

fun ok_request :: "sql_env \<Rightarrow> http_response task option \<Rightarrow> mode \<Rightarrow> bool" where
  "ok_request E None m \<longleftrightarrow> m = Calm"
| "ok_request E (Some p) m \<longleftrightarrow> ok E at_rest p m"

definition reload_owed :: "config \<Rightarrow> admin_env \<Rightarrow> server \<Rightarrow> (nat \<Rightarrow> mode) \<Rightarrow> bool" where
  "reload_owed cfg V S M \<longleftrightarrow>
     store_ok (en_sql V) (ad_store (sy_state S)) \<and>
     (\<forall>t. ok_request (en_sql V) (sy_reqs S t) (M t)) \<and>
     (\<forall>t. locked (M t) \<longrightarrow> sy_lock S = Some t) \<and>
     fresh (en_sql V) M (sy_state S)"

text \<open>A step of a goroutine is a move of its mode; the other goroutines keep theirs.\<close>

lemma reload_owed_upd:
  assumes "reload_owed cfg V S M" and "store_ok (en_sql V) (ad_store b)"
    and "ok_request (en_sql V) q m"
    and "locked m \<Longrightarrow> l = Some t" and "\<And>u. u \<noteq> t \<Longrightarrow> locked (M u) \<Longrightarrow> l = Some u"
    and "fresh (en_sql V) (M(t := m)) b"
  shows "reload_owed cfg V (S\<lparr>sy_state := b, sy_lock := l, sy_reqs := (sy_reqs S)(t := q)\<rparr>) (M(t := m))"
  using assms unfolding reload_owed_def by auto

lemma reload_owed_go:
  assumes owed: "reload_owed cfg V S M" and "go_step t S S'"
  shows "\<exists>M'. reload_owed cfg V S' M'"
proof -
  let ?E = "en_sql V" and ?a = "sy_state S"
  have store: "store_ok ?E (ad_store ?a)" and fresh: "fresh ?E M ?a"
    and lock: "\<And>u. locked (M u) \<Longrightarrow> sy_lock S = Some u"
    using owed by (auto simp: reload_owed_def)
  have prog: "ok ?E at_rest p (M t)" if "sy_reqs S t = Some p" for p
    using owed that unfolding reload_owed_def by (metis ok_request.simps(2))
  have one: "only_holder t M" if "locked (M t)" 
    using lock that unfolding only_holder_def by (metis option.inject)
  note upd = reload_owed_upd[OF owed]
  from assms(2) show ?thesis
  proof (cases rule: go_step_cases)
    case (step u n)
    from prog[OF step(2)] store obtain m where m: "move ?E ?a (u ?a) (M t) m" "ok ?E at_rest (n ?a) m"
      and s: "store_ok ?E (ad_store (u ?a))" by auto
    have l: "locked m \<Longrightarrow> sy_lock S = Some t" using m(1) lock[of t] by (cases rule: move.cases) (auto split: if_splits)
    from upd[OF s _ l lock fresh_move[OF fresh m(1) one], of "Some (n ?a)"] m(2) step(1) show ?thesis by auto
  next
    case (read n)
    from upd[OF store, of "Some (n ?a)" "M t" "sy_lock S" t] prog[OF read(2)] lock fresh read(1)
    show ?thesis by (auto intro!: exI[of _ M])
  next
    case (acquire p)
    have f: "fresh ?E (M(t := ListsRules)) ?a" by (auto simp: fresh_def owed_def)
    from upd[OF store _ _ _ f, of "Some p" "Some t"] prog[OF acquire(2)] lock acquire show ?thesis by auto
  next
    case (release p)
    have m: "M t = Unlocks" "ok ?E at_rest p Calm" using prog[OF release(2)] by auto
    from upd[OF store _ _ _ fresh_unlock[OF fresh m(1)], of "Some p" None] m one release(1) show ?thesis by (auto simp: only_holder_def)
  next
    case (answer x)
    have "M t = Calm" using prog[OF answer(2)] by simp
    then have "M(t := Calm) = M" by (simp add: fun_upd_idem)
    with upd[OF store, of None Calm "sy_lock S" t] lock fresh answer(1) show ?thesis
      by (auto intro!: exI[of _ M])
  qed
qed

lemma match_in_keeps: "same_records (ad_store a) (ad_store (match_in name a))" "same_caches_as a (match_in name a)"
  by (simp_all add: match_in_def same_caches_as_def Match_tables)

lemma lookup_in_keeps: "same_records (ad_store a) (ad_store (lookup_in name qt a))" "same_caches_as a (lookup_in name qt a)"
  by (simp_all add: lookup_in_def same_caches_as_def Lookup_tables option.map_comp comp_def)

lemma reload_owed_look:
  assumes "reload_owed cfg V S M" and "ad_store b = ad_store (sy_state S)" and "same_caches_as (sy_state S) b"
  shows "reload_owed cfg V (S\<lparr>sy_state := b\<rparr>) M"
  using assms fresh_look[of "en_sql V" M "sy_state S" b] by (simp add: reload_owed_def)

lemma reload_owed_step:
  assumes "never_fails (en_sql V)" and "server_step cfg V S S'" and "reload_owed cfg V S M"
  shows "\<exists>M'. reload_owed cfg V S' M'"
  using assms(2)
proof (cases rule: server_step_cases)
  case (request t rq)
  then have "M t = Calm" using assms(3) unfolding reload_owed_def by (metis ok_request.simps(1))
  with request have "reload_owed cfg V S' M"
    using assms(3) ok_admin_task[OF assms(1), of cfg rq] by (simp add: reload_owed_def)
  then show ?thesis by blast
next
  case (go t)
  then show ?thesis by (rule reload_owed_go[OF assms(3)])
next
  case (match name)
  then have "reload_owed cfg V S' M"
    using reload_owed_look[OF assms(3) _ match_in_keeps(2)] by (simp add: match_in_def)
  then show ?thesis by blast
next
  case (lookup name qt)
  then have "reload_owed cfg V S' M"
    using reload_owed_look[OF assms(3) _ lookup_in_keeps(2)] by (simp add: lookup_in_def)
  then show ?thesis by blast
next
  case (counted f l)
  have "reload_owed cfg V S' M" unfolding counted
    by (rule reload_owed_look[OF assms(3)]) (simp_all add: same_caches_as_def)
  then show ?thesis by blast
qed

theorem reload_owed_reachable:
  assumes "never_fails (en_sql V)" and "store_ok (en_sql V) (ad_store a)" and "coherent (en_sql V) (ad_rel a)"
    and "(server_step cfg V)\<^sup>*\<^sup>* (idle a) S"
  shows "\<exists>M. reload_owed cfg V S M"
  using assms(4)
proof (induction rule: rtranclp_induct)
  case base
  have "reload_owed cfg V (idle a) (\<lambda>_. Calm)"
    using assms(2,3) by (simp add: reload_owed_def idle_def fresh_def rules_fresh_def hosts_fresh_def coherent_def)
  then show ?case by blast
next
  case (step S S')
  then show ?case using reload_owed_step[OF assms(1)] by blast
qed

text \<open>When every request is answered, nothing is owed.\<close>

lemma nothing_owed:
  assumes "reload_owed cfg V S M" and "sy_reqs S = Map.empty"
  shows "coherent (en_sql V) (ad_rel (sy_state S))" and "store_ok (en_sql V) (ad_store (sy_state S))"
proof -
  have "M t = Calm" for t using assms unfolding reload_owed_def by (metis ok_request.simps(1))
  with assms(1) show "coherent (en_sql V) (ad_rel (sy_state S))" "store_ok (en_sql V) (ad_store (sy_state S))"
    by (simp_all add: reload_owed_def fresh_def owed_def rules_fresh_def hosts_fresh_def coherent_def)
qed

lemma quiescent_coherent:
  assumes "never_fails (en_sql V)" and "store_ok (en_sql V) (ad_store a)" and "coherent (en_sql V) (ad_rel a)"
    and "(server_step cfg V)\<^sup>*\<^sup>* (idle a) S" and "sy_reqs S = Map.empty"
  shows "coherent (en_sql V) (ad_rel (sy_state S))"
  using reload_owed_reachable[OF assms(1-4)] nothing_owed(1)[OF _ assms(5)] by blast

section \<open>Every request can be answered\<close>

text \<open>This part needs nothing of the driver: every program is bracketed, failing listings included.\<close>

lemma sched_ok_server:
  assumes "sched_ok S" and "server_step cfg V S S'"
  shows "sched_ok S'"
  using assms(2)
proof (cases rule: server_step_cases)
  case (request t rq)
  with sched_ok_request[OF assms(1) _ bracket_admin_task] show ?thesis by simp
next
  case (go t)
  with sched_ok_step[OF assms(1)] show ?thesis by simp
qed (use assms(1) in \<open>simp_all add: sched_ok_def\<close>)

lemma sched_ok_reachable: "(server_step cfg V)\<^sup>*\<^sup>* (idle a) S \<Longrightarrow> sched_ok S"
  by (induction rule: rtranclp_induct) (simp_all add: sched_ok_server, simp add: sched_ok_def idle_def)

lemma some_step_server: "some_step\<^sup>*\<^sup>* S S' \<Longrightarrow> (server_step cfg V)\<^sup>*\<^sup>* S S'"
  by (rule rtranclp_mono[THEN predicate2D]) (auto simp: some_step_def intro: server_step.go)

text \<open>A request that is alone.\<close>

lemma request_alone: "(server_step cfg V)\<^sup>*\<^sup>* (idle a) (idle (snd (buildAdminMux cfg V rq a)))"
proof -
  let ?S = "(idle a)\<lparr>sy_reqs := [0 \<mapsto> admin_task cfg V rq]\<rparr>"
  have req: "server_step cfg V (idle a) ?S"
    using server_step.request[of "idle a" 0 cfg V rq] by (simp add: idle_def)
  have "(go_step 0)\<^sup>*\<^sup>* ?S (ended 0 (run (admin_task cfg V rq) (sy_state ?S)) ?S)"
    by (rule run_alone[OF _ bracket_admin_task]) (simp_all add: idle_def)
  moreover have "go_step 0 (ended 0 r ?S) (idle (snd r))" for r
    using go_step.answer[of "ended 0 r ?S" 0 "fst r"] by (simp add: ended_def idle_def)
  ultimately have "(go_step 0)\<^sup>*\<^sup>* ?S (idle (snd (run (admin_task cfg V rq) (sy_state ?S))))"
    by (metis rtranclp.rtrancl_into_rtrancl)
  then have "(go_step 0)\<^sup>*\<^sup>* ?S (idle (snd (buildAdminMux cfg V rq a)))" by (simp add: run_admin_task idle_def)
  then have "(server_step cfg V)\<^sup>*\<^sup>* ?S (idle (snd (buildAdminMux cfg V rq a)))"
    by (rule rtranclp_mono[THEN predicate2D, rotated]) (auto intro: server_step.go)
  with req show ?thesis by (rule converse_rtranclp_into_rtranclp)
qed

section \<open>Properties\<close>

text \<open>C8: no schedule leaves the caches behind the store. The server starts with coherent caches; any
  number of requests come, on any routes, and run in any order, statement by statement, with DNS
  queries between their steps. Whenever every request is answered, both caches answer each lookup
  what the tables say, provided that no statement fails: a goroutine that changed a table lists
  both under the lock before it answers. Without the proviso it does not hold, since an insertion can be
  answered 500 without a reload (C38).\<close>

theorem quiescent_caches_coherent:
  assumes "never_fails (en_sql V)" and "store_ok (en_sql V) (ad_store a)" and "coherent (en_sql V) (ad_rel a)"
    and "(server_step cfg V)\<^sup>*\<^sup>* (idle a) S" and "sy_reqs S = Map.empty"
  shows "rule_spec (stored_rules (en_sql V) (ad_store (sy_state S))) (normalize_domain name)
      (fst (RuleCache_Match (rd_cache (ad_rel (sy_state S))) name)) \<and>
    (case rd_hosts (ad_rel (sy_state S)) of None \<Rightarrow> True
     | Some h \<Rightarrow> host_spec (stored_hosts (en_sql V) (ad_store (sy_state S))) (normalize_domain name) (query_type qt)
         (fst (HostCache_Lookup h name qt)))"
  using quiescent_coherent[OF assms] coherent_Match coherent_Lookup by (simp split: option.split)

text \<open>C19: requests never wait for each other for ever, whatever the driver reports: from every
  reachable state the goroutines under way can run to their answers, without a new request, and
  the lock is free at the end, a \<open>Reload\<close> that fails included. When no statement fails, the caches
  are then coherent.\<close>

theorem requests_can_finish:
  assumes "(server_step cfg V)\<^sup>*\<^sup>* (idle a) S"
  shows "\<exists>S'. some_step\<^sup>*\<^sup>* S S' \<and> sy_reqs S' = Map.empty \<and> sy_lock S' = None \<and>
    (never_fails (en_sql V) \<and> store_ok (en_sql V) (ad_store a) \<and> coherent (en_sql V) (ad_rel a) \<longrightarrow>
      coherent (en_sql V) (ad_rel (sy_state S')))"
proof -
  from finish_all[OF sched_ok_reachable[OF assms]] obtain S'
    where S': "some_step\<^sup>*\<^sup>* S S'" "sy_reqs S' = Map.empty" "sy_lock S' = None" by blast
  have "(server_step cfg V)\<^sup>*\<^sup>* (idle a) S'" using assms some_step_server[OF S'(1)] by (rule rtranclp_trans)
  with quiescent_coherent[of V a cfg S'] S' show ?thesis by blast
qed

section \<open>Witnesses\<close>

lemma example_start:
  "store_ok quiet (ad_store (example_admin account_db))" "coherent quiet (ad_rel (example_admin account_db))"
proof -
  have "db_wf account_db" unfolding account_db_def by (rule db_wf_initAdminAccount[OF db_wf_empty])
  then show "store_ok quiet (ad_store (example_admin account_db))" by (simp add: store_ok_def)
  show "coherent quiet (ad_rel (example_admin account_db))" by code_simp
qed

abbreviation create_request :: http_request where
  "create_request \<equiv> example_request ''POST'' ''/api/rules'' as_admin"

theorem quiescent_caches_coherent_witness:
  "rule_spec (stored_rules quiet (ad_store (snd (buildAdminMux example_config example_decoders create_request (example_admin account_db)))))
     ''corp.lan.'' (fst (RuleCache_Match (rd_cache (ad_rel (snd (buildAdminMux example_config example_decoders create_request
       (example_admin account_db))))) ''corp.lan''))"
proof -
  note run = request_alone[of example_config example_decoders "example_admin account_db" create_request]
  have "normalize_domain ''corp.lan'' = ''corp.lan.''" by code_simp
  with quiescent_caches_coherent[OF _ _ _ run, of "''corp.lan''"] example_start example_env_never_fails
  show ?thesis by (simp add: idle_def)
qed

text \<open>Two requests under way at the same time.\<close>

theorem requests_can_finish_witness:
  "\<exists>S'. some_step\<^sup>*\<^sup>* ((idle (example_admin account_db))\<lparr>sy_reqs :=
       [0 \<mapsto> admin_task example_config example_decoders create_request,
        1 \<mapsto> admin_task example_config example_decoders create_request]\<rparr>) S' \<and>
     sy_reqs S' = Map.empty \<and> sy_lock S' = None \<and> coherent quiet (ad_rel (sy_state S'))"
proof -
  let ?p = "admin_task example_config example_decoders create_request"
  let ?S = "(idle (example_admin account_db))\<lparr>sy_reqs := [0 \<mapsto> ?p]\<rparr>"
  have "server_step example_config example_decoders (idle (example_admin account_db)) ?S"
    using server_step.request[of "idle (example_admin account_db)" 0] by (simp add: idle_def)
  moreover have "server_step example_config example_decoders ?S (?S\<lparr>sy_reqs := [0 \<mapsto> ?p, 1 \<mapsto> ?p]\<rparr>)"
    using server_step.request[of ?S 1] by simp
  ultimately have "(server_step example_config example_decoders)\<^sup>*\<^sup>* (idle (example_admin account_db))
      (?S\<lparr>sy_reqs := [0 \<mapsto> ?p, 1 \<mapsto> ?p]\<rparr>)" by simp
  from requests_can_finish[OF this] example_start example_env_never_fails show ?thesis by simp
qed

end
