(* ===== verification/Migration.thy ===== *)
theory Migration
  imports StoreRuns
begin

text \<open>
  \<open>Open\<close> and \<open>migrate\<close> of \<open>internal/storage/sqlite.go\<close>: what opening the database file does to
  its tables. A table the file does not have yet is \<open>None\<close>; a file of an older version has local
  records without the \<open>match_mode\<close> column. Indexes and pragmas change no content.
\<close>

record db_file =
  df_rules :: "rule_row id_table option"
  df_config :: "(string, string option) gomap option"
  df_hosts :: "host_row id_table option"
  df_match_mode :: bool
  df_stmts :: nat
  df_rands :: nat

datatype ddl = CreateRulesTable | IndexRules | CreateConfigTable | CreateHostsTable | IndexHosts

text \<open>\<open>CREATE TABLE IF NOT EXISTS\<close> and \<open>CREATE INDEX IF NOT EXISTS\<close>; a table of local records
  created here has the new column.\<close>

fun exec_ddl :: "ddl \<Rightarrow> db_file \<Rightarrow> db_file" where
  "exec_ddl CreateRulesTable d =
     (case df_rules d of None \<Rightarrow> d\<lparr>df_rules := Some tab_empty\<rparr> | Some _ \<Rightarrow> d)"
| "exec_ddl IndexRules d = d"
| "exec_ddl CreateConfigTable d =
     (case df_config d of None \<Rightarrow> d\<lparr>df_config := Some []\<rparr> | Some _ \<Rightarrow> d)"
| "exec_ddl CreateHostsTable d =
     (case df_hosts d of
        None \<Rightarrow> d\<lparr>df_hosts := Some tab_empty, df_match_mode := True\<rparr>
      | Some _ \<Rightarrow> d)"
| "exec_ddl IndexHosts d = d"

definition migrate_stmts :: "ddl list" where
  "migrate_stmts = [CreateRulesTable, IndexRules, CreateConfigTable, CreateHostsTable, IndexHosts]"

definition next_stmt :: "db_file \<Rightarrow> db_file" where
  "next_stmt d = d\<lparr>df_stmts := df_stmts d + 1\<rparr>"

fun exec_all :: "sql_env \<Rightarrow> ddl list \<Rightarrow> db_file \<Rightarrow> unit result \<times> db_file" where
  "exec_all E [] d = (Inr (), d)"
| "exec_all E (q # qs) d =
     (case stmt_error E (df_stmts d) of
        Some e \<Rightarrow> (Inl e, next_stmt d)
      | None \<Rightarrow> exec_all E qs (next_stmt (exec_ddl q d)))"

text \<open>\<open>ALTER TABLE host_records ADD COLUMN match_mode ... DEFAULT 'exact'\<close>, whose error the source
  ignores, whatever it is.\<close>

definition alter_hosts :: "sql_env \<Rightarrow> db_file \<Rightarrow> db_file" where
  "alter_hosts E d =
     (if stmt_error E (df_stmts d) \<noteq> None \<or> df_match_mode d then next_stmt d
      else next_stmt
        (d\<lparr>df_hosts := map_option (\<lambda>t. t\<lparr>t_rows := map (\<lambda>r. r\<lparr>hw_match_mode := ''exact''\<rparr>) (t_rows t)\<rparr>) (df_hosts d),
           df_match_mode := True\<rparr>))"

text \<open>The tables of an opened file as the store of the other theories, and back.\<close>

definition tables_of :: "db_file \<Rightarrow> db" where
  "tables_of d =
     \<lparr>domain_rules = (case df_rules d of None \<Rightarrow> tab_empty | Some t \<Rightarrow> t),
      host_records = (case df_hosts d of None \<Rightarrow> tab_empty | Some t \<Rightarrow> t),
      app_config = (case df_config d of None \<Rightarrow> [] | Some m \<Rightarrow> m),
      stmt_count = df_stmts d, rand_count = df_rands d\<rparr>"

definition file_of :: "bool \<Rightarrow> db \<Rightarrow> db_file" where
  "file_of has_mode s =
     \<lparr>df_rules = Some (domain_rules s), df_config = Some (app_config s),
      df_hosts = Some (host_records s), df_match_mode = has_mode,
      df_stmts = stmt_count s, df_rands = rand_count s\<rparr>"

definition migrate :: "sql_env \<Rightarrow> db_file \<Rightarrow> unit result \<times> db_file" where
  "migrate E d =
     (case exec_all E migrate_stmts d of
        (Inl e, d1) \<Rightarrow> (Inl e, d1)
      | (Inr _, d1) \<Rightarrow>
          (let d2 = alter_hosts E d1 in
           case initAdminAccount E (tables_of d2) of
             (r, s) \<Rightarrow> (r, file_of (df_match_mode d2) s)))"

text \<open>\<open>sql.Open\<close> does not touch the file; an unknown driver is its only error and the driver is
  linked in.\<close>

definition Open :: "sql_env \<Rightarrow> db_file \<Rightarrow> db_file result \<times> db_file" where
  "Open E d =
     (case migrate E d of
        (Inl e, d') \<Rightarrow> (Inl e, d')
      | (Inr _, d') \<Rightarrow> (Inr d', d'))"

section \<open>What opening keeps and guarantees\<close>

text \<open>A file whose rows a version of the program wrote: well-formed tables, except that the match
  mode of a record is missing in an old file.\<close>

definition old_host_ok :: "host_row \<Rightarrow> bool" where
  "old_host_ok r \<longleftrightarrow> host_row_ok (r\<lparr>hw_match_mode := ''exact''\<rparr>)"

definition file_ok :: "db_file \<Rightarrow> bool" where
  "file_ok d \<longleftrightarrow>
     (case df_rules d of None \<Rightarrow> True
      | Some t \<Rightarrow> tab_wf rw_id t \<and> (\<forall>r\<in>set (t_rows t). rule_row_ok r)) \<and>
     (case df_hosts d of None \<Rightarrow> True
      | Some t \<Rightarrow> tab_wf hw_id t \<and>
          (\<forall>r\<in>set (t_rows t). if df_match_mode d then host_row_ok r else old_host_ok r)) \<and>
     (case df_config d of None \<Rightarrow> True | Some m \<Rightarrow> distinct (map fst m))"

definition with_mode :: "db_file \<Rightarrow> db_file" where
  "with_mode d =
     (if df_match_mode d then d
      else d\<lparr>df_hosts := map_option (\<lambda>t. t\<lparr>t_rows := map (\<lambda>r. r\<lparr>hw_match_mode := ''exact''\<rparr>) (t_rows t)\<rparr>) (df_hosts d)\<rparr>)"

lemma exec_all_ok:
  assumes "exec_all E migrate_stmts d = (Inr (), d')"
  shows "d' = d\<lparr>df_rules := Some (case df_rules d of None \<Rightarrow> tab_empty | Some t \<Rightarrow> t),
      df_config := Some (case df_config d of None \<Rightarrow> [] | Some m \<Rightarrow> m),
      df_hosts := Some (case df_hosts d of None \<Rightarrow> tab_empty | Some t \<Rightarrow> t),
      df_match_mode := (df_hosts d = None \<or> df_match_mode d), df_stmts := df_stmts d + 5\<rparr>"
proof -
  have "snd (exec_all E migrate_stmts d) = d'" using assms by simp
  with assms show ?thesis
    by (cases d) (auto simp: migrate_stmts_def next_stmt_def split: option.splits)
qed

text \<open>The column is there after the statement, unless an old file lacked it and the statement failed.\<close>

lemma tables_altered:
  assumes "exec_all E migrate_stmts d = (Inr (), d1)"
  shows "domain_rules (tables_of (alter_hosts E d1)) = domain_rules (tables_of d)"
    and "app_config (tables_of (alter_hosts E d1)) = app_config (tables_of d)"
    and "df_match_mode (alter_hosts E d1) \<longleftrightarrow>
      df_match_mode d \<or> df_hosts d = None \<or> stmt_error E (df_stmts d + 5) = None"
    and "host_records (tables_of (alter_hosts E d1)) =
      host_records (tables_of (if df_match_mode (alter_hosts E d1) then with_mode d else d))"
  using exec_all_ok[OF assms]
  by (auto simp: alter_hosts_def tables_of_def next_stmt_def with_mode_def tab_empty_def split: option.splits)

lemma db_wf_with_mode:
  assumes "file_ok d"
  shows "db_wf (tables_of (with_mode d))"
proof -
  have id: "hw_id \<circ> hw_match_mode_update (\<lambda>_. ''exact'') = hw_id" by (simp add: fun_eq_iff)
  have "tab_wf hw_id (t\<lparr>t_rows := map (\<lambda>r. r\<lparr>hw_match_mode := ''exact''\<rparr>) (t_rows t)\<rparr>)" if "tab_wf hw_id t" for t
    using that by (auto simp: tab_wf_def id)
  with assms rule_rows.wf_empty host_rows.wf_empty show ?thesis
    by (auto simp: db_wf_def file_ok_def tables_of_def with_mode_def old_host_ok_def tab_empty_def
        split: option.splits)
qed

lemma hosts_initAdminAccount: "host_records (snd (initAdminAccount E s)) = host_records s"
proof -
  have "host_records s' = host_records s1"
    if "in_tx E (seq_unit (replace_config E j a) (replace_config E k b)) s1 = (r, s')" for s1 s' r j k a b
    using that in_tx_error[of E _ s1 _ s'] in_tx_ok[of E _ s1 s']
    by (cases r) (fastforce simp: same_tables_def seq_unit_ok dest!: replace_config_ok)+
  then have "host_records (snd (in_tx E (seq_unit (replace_config E j a) (replace_config E k b)) s1)) =
      host_records s1" for s1 j k a b
    by (metis prod.collapse)
  then show ?thesis
    by (auto simp: initAdminAccount_def run_stmt_def Let_def dest!: encrypt_pair_state
        split: prod.splits sum.splits option.splits if_splits)
qed

lemma Open_cases:
  assumes "file_ok d" and "gcm_ok (sql_gcm E)" and "nonces_ok E" and "Open E d = (Inr d', d'')"
  shows "has_account (tables_of d') \<and> domain_rules (tables_of d') = domain_rules (tables_of d) \<and>
    (df_match_mode d' \<longleftrightarrow> df_match_mode d \<or> df_hosts d = None \<or> stmt_error E (df_stmts d + 5) = None) \<and>
    (if df_match_mode d' then
       db_wf (tables_of d') \<and> host_records (tables_of d') = host_records (tables_of (with_mode d))
     else host_records (tables_of d') = host_records (tables_of d))"
proof -
  from assms(4) obtain d1 s where ddl: "exec_all E migrate_stmts d = (Inr (), d1)"
    and init: "initAdminAccount E (tables_of (alter_hosts E d1)) = (Inr (), s)"
    and d': "d' = file_of (df_match_mode (alter_hosts E d1)) s"
    by (auto simp: Open_def migrate_def Let_def split: prod.splits sum.splits)
  note t = tables_altered[OF ddl]
  let ?s = "tables_of (alter_hosts E d1)"
  have wf: "db_wf ?s" if "df_match_mode (alter_hosts E d1)"
    using db_wf_with_mode[OF assms(1)] t that
    by (simp add: db_wf_def) (simp add: tables_of_def with_mode_def split: if_splits)
  have s: "s = snd (initAdminAccount E ?s)" using init by simp
  have "db_wf s" if "df_match_mode (alter_hosts E d1)"
    unfolding s by (rule db_wf_initAdminAccount[OF wf[OF that]])
  moreover have "distinct (map fst (app_config (tables_of d)))"
    using assms(1) by (auto simp: file_ok_def tables_of_def split: option.splits)
  then have "has_account s" by (intro init_has_account[OF init _ assms(2,3)]) (simp add: t(2))
  moreover have "tables_of d' = s" "df_match_mode d' = df_match_mode (alter_hosts E d1)"
    by (simp_all add: d' tables_of_def file_of_def)
  moreover have "domain_rules s = domain_rules ?s" "host_records s = host_records ?s"
    by (simp_all add: s rules_initAdminAccount hosts_initAdminAccount)
  ultimately show ?thesis using t by simp
qed

lemma Open_upgraded:
  assumes "never_fails E" and "file_ok d" and "gcm_ok (sql_gcm E)" and "nonces_ok E"
    and "Open E d = (Inr d', d'')"
  shows "db_wf (tables_of d') \<and> has_account (tables_of d') \<and> df_match_mode d' \<and>
    domain_rules (tables_of d') = domain_rules (tables_of d) \<and>
    host_records (tables_of d') = host_records (tables_of (with_mode d))"
  using Open_cases[OF assms(2-5)] assms(1) by (simp add: never_fails_def)

text \<open>C13: opening a file that this or an older version wrote, whatever statement the driver fails:
  when \<open>Open\<close> succeeds, the store has an account and every rule of the file. The column of the match
  mode is there exactly when the file had it, or had no table of records, or \<open>ALTER TABLE\<close>, the
  sixth statement, worked. With the column the store is well-formed and holds every record, an old
  one with the mode \<open>exact\<close>; without it, since the error of \<open>ALTER TABLE\<close> is ignored, \<open>Open\<close> still
  succeeds and the records are as they were.\<close>

theorem Open_upgrades:
  assumes "file_ok d" and "gcm_ok (sql_gcm E)" and "nonces_ok E" and "Open E d = (Inr d', d'')"
  shows "has_account (tables_of d') \<and> domain_rules (tables_of d') = domain_rules (tables_of d) \<and>
    (df_match_mode d' \<longleftrightarrow> df_match_mode d \<or> df_hosts d = None \<or> stmt_error E (df_stmts d + 5) = None) \<and>
    (if df_match_mode d' then
       db_wf (tables_of d') \<and> host_records (tables_of d') = host_records (tables_of (with_mode d))
     else host_records (tables_of d') = host_records (tables_of d))"
  by (rule Open_cases[OF assms])

definition new_file :: db_file where
  "new_file = \<lparr>df_rules = None, df_config = None, df_hosts = None, df_match_mode = False,
               df_stmts = 0, df_rands = 0\<rparr>"

text \<open>A file of an older version with a rule and a record, opened by a driver that works and by one
  that fails the sixth statement.\<close>

definition old_file :: db_file where
  "old_file =
     \<lparr>df_rules = Some (domain_rules one_rule_db), df_config = None,
      df_hosts = Some ((host_records one_host_db)\<lparr>t_rows :=
        map (\<lambda>r. r\<lparr>hw_match_mode := []\<rparr>) (t_rows (host_records one_host_db))\<rparr>),
      df_match_mode = False, df_stmts = 0, df_rands = 0\<rparr>"

lemma old_file_ok: "file_ok old_file"
proof -
  have id: "hw_id \<circ> hw_match_mode_update f = hw_id" for f by (simp add: fun_eq_iff)
  show ?thesis
    using example_dbs_wf
    by (auto simp: file_ok_def old_file_def db_wf_def tab_wf_def old_host_ok_def host_row_ok_def id)
qed

theorem Open_upgrades_witness:
  "(let d' = snd (Open quiet old_file) in
      df_match_mode d' \<and> db_wf (tables_of d') \<and> host_records (tables_of d') = host_records (tables_of (with_mode old_file)) \<and>
      domain_rules (tables_of d') = domain_rules one_rule_db) \<and>
   (let E = example_env (\<lambda>n. if n = 5 then Some ''disk I/O error'' else None); d' = snd (Open E old_file) in
      is_ok (fst (Open E old_file)) \<and> \<not> df_match_mode d' \<and>
      map hw_match_mode (t_rows (host_records (tables_of d'))) = [[]])"
proof -
  let ?E = "example_env (\<lambda>n. if n = 5 then Some ''disk I/O error'' else None)"
  have opened: "\<exists>d'. Open E old_file = (Inr d', d')" if "is_ok (fst (Open E old_file))" for E
    using that by (auto simp: Open_def split: prod.splits sum.splits)
  have ok: "is_ok (fst (Open quiet old_file))" "is_ok (fst (Open ?E old_file))" by code_simp+
  obtain d1 where d1: "Open quiet old_file = (Inr d1, d1)" using opened[OF ok(1)] ..
  obtain d2 where d2: "Open ?E old_file = (Inr d2, d2)" using opened[OF ok(2)] ..
  have old: "\<not> df_match_mode old_file" "df_hosts old_file \<noteq> None" "df_stmts old_file = 0"
    "domain_rules (tables_of old_file) = domain_rules one_rule_db"
    by (simp_all add: old_file_def tables_of_def)
  have mode: "map hw_match_mode (t_rows (host_records (tables_of old_file))) = [[]]" by code_simp
  have fails: "stmt_error quiet 5 = None" "stmt_error ?E 5 \<noteq> None" by (simp_all add: example_env_def)
  show ?thesis
    using Open_upgrades[OF old_file_ok _ _ d1] Open_upgrades[OF old_file_ok _ _ d2] old mode fails ok d1 d2
    by (simp add: Let_def)
qed

end
