(* ===== verification/DnsHandler.thy ===== *)
theory DnsHandler
  imports RuleCache HostCache Upstream
begin

text \<open>
  \<open>internal/dns/handler.go\<close>: the resolver. A question is answered from the local records when
  they have something for it, and otherwise sent to the upstream server the rules select. The
  state is the two caches, the default upstream, the two global counters and the number of
  network calls so far. \<open>resolveLocal\<close> calls itself for the target of a CNAME record, so its
  model takes fuel; the theory shows that the call is never reached and one unit is enough.
\<close>

section \<open>State and operations\<close>

record resolver =
  rv_cache :: rule_cache
  rv_hosts :: "host_cache option"
  rv_defaultUpstream :: string
  rv_local :: forward_counter
  rv_forward :: forward_counter
  rv_calls :: nat

definition NewHandler :: "rule_cache \<Rightarrow> host_cache option \<Rightarrow> string \<Rightarrow> resolver" where
  "NewHandler c h defaultUpstream =
     \<lparr>rv_cache = c, rv_hosts = h, rv_defaultUpstream = defaultUpstream,
      rv_local = \<lparr>fc_n = 0\<rparr>, rv_forward = \<lparr>fc_n = 0\<rparr>, rv_calls = 0\<rparr>"

definition GetDefault :: "resolver \<Rightarrow> string" where
  "GetDefault R = rv_defaultUpstream R"

definition Handler_Match :: "string \<Rightarrow> resolver \<Rightarrow> (string \<times> bool) \<times> resolver" where
  "Handler_Match fqdn R =
     (case RuleCache_Match (rv_cache R) fqdn of (res, c) \<Rightarrow> (res, R\<lparr>rv_cache := c\<rparr>))"

definition hosts_lookup ::
  "host_cache \<Rightarrow> string \<Rightarrow> string \<Rightarrow> resolver \<Rightarrow> (host_entry list \<times> bool) \<times> resolver" where
  "hosts_lookup h qname t R =
     (case HostCache_Lookup h qname t of (res, h') \<Rightarrow> (res, R\<lparr>rv_hosts := Some h'\<rparr>))"

text \<open>The switch on the question's type: the type looked up, for a type it names.\<close>

definition lookup_type :: "uint16 \<Rightarrow> string option" where
  "lookup_type qtype =
     (if qtype = TypeA then Some ''A''
      else if qtype = TypeAAAA then Some ''AAAA''
      else if qtype = TypeTXT then Some ''TXT''
      else if qtype = TypeCNAME then Some ''CNAME''
      else if qtype = TypeANY then Some ''ANY''
      else None)"

definition header :: "string \<Rightarrow> uint16 \<Rightarrow> uint32 \<Rightarrow> rr_header" where
  "header qname t ttl = \<lparr>rh_Name = qname, rh_Rrtype = t, rh_Class = ClassINET, rh_Ttl = ttl\<rparr>"

text \<open>The body of the loop over the entries: the answers so far and the state. \<open>self\<close> is the
  recursive call of \<open>resolveLocal\<close>.\<close>

definition answer_entry ::
  "(msg \<Rightarrow> resolver \<Rightarrow> (msg option \<times> resolver) option) \<Rightarrow> dns_lib \<Rightarrow> string \<Rightarrow> uint16 \<Rightarrow>
     host_entry \<Rightarrow> rr list \<times> resolver \<Rightarrow> (rr list \<times> resolver) option" where
  "answer_entry self L qname qtype e st =
     (case st of (answer, R) \<Rightarrow>
        if he_Type e = ''A'' then
          (if qtype \<noteq> TypeA \<and> qtype \<noteq> TypeANY then Some (answer, R)
           else
             (case ParseIP (he_Value e) of
                None \<Rightarrow> Some (answer, R)
              | Some ip \<Rightarrow>
                  (case To4 ip of
                     None \<Rightarrow> Some (answer, R)
                   | Some v4 \<Rightarrow> Some (answer @ [A (header qname TypeA (he_TTL e)) v4], R))))
        else if he_Type e = ''AAAA'' then
          (if qtype \<noteq> TypeAAAA \<and> qtype \<noteq> TypeANY then Some (answer, R)
           else
             (case ParseIP (he_Value e) of
                None \<Rightarrow> Some (answer, R)
              | Some ip \<Rightarrow> Some (answer @ [AAAA (header qname TypeAAAA (he_TTL e)) ip], R)))
        else if he_Type e = ''TXT'' then
          (if qtype \<noteq> TypeTXT \<and> qtype \<noteq> TypeANY then Some (answer, R)
           else Some (answer @ [TXT (header qname TypeTXT (he_TTL e)) [he_Value e]], R))
        else if he_Type e = ''CNAME'' then
          (if qtype \<noteq> TypeCNAME \<and> qtype \<noteq> TypeANY then Some (answer, R)
           else
             let target = (if \<not> HasSuffix (he_Value e) ''.'' then he_Value e @ ''.'' else he_Value e);
                 answer' = answer @ [CNAME (header qname TypeCNAME (he_TTL e)) target]
             in if qtype = TypeA \<or> qtype = TypeAAAA then
                  (case self (lib_SetQuestion L target qtype) R of
                     None \<Rightarrow> None
                   | Some (None, R') \<Rightarrow> Some (answer', R')
                   | Some (Some tresp, R') \<Rightarrow> Some (answer' @ m_Answer tresp, R'))
                else Some (answer', R))
        else Some (answer, R))"

fun answer_loop ::
  "(msg \<Rightarrow> resolver \<Rightarrow> (msg option \<times> resolver) option) \<Rightarrow> dns_lib \<Rightarrow> string \<Rightarrow> uint16 \<Rightarrow>
     host_entry list \<Rightarrow> rr list \<times> resolver \<Rightarrow> (rr list \<times> resolver) option" where
  "answer_loop self L qname qtype [] st = Some st"
| "answer_loop self L qname qtype (e # es) st =
     (case answer_entry self L qname qtype e st of
        None \<Rightarrow> None
      | Some st' \<Rightarrow> answer_loop self L qname qtype es st')"

text \<open>The outer \<open>None\<close> stands for a call that does not return: no fuel, or the index of an empty
  question section. The inner one is the source's \<open>nil, false\<close>.\<close>

fun resolveLocal :: "dns_lib \<Rightarrow> nat \<Rightarrow> msg \<Rightarrow> resolver \<Rightarrow> (msg option \<times> resolver) option" where
  "resolveLocal L 0 req R = None"
| "resolveLocal L (Suc n) req R =
     (case rv_hosts R of
        None \<Rightarrow> Some (None, R)
      | Some h \<Rightarrow>
          (case m_Question req of
             [] \<Rightarrow> None
           | q # _ \<Rightarrow>
               let qtype = q_Qtype q;
                   qname = ToLower (q_Name q);
                   first = (case lookup_type qtype of
                              Some t \<Rightarrow> ((([], True), R), t)
                            | None \<Rightarrow> (hosts_lookup h qname ''ANY'' R, ''ANY''))
               in case first of
                    (((_, ok), R1), lookupType) \<Rightarrow>
                      if \<not> ok then Some (None, R1)
                      else
                        (case hosts_lookup (case rv_hosts R1 of Some h1 \<Rightarrow> h1 | None \<Rightarrow> h) qname lookupType R1 of
                           ((entries, ok2), R2) \<Rightarrow>
                             if \<not> ok2 then Some (None, R2)
                             else
                               let resp = (lib_SetReply L req)\<lparr>m_Authoritative := True\<rparr> in
                               (case answer_loop (resolveLocal L n) L qname qtype entries (m_Answer resp, R2) of
                                  None \<Rightarrow> None
                                | Some (answer, R3) \<Rightarrow>
                                    let resp' = resp\<lparr>m_Answer := answer\<rparr>;
                                        resp'' = (if answer = [] then resp'\<lparr>m_Rcode := RcodeNameError\<rparr> else resp')
                                    in Some (Some resp'', R3\<lparr>rv_local := Incr (rv_local R3)\<rparr>)))))"

declare resolveLocal.simps(2) [simp del]

text \<open>\<open>Resolve\<close> returns a message, which may be nil, and an error; one unit of fuel is enough for the
  call of \<open>resolveLocal\<close>, whose other branch is not taken (\<open>resolveLocal_returns\<close>).\<close>

definition Resolve :: "dns_lib \<Rightarrow> net_env \<Rightarrow> msg \<Rightarrow> resolver \<Rightarrow> reply \<times> resolver" where
  "Resolve L N req R =
     (case m_Question req of
        [] \<Rightarrow> ((Some ((lib_SetReply L req)\<lparr>m_Rcode := RcodeFormatError\<rparr>), None), R)
      | q # _ \<Rightarrow>
          (case resolveLocal L 1 req R of
             None \<Rightarrow> ((None, None), R)
           | Some (Some resp, R1) \<Rightarrow> ((Some resp, None), R1)
           | Some (None, R1) \<Rightarrow>
               (case Handler_Match (q_Name q) R1 of
                  ((u, ok), R2) \<Rightarrow>
                    let upstream = (if \<not> ok then rv_defaultUpstream R2 else u) in
                    (case UpstreamQuery_Query L N upstream req (rv_calls R2) of
                       ((fwd, err), k) \<Rightarrow>
                         let R3 = R2\<lparr>rv_calls := k\<rparr> in
                         if err \<noteq> None then
                           ((Some ((lib_SetReply L req)\<lparr>m_Rcode := 2\<rparr>), None), R3)
                         else ((fwd, None), R3\<lparr>rv_forward := Incr (rv_forward R3)\<rparr>)))))"

text \<open>\<open>Handle\<close> writes the message; the error is dropped.\<close>

definition Handle :: "dns_lib \<Rightarrow> net_env \<Rightarrow> msg \<Rightarrow> resolver \<Rightarrow> msg option \<times> resolver" where
  "Handle L N req R = (case Resolve L N req R of ((resp, _), R') \<Rightarrow> (resp, R'))"

section \<open>The answer to a local question\<close>

text \<open>What one entry contributes: nothing, or one record.\<close>

definition rr_of :: "string \<Rightarrow> uint16 \<Rightarrow> host_entry \<Rightarrow> rr list" where
  "rr_of qname qtype e =
     (if he_Type e = ''A'' \<and> qtype \<in> {TypeA, TypeANY} then
        (case Option.bind (ParseIP (he_Value e)) To4 of
           None \<Rightarrow> []
         | Some v4 \<Rightarrow> [A (header qname TypeA (he_TTL e)) v4])
      else if he_Type e = ''AAAA'' \<and> qtype \<in> {TypeAAAA, TypeANY} then
        (case ParseIP (he_Value e) of
           None \<Rightarrow> []
         | Some ip \<Rightarrow> [AAAA (header qname TypeAAAA (he_TTL e)) ip])
      else if he_Type e = ''TXT'' \<and> qtype \<in> {TypeTXT, TypeANY} then
        [TXT (header qname TypeTXT (he_TTL e)) [he_Value e]]
      else if he_Type e = ''CNAME'' \<and> qtype \<in> {TypeCNAME, TypeANY} then
        [CNAME (header qname TypeCNAME (he_TTL e))
           (if HasSuffix (he_Value e) ''.'' then he_Value e else he_Value e @ ''.'')]
      else [])"

text \<open>The recursive call needs a CNAME entry among the answers to an A or AAAA question.\<close>

lemma answer_entry_direct:
  assumes "\<not> (he_Type e = ''CNAME'' \<and> (qtype = TypeA \<or> qtype = TypeAAAA))"
  shows "answer_entry self L qname qtype e (answer, R) = Some (answer @ rr_of qname qtype e, R)"
  using assms
  by (auto simp: answer_entry_def rr_of_def Let_def type_defs split: option.splits)

lemma answer_loop_direct:
  assumes "\<forall>e\<in>set es. \<not> (he_Type e = ''CNAME'' \<and> (qtype = TypeA \<or> qtype = TypeAAAA))"
  shows "answer_loop self L qname qtype es (answer, R) =
    Some (answer @ concat (map (rr_of qname qtype) es), R)"
  using assms
proof (induction es arbitrary: answer)
  case Nil
  then show ?case by simp
next
  case (Cons e es)
  then show ?case by (simp add: answer_entry_direct)
qed

lemma query_type_plain [simp]:
  "query_type ''A'' = ''A''" "query_type ''AAAA'' = ''AAAA''" "query_type ''TXT'' = ''TXT''"
  "query_type ''CNAME'' = ''CNAME''" "query_type ''ANY'' = ''ANY''"
  by (code_simp+)

text \<open>So the entries an A or AAAA question finds are never CNAME entries.\<close>

lemma no_chase:
  assumes "HostCache_Lookup h name t = ((es, ok), h')"
    and "lookup_type qtype = Some t \<or> lookup_type qtype = None \<and> t = ''ANY''" and "e \<in> set es"
  shows "\<not> (he_Type e = ''CNAME'' \<and> (qtype = TypeA \<or> qtype = TypeAAAA))"
proof
  assume e: "he_Type e = ''CNAME'' \<and> (qtype = TypeA \<or> qtype = TypeAAAA)"
  then have "t = ''A'' \<or> t = ''AAAA''"
    using assms(2) by (auto simp: lookup_type_def type_defs)
  with Lookup_entries(1)[OF assms(1)] assms(3) e show False by auto
qed

text \<open>The answer in closed form: the entries found for the name, each as its record.\<close>

definition local_reply :: "dns_lib \<Rightarrow> msg \<Rightarrow> string \<Rightarrow> uint16 \<Rightarrow> host_entry list \<Rightarrow> msg" where
  "local_reply L req qname qtype es =
     (let answer = m_Answer (lib_SetReply L req) @ concat (map (rr_of qname qtype) es) in
      (lib_SetReply L req)\<lparr>m_Authoritative := True, m_Answer := answer,
         m_Rcode := (if answer = [] then RcodeNameError else m_Rcode (lib_SetReply L req))\<rparr>)"

definition type_looked_up :: "uint16 \<Rightarrow> string" where
  "type_looked_up qtype = (case lookup_type qtype of Some t \<Rightarrow> t | None \<Rightarrow> ''ANY'')"

text \<open>The number of lookups a question makes, and so of hits it counts.\<close>

definition lookups :: "uint16 \<Rightarrow> int64" where
  "lookups qtype = (if lookup_type qtype = None then 2 else 1)"

lemma Lookup_again:
  "fst (HostCache_Lookup (h\<lparr>ch_hits := k\<rparr>) name t) = fst (HostCache_Lookup h name t)"
  by (auto simp: Lookup_unfold Let_def split: option.split)

lemma resolveLocal_closed:
  assumes q: "m_Question req = q # qs" and h: "rv_hosts R = Some h"
    and l: "fst (HostCache_Lookup h (ToLower (q_Name q)) (type_looked_up (q_Qtype q))) = (es, ok)"
  shows "resolveLocal L (Suc n) req R =
    Some (if ok
      then (Some (local_reply L req (ToLower (q_Name q)) (q_Qtype q) es),
            R\<lparr>rv_hosts := Some (h\<lparr>ch_hits := ch_hits h + lookups (q_Qtype q)\<rparr>),
              rv_local := Incr (rv_local R)\<rparr>)
      else (None, R))"
proof -
  let ?t = "type_looked_up (q_Qtype q)" and ?n = "ToLower (q_Name q)"
  let ?k = "if ok then 1 else (0 :: int64)"
  have L1: "HostCache_Lookup h ?n ?t = ((es, ok), h\<lparr>ch_hits := ch_hits h + ?k\<rparr>)"
    using l Lookup_entries(3)[of h ?n ?t] by (cases "HostCache_Lookup h ?n ?t") fastforce
  have direct: "\<forall>e\<in>set es. \<not> (he_Type e = ''CNAME'' \<and> (q_Qtype q = TypeA \<or> q_Qtype q = TypeAAAA))"
    using no_chase[OF L1] by (auto simp: type_looked_up_def split: option.splits)
  note loop = answer_loop_direct[OF direct]
  have same: "R\<lparr>rv_hosts := Some h\<rparr> = R" using h by simp
  show ?thesis
  proof (cases "lookup_type (q_Qtype q)")
    case (Some t)
    then have t: "?t = t" by (simp add: type_looked_up_def)
    show ?thesis
      using L1 Some same unfolding t
      by (auto simp: resolveLocal.simps(2) q h hosts_lookup_def loop local_reply_def lookups_def Let_def)
  next
    case None
    then have t: "?t = ''ANY''" by (simp add: type_looked_up_def)
    let ?h1 = "h\<lparr>ch_hits := ch_hits h + ?k\<rparr>"
    have "fst (HostCache_Lookup ?h1 ?n ''ANY'') = (es, ok)" using l by (simp add: Lookup_again t)
    then have L2: "HostCache_Lookup ?h1 ?n ''ANY'' = ((es, ok), h\<lparr>ch_hits := ch_hits h + ?k + ?k\<rparr>)"
      using Lookup_entries(3)[of ?h1 ?n "''ANY''"] by (cases "HostCache_Lookup ?h1 ?n ''ANY''") fastforce
    show ?thesis
      using L1 L2 None same unfolding t
      by (auto simp: resolveLocal.simps(2) q h hosts_lookup_def loop local_reply_def lookups_def Let_def add.assoc)
  qed
qed

lemma resolveLocal_returns:
  assumes "m_Question req \<noteq> []"
  shows "\<exists>r. \<forall>n. resolveLocal L (Suc n) req R = Some r"
proof (cases "rv_hosts R")
  case None
  then show ?thesis by (simp add: resolveLocal.simps(2))
next
  case (Some h)
  obtain q qs where q: "m_Question req = q # qs" using assms by (cases "m_Question req") auto
  obtain es ok where "fst (HostCache_Lookup h (ToLower (q_Name q)) (type_looked_up (q_Qtype q))) = (es, ok)"
    by (cases "fst (HostCache_Lookup h (ToLower (q_Name q)) (type_looked_up (q_Qtype q)))")
  from resolveLocal_closed[OF q Some this] show ?thesis by blast
qed


section \<open>Properties\<close>

lemma Resolve_local:
  assumes "m_Question req = q # qs" and "rv_hosts R = Some h"
    and "fst (HostCache_Lookup h (ToLower (q_Name q)) (type_looked_up (q_Qtype q))) = (es, True)"
  shows "Resolve L N req R =
    ((Some (local_reply L req (ToLower (q_Name q)) (q_Qtype q) es), None),
     R\<lparr>rv_hosts := Some (h\<lparr>ch_hits := ch_hits h + lookups (q_Qtype q)\<rparr>), rv_local := Incr (rv_local R)\<rparr>)"
  using resolveLocal_closed[OF assms, of L 0] assms(1) by (simp add: Resolve_def)

definition no_local :: "question \<Rightarrow> resolver \<Rightarrow> bool" where
  "no_local q R \<longleftrightarrow>
     (case rv_hosts R of
        None \<Rightarrow> True
      | Some h \<Rightarrow> \<not> snd (fst (HostCache_Lookup h (ToLower (q_Name q)) (type_looked_up (q_Qtype q)))))"

lemma resolveLocal_no_local:
  assumes "m_Question req = q # qs" and "no_local q R"
  shows "resolveLocal L (Suc n) req R = Some (None, R)"
proof (cases "rv_hosts R")
  case None
  then show ?thesis by (simp add: resolveLocal.simps(2))
next
  case (Some h)
  obtain es ok where l: "fst (HostCache_Lookup h (ToLower (q_Name q)) (type_looked_up (q_Qtype q))) = (es, ok)"
    by (cases "fst (HostCache_Lookup h (ToLower (q_Name q)) (type_looked_up (q_Qtype q)))")
  with assms(2) Some have "\<not> ok" by (simp add: no_local_def)
  with resolveLocal_closed[OF assms(1) Some l] show ?thesis by simp
qed

text \<open>C23: the resolver's call of itself for the target of a CNAME record is never reached: with any
  amount of fuel a question gets the same answer as with one unit, so a chain or a cycle of CNAME
  records cannot make it loop.\<close>

theorem local_chase_unreachable:
  assumes "m_Question req \<noteq> []"
  shows "resolveLocal L (Suc n) req R = resolveLocal L 1 req R \<and> resolveLocal L (Suc n) req R \<noteq> None"
  using resolveLocal_returns[OF assms, of L R] by (metis One_nat_def option.distinct(1))

text \<open>C6: a question that finds local entries is answered by them alone: the answer section holds,
  in their order, the record of each entry that has one of the type asked for and an address that
  parses; the reply is authoritative and carries the question's id, its code is NXDOMAIN exactly
  when no entry gave a record; no upstream is asked and one local hit is counted.\<close>

theorem local_answer_exact:
  assumes "dns_lib_ok L" and "m_Question req = q # qs" and "rv_hosts R = Some h"
    and "fst (HostCache_Lookup h (ToLower (q_Name q)) (type_looked_up (q_Qtype q))) = (es, True)"
  shows "\<exists>resp. Resolve L N req R =
      ((Some resp, None), R\<lparr>rv_hosts := Some (h\<lparr>ch_hits := ch_hits h + lookups (q_Qtype q)\<rparr>),
                            rv_local := Incr (rv_local R)\<rparr>) \<and>
    m_Id resp = m_Id req \<and> m_Response resp \<and> m_Authoritative resp \<and> m_Question resp = [q] \<and>
    m_Answer resp = concat (map (rr_of (ToLower (q_Name q)) (q_Qtype q)) es) \<and>
    m_Rcode resp = (if m_Answer resp = [] then RcodeNameError else RcodeSuccess)"
  unfolding Resolve_local[OF assms(2-4)]
  by (auto simp: local_reply_def Let_def SetReply_simps[OF assms(1)] assms(2))

lemma normalize_ToLower [simp]: "normalize_domain (ToLower d) = normalize_domain d"
  by (simp add: normalize_domain_def)

definition address_answers :: "string \<Rightarrow> host_entry list \<Rightarrow> rr list" where
  "address_answers qname es =
     concat (map (\<lambda>e. case Option.bind (ParseIP (he_Value e)) To4 of
        None \<Rightarrow> [] | Some v4 \<Rightarrow> [A (header qname TypeA (he_TTL e)) v4]) es)"

lemma rr_of_addresses:
  assumes "\<forall>e\<in>set es. he_Type e = ''A''"
  shows "concat (map (rr_of qname TypeA) es) = address_answers qname es"
proof -
  have "map (rr_of qname TypeA) es = map (\<lambda>e. case Option.bind (ParseIP (he_Value e)) To4 of
      None \<Rightarrow> [] | Some v4 \<Rightarrow> [A (header qname TypeA (he_TTL e)) v4]) es"
    by (rule map_cong[OF refl]) (use assms in \<open>simp add: rr_of_def\<close>)
  then show ?thesis unfolding address_answers_def by (rule arg_cong)
qed

lemma address_question:
  assumes "dns_lib_ok L" and "m_Question req = q # qs" and "q_Qtype q = TypeA" and "rv_hosts R = Some h"
    and "host_spec recs (normalize_domain (q_Name q)) ''A'' (fst (HostCache_Lookup h (ToLower (q_Name q)) ''A''))"
    and "es = filter (type_matches ''A'') (entries_at recs (normalize_domain (q_Name q)))" and "es \<noteq> []"
  shows "\<exists>resp. fst (Resolve L N req R) = (Some resp, None) \<and> rv_calls (snd (Resolve L N req R)) = rv_calls R \<and>
    m_Answer resp = address_answers (ToLower (q_Name q)) es"
proof -
  have t: "type_looked_up (q_Qtype q) = ''A''"
    by (simp add: assms(3) type_looked_up_def lookup_type_def)
  have "fst (HostCache_Lookup h (ToLower (q_Name q)) (type_looked_up (q_Qtype q))) = (es, True)"
    using assms(5-7) by (simp add: host_spec_def t Let_def)
  note R = Resolve_local[OF assms(2,4) this, of L N]
  have "\<forall>e\<in>set es. he_Type e = ''A''" by (auto simp: assms(6) type_matches_def)
  note answer = rr_of_addresses[OF this, of "ToLower (q_Name q)"]
  have "m_Answer (local_reply L req (ToLower (q_Name q)) (q_Qtype q) es) = address_answers (ToLower (q_Name q)) es"
    using answer by (simp add: local_reply_def Let_def SetReply_simps[OF assms(1)] assms(3))
  then show ?thesis unfolding R by auto
qed

text \<open>The addresses stored for a name reach the client: after a load of records that have
  A records under the name, the answer to an A question is exactly those whose value is an IPv4
  address, in stored order, and the upstream servers are not asked.\<close>

theorem stored_addresses_answered:
  assumes "dns_lib_ok L" and "m_Question req = q # qs" and "q_Qtype q = TypeA"
    and "rv_hosts R = Some (HostCache_Load c recs)"
    and "filter (type_matches ''A'') (entries_at recs (normalize_domain (q_Name q))) \<noteq> []"
  shows "\<exists>resp. fst (Resolve L N req R) = (Some resp, None) \<and> rv_calls (snd (Resolve L N req R)) = rv_calls R \<and>
    m_Answer resp = address_answers (ToLower (q_Name q))
      (filter (type_matches ''A'') (entries_at recs (normalize_domain (q_Name q))))"
proof -
  have "host_spec recs (normalize_domain (q_Name q)) ''A''
      (fst (HostCache_Lookup (HostCache_Load c recs) (ToLower (q_Name q)) ''A''))"
    using Lookup_refines[of recs "ToLower (q_Name q)" "''A''" c] by simp
  from address_question[OF assms(1-4) this refl assms(5)] show ?thesis .
qed

text \<open>A question of a type the resolver does not name, such as MX or SRV, for a name that has any
  local record gets NXDOMAIN with no answers, is not forwarded, and counts two hits.\<close>

theorem other_types_name_error:
  assumes "dns_lib_ok L" and "m_Question req = q # qs" and "rv_hosts R = Some h"
    and "lookup_type (q_Qtype q) = None"
    and "snd (fst (HostCache_Lookup h (ToLower (q_Name q)) ''ANY''))"
  shows "\<exists>resp. fst (Resolve L N req R) = (Some resp, None) \<and> m_Rcode resp = RcodeNameError \<and>
    m_Answer resp = [] \<and> rv_calls (snd (Resolve L N req R)) = rv_calls R \<and>
    rv_hosts (snd (Resolve L N req R)) = Some (h\<lparr>ch_hits := ch_hits h + 2\<rparr>)"
proof -
  have t: "type_looked_up (q_Qtype q) = ''ANY''" using assms(4) by (simp add: type_looked_up_def)
  obtain es where "fst (HostCache_Lookup h (ToLower (q_Name q)) (type_looked_up (q_Qtype q))) = (es, True)"
    using assms(5) unfolding t by (metis prod.collapse)
  note R = Resolve_local[OF assms(2,3) this, of L N]
  have "rr_of (ToLower (q_Name q)) (q_Qtype q) e = []" for e
    using assms(4) by (auto simp: rr_of_def lookup_type_def split: if_splits)
  then have none: "concat (map (rr_of (ToLower (q_Name q)) (q_Qtype q)) es) = []" by simp
  show ?thesis
    unfolding R by (simp add: local_reply_def Let_def SetReply_simps[OF assms(1)] none lookups_def assms(4))
qed

text \<open>CNAME records are not followed: when only CNAME records are stored, an A or AAAA question
  for any name, the owner of such a record included, finds nothing locally and is left to the
  upstream server.\<close>

theorem cname_not_followed:
  assumes "m_Question req = q # qs" and "q_Qtype q \<in> {TypeA, TypeAAAA}"
    and "rv_hosts R = Some (HostCache_Load c recs)" and "list_all (\<lambda>r. ToUpper (hr_Type r) = ''CNAME'') recs"
  shows "resolveLocal L (Suc n) req R = Some (None, R)"
proof (rule resolveLocal_no_local[OF assms(1)])
  let ?t = "type_looked_up (q_Qtype q)" and ?q = "normalize_domain (q_Name q)"
  have t: "?t = ''A'' \<or> ?t = ''AAAA''"
    using assms(2) by (auto simp: type_looked_up_def lookup_type_def)
  have none: "\<not> type_matches ?t (host_entry_of r)" if "r \<in> set recs" for r
    using that assms(4) t by (auto simp: type_matches_def host_entry_of_def list_all_iff)
  have "filter (type_matches ?t) (entries_at recs ?q) = []"
    using none by (auto simp: entries_at_def filter_empty_conv)
  moreover have "\<not> suffix_record_for recs ?q ?t r d" for r d
    using none by (auto simp: suffix_record_for_def)
  moreover have "query_type ?t = ?t" using t by auto
  ultimately have "fst (HostCache_Lookup (HostCache_Load c recs) (ToLower (q_Name q)) ?t) = ([], False)"
    using Lookup_refines[of recs "ToLower (q_Name q)" ?t c] by (simp add: host_spec_def Let_def)
  then show "no_local q R" by (simp add: no_local_def assms(3))
qed

text \<open>C7: a question without local records goes to the upstream the rules select for its name, or to
  the default one when they select none. A failure is answered with SERVFAIL under the question's
  id; a message is passed on as it came and counted.\<close>

theorem Resolve_routes:
  assumes "m_Question req = q # qs" and "no_local q R"
    and "fst (RuleCache_Match (rv_cache R) (q_Name q)) = (u, ok)"
    and "UpstreamQuery_Query L N (if ok then u else rv_defaultUpstream R) req (rv_calls R) = ((fwd, err), k)"
  shows "fst (Resolve L N req R) =
      (if err \<noteq> None then (Some ((lib_SetReply L req)\<lparr>m_Rcode := RcodeServerFailure\<rparr>), None) else (fwd, None)) \<and>
    rv_calls (snd (Resolve L N req R)) = k \<and>
    rv_forward (snd (Resolve L N req R)) = (if err \<noteq> None then rv_forward R else Incr (rv_forward R)) \<and>
    rv_local (snd (Resolve L N req R)) = rv_local R"
proof -
  obtain c' where m: "RuleCache_Match (rv_cache R) (q_Name q) = ((u, ok), c')"
    using assms(3) by (metis prod.collapse)
  have "resolveLocal L 1 req R = Some (None, R)"
    using resolveLocal_no_local[OF assms(1,2), of L 0] by simp
  moreover have "(if \<not> ok then rv_defaultUpstream R else u) = (if ok then u else rv_defaultUpstream R)" by simp
  ultimately show ?thesis
    using assms(4) by (auto simp: Resolve_def assms(1) Handler_Match_def m Let_def RcodeServerFailure_def)
qed

lemma Resolve_answers:
  assumes "exchange_ok N"
  shows "\<exists>resp. fst (Resolve L N req R) = (Some resp, None)"
proof (cases "m_Question req")
  case Nil
  then show ?thesis by (simp add: Resolve_def)
next
  case (Cons q qs)
  show ?thesis
  proof (cases "no_local q R")
    case True
    obtain u ok c' where m: "RuleCache_Match (rv_cache R) (q_Name q) = ((u, ok), c')"
      by (metis prod.collapse)
    have l: "resolveLocal L (Suc 0) req R = Some (None, R)"
      by (rule resolveLocal_no_local[OF Cons True])
    show ?thesis
      using Query_exclusive[OF assms, of L "if \<not> ok then rv_defaultUpstream R else u" req "rv_calls R"]
      by (auto simp: Resolve_def Cons l Handler_Match_def m Let_def split: prod.split)
  next
    case False
    then obtain h where h: "rv_hosts R = Some h"
      and "snd (fst (HostCache_Lookup h (ToLower (q_Name q)) (type_looked_up (q_Qtype q))))"
      by (auto simp: no_local_def split: option.splits)
    then obtain es where "fst (HostCache_Lookup h (ToLower (q_Name q)) (type_looked_up (q_Qtype q))) = (es, True)"
      by (metis prod.collapse)
    from Resolve_local[OF Cons h this] show ?thesis by simp
  qed
qed

text \<open>C24: every query is answered: whatever the message, the records, the rules and the network,
  \<open>Resolve\<close> returns a message and no error; one without a question gets FORMERR.\<close>

theorem Resolve_total:
  assumes "exchange_ok N"
  shows "\<exists>resp. fst (Resolve L N req R) = (Some resp, None) \<and> fst (Handle L N req R) = Some resp"
  using Resolve_answers[OF assms, of L req R] by (auto simp: Handle_def split_beta)


section \<open>Witnesses\<close>

definition example_records :: "host_record list" where
  "example_records =
     [example_host 1 ''nas.lan'' ''A'' ''exact'' ''10.0.0.9'' 300,
      example_host 2 ''nas.lan'' ''A'' ''exact'' ''not an address'' 300,
      example_host 3 ''nas.lan'' ''TXT'' ''exact'' ''hello'' 60]"

definition example_resolver :: "host_record list \<Rightarrow> resolver" where
  "example_resolver recs = NewHandler RuleCache_New (Some (HostCache_Load NewHostCache recs)) ''9.9.9.9''"

theorem local_chase_unreachable_witness:
  "resolveLocal example_lib (Suc 41) (query_msg ''www.lan.'' 1)
     (example_resolver [example_host 1 ''www.lan'' ''CNAME'' ''exact'' ''www.lan'' 300]) \<noteq> None"
  by (rule local_chase_unreachable[THEN conjunct2]) (simp add: query_msg_def)

lemma query_msg_question: "m_Question (query_msg n t) = \<lparr>q_Name = n, q_Qtype = t, q_Qclass = ClassINET\<rparr> # []"
  by (simp add: query_msg_def)

theorem local_answer_exact_witness:
  "\<exists>resp. fst (Resolve example_lib example_net (query_msg ''NAS.lan.'' 16) (example_resolver example_records)) = (Some resp, None) \<and>
     m_Answer resp = [TXT (header ''nas.lan.'' 16 60) [''hello'']]"
proof -
  let ?q = "\<lparr>q_Name = ''NAS.lan.'', q_Qtype = 16, q_Qclass = ClassINET\<rparr>"
  let ?e = "\<lparr>he_Type = ''TXT'', he_Value = ''hello'', he_TTL = 60\<rparr>"
  have l: "fst (HostCache_Lookup (HostCache_Load NewHostCache example_records) (ToLower (q_Name ?q)) (type_looked_up (q_Qtype ?q))) =
      ([?e], True)" by code_simp
  have h: "rv_hosts (example_resolver example_records) = Some (HostCache_Load NewHostCache example_records)"
    by (simp add: example_resolver_def NewHandler_def)
  have rr: "concat (map (rr_of (ToLower (q_Name ?q)) (q_Qtype ?q)) [?e]) = [TXT (header ''nas.lan.'' 16 60) [''hello'']]"
    by code_simp
  from local_answer_exact[OF example_lib_ok query_msg_question h l, of example_net] show ?thesis
    unfolding rr by auto
qed

theorem stored_addresses_answered_witness:
  "rv_calls (snd (Resolve example_lib example_net (query_msg ''NAS.lan.'' 1) (example_resolver example_records))) = 0"
proof -
  have "entries_at example_records (normalize_domain ''NAS.lan.'') =
    [\<lparr>he_Type = ''A'', he_Value = ''10.0.0.9'', he_TTL = 300\<rparr>,
     \<lparr>he_Type = ''A'', he_Value = ''not an address'', he_TTL = 300\<rparr>,
     \<lparr>he_Type = ''TXT'', he_Value = ''hello'', he_TTL = 60\<rparr>]"
  proof -
    have "host_class (example_host i ''nas.lan'' ty ''exact'' v ttl) = Some (''nas.lan.'', False)" for i ty v ttl
    proof -
      have "TrimSpace ''nas.lan'' = ''nas.lan''" "TrimPrefix ''nas.lan'' ''*.'' = ''nas.lan''"
        "normalize_domain ''nas.lan'' = ''nas.lan.''" "ToLower (TrimSpace ''exact'') = ''exact''" by code_simp+
      then show ?thesis by (simp add: host_class_def example_host_def)
    qed
    moreover have "normalize_domain ''NAS.lan.'' = ''nas.lan.''" by code_simp
    moreover have "ToUpper ''A'' = ''A''" "ToUpper ''TXT'' = ''TXT''" by code_simp+
    moreover have "hr_Type (example_host i d ty m v ttl) = ty" "hr_Value (example_host i d ty m v ttl) = v"
      "hr_TTL (example_host i d ty m v ttl) = ttl" for i d ty m v ttl
      by (simp_all add: example_host_def)
    ultimately show ?thesis
      by (simp add: entries_at_def example_records_def host_entry_of_def ex_bool_eq all_bool_eq)
  qed
  then have "filter (type_matches ''A'') (entries_at example_records (normalize_domain ''NAS.lan.'')) \<noteq> []"
    by (simp add: type_matches_def)
  with stored_addresses_answered[OF example_lib_ok query_msg_question, of "''NAS.lan.''" 1
      "example_resolver example_records" NewHostCache example_records example_net]
  show ?thesis by (auto simp: TypeA_def example_resolver_def NewHandler_def)
qed

theorem other_types_name_error_witness:
  "\<exists>resp. fst (Resolve example_lib example_net (query_msg ''nas.lan.'' 15) (example_resolver example_records)) = (Some resp, None) \<and>
     m_Rcode resp = 3"
proof -
  let ?q = "\<lparr>q_Name = ''nas.lan.'', q_Qtype = 15, q_Qclass = ClassINET\<rparr>"
  have h: "rv_hosts (example_resolver example_records) = Some (HostCache_Load NewHostCache example_records)"
    by (simp add: example_resolver_def NewHandler_def)
  have t: "lookup_type (q_Qtype ?q) = None" by code_simp
  have l: "snd (fst (HostCache_Lookup (HostCache_Load NewHostCache example_records) (ToLower (q_Name ?q)) ''ANY''))"
    by code_simp
  from other_types_name_error[OF example_lib_ok query_msg_question h t l, of example_net] show ?thesis
    by (auto simp: RcodeNameError_def)
qed

theorem cname_not_followed_witness:
  "resolveLocal example_lib (Suc 0) (query_msg ''www.lan.'' 28)
     (example_resolver [example_host 1 ''www.lan'' ''CNAME'' ''exact'' ''nas.lan'' 300]) =
   Some (None, example_resolver [example_host 1 ''www.lan'' ''CNAME'' ''exact'' ''nas.lan'' 300])"
proof (rule cname_not_followed[OF query_msg_question])
  show "rv_hosts (example_resolver [example_host 1 ''www.lan'' ''CNAME'' ''exact'' ''nas.lan'' 300]) =
      Some (HostCache_Load NewHostCache [example_host 1 ''www.lan'' ''CNAME'' ''exact'' ''nas.lan'' 300])"
    by (simp add: example_resolver_def NewHandler_def)
  show "list_all (\<lambda>r. ToUpper (hr_Type r) = ''CNAME'') [example_host 1 ''www.lan'' ''CNAME'' ''exact'' ''nas.lan'' 300]"
    by code_simp
qed (simp add: TypeAAAA_def)

theorem Resolve_routes_witness:
  "rv_calls (snd (Resolve example_lib example_net (query_msg ''example.com.'' 1) (example_resolver example_records))) = 2"
proof -
  let ?q = "\<lparr>q_Name = ''example.com.'', q_Qtype = 1, q_Qclass = ClassINET\<rparr>"
  let ?R = "example_resolver example_records"
  have n: "no_local ?q ?R" by code_simp
  have m: "fst (RuleCache_Match (rv_cache ?R) (q_Name ?q)) = ([], False)" by code_simp
  have u: "UpstreamQuery_Query example_lib example_net (if False then [] else rv_defaultUpstream ?R)
      (query_msg ''example.com.'' 1) (rv_calls ?R) =
    ((Some ((query_msg ''example.com.'' 1)\<lparr>m_Response := True, m_RecursionAvailable := True\<rparr>), None), 2)"
    by code_simp
  from Resolve_routes[OF query_msg_question n m u] show ?thesis by simp
qed

theorem Resolve_total_witness:
  "\<exists>resp. fst (Handle example_lib example_net blank_msg (example_resolver [])) = Some resp"
  using Resolve_total[OF example_net_ok, of example_lib blank_msg "example_resolver []"] by blast

end
