(* ===== verification/Doh.thy ===== *)
theory Doh
  imports DnsHandler Http
begin

text \<open>
  DNS over HTTPS: \<open>internal/doh/server.go\<close>, whose handler works on any \<open>Resolver\<close>, and the
  handler \<open>dohHandler\<close> that \<open>cmd/dns-proxy/main.go\<close> serves. The Go interface \<open>Resolver\<close> is the
  locale \<open>resolver_service\<close>; the DNS handler implements it. A response of \<open>None\<close> is a handler
  that panics (\<open>Pack\<close> of a nil message).
\<close>

section \<open>The handler of the package doh\<close>

definition mimeType :: string where
  "mimeType = ''application/dns-message''"

text \<open>The end both methods share: resolve, pack, write.\<close>

definition resolve_and_write ::
  "dns_lib \<Rightarrow> (msg \<Rightarrow> 's \<Rightarrow> reply \<times> 's) \<Rightarrow> msg \<Rightarrow> 's \<Rightarrow> http_response option \<times> 's" where
  "resolve_and_write L resolve req s =
     (case resolve req s of
        ((resp, err), s') \<Rightarrow>
          (case err of
             Some e \<Rightarrow> (Some \<lparr>rs_Status = 502, rs_Header = [], rs_Body = Bytes e\<rparr>, s')
           | None \<Rightarrow>
               (case resp of
                  None \<Rightarrow> (None, s')
                | Some m \<Rightarrow>
                    (case lib_Pack L m of
                       Inl e \<Rightarrow> (Some (bare_response 500), s')
                     | Inr packed \<Rightarrow>
                         (Some \<lparr>rs_Status = 200, rs_Header = [(''Content-Type'', mimeType)],
                                rs_Body = Bytes packed\<rparr>, s')))))"

definition question_type :: "dns_lib \<Rightarrow> string \<Rightarrow> uint16" where
  "question_type L rdtype =
     (if lib_StringToType L rdtype \<noteq> 0 then lib_StringToType L rdtype else TypeA)"

definition ResolverHandler ::
  "dns_lib \<Rightarrow> (msg \<Rightarrow> 's \<Rightarrow> reply \<times> 's) \<Rightarrow> http_request \<Rightarrow> 's \<Rightarrow> http_response option \<times> 's" where
  "ResolverHandler L resolve rq s =
     (if rq_Path rq \<noteq> ''/dns-query'' then (Some NotFound, s)
      else if rq_Method rq = ''POST'' then
        (if get_first ''Content-Type'' (rq_Header rq) \<noteq> mimeType then (Some (bare_response 415), s)
         else
           (case ReadAllLimit 65535 (rq_Body rq) of
              Inl e \<Rightarrow> (Some (bare_response 400), s)
            | Inr body \<Rightarrow>
                (case lib_Unpack L body of
                   Inl e \<Rightarrow> (Some (bare_response 400), s)
                 | Inr req \<Rightarrow> resolve_and_write L resolve req s)))
      else if rq_Method rq = ''GET'' then
        (let qname = get_first ''name'' (rq_Query rq) in
         if qname = [] then (Some (bare_response 400), s)
         else
           resolve_and_write L resolve
             (lib_SetQuestion L (lib_Fqdn L qname) (question_type L (get_first ''type'' (rq_Query rq)))) s)
      else (Some (bare_response 405), s))"

text \<open>\<open>Handler\<close>: the same over the DNS handler.\<close>

definition Doh_Handler ::
  "dns_lib \<Rightarrow> net_env \<Rightarrow> http_request \<Rightarrow> resolver \<Rightarrow> http_response option \<times> resolver" where
  "Doh_Handler L N = ResolverHandler L (Resolve L N)"

section \<open>The handler of the program\<close>

text \<open>The end of \<open>dohHandler\<close>; a nil message is a bad gateway here.\<close>

definition doh_reply ::
  "dns_lib \<Rightarrow> (msg \<Rightarrow> 's \<Rightarrow> reply \<times> 's) \<Rightarrow> msg \<Rightarrow> 's \<Rightarrow> http_response \<times> 's" where
  "doh_reply L resolve req s =
     (case resolve req s of
        ((resp, err), s') \<Rightarrow>
          (case err of
             Some e \<Rightarrow> (text_response 502 text_plain e, s')
           | None \<Rightarrow>
               (case resp of
                  None \<Rightarrow> (text_response 502 text_plain ''no response from upstream'', s')
                | Some m \<Rightarrow>
                    (case lib_Pack L m of
                       Inl e \<Rightarrow> (text_response 500 text_plain (''pack failed: '' @ e), s')
                     | Inr out \<Rightarrow>
                         (\<lparr>rs_Status = 200,
                           rs_Header = [(''Content-Type'', ''application/dns-message''),
                                        (''Content-Length'', FormatInt (int (length out)))],
                           rs_Body = Bytes out\<rparr>, s')))))"

definition usage_page :: string where
  "usage_page =
     ''<h1>DNS Proxy DoH</h1><p>This endpoint speaks RFC 8484 DoH.</p><h3>Usage</h3><ul><li><'' @
     ''b>POST</b> with <code>Content-Type: application/dns-message</code> and a DNS wire mess'' @
     ''age in the body.</li><li><b>GET</b> <code>/dns-query?dns=&lt;base64url&gt;</code> '' @
     [CHR 0xE2, CHR 0x80, CHR 0x94] @
     '' base64url-encoded DNS wire message.</li><li><b>GET</b> <code>/dns-query?name=demo.com'' @
     ''&amp;type=A</code> '' @
     [CHR 0xE2, CHR 0x80, CHR 0x94] @
     '' human-friendly test (only for GET).</li></ul><p>Try: <a href='' @
     [CHR 0x22] @
     ''/dns-query?name=demo.com&amp;type=A'' @
     [CHR 0x22] @
     ''>/dns-query?name=demo.com&amp;type=A</a></p>''"

definition bad_param :: string where
  "bad_param =
     ''bad dns param: must be base64url-encoded DNS wire message'' @
     [CHR 0x0A] @
     ''Example: /dns-query?dns=AAEBAAABAAAAA...'' @
     [CHR 0x0A] @
     ''Or try:  /dns-query?name=demo.com&type=A''"

definition dohHandler ::
  "dns_lib \<Rightarrow> (msg \<Rightarrow> 's \<Rightarrow> reply \<times> 's) \<Rightarrow> http_request \<Rightarrow> 's \<Rightarrow> http_response \<times> 's" where
  "dohHandler L resolve rq s =
     (if rq_Method rq = ''GET'' then
        (let b64 = get_first ''dns'' (rq_Query rq); name = get_first ''name'' (rq_Query rq) in
         if b64 \<noteq> [] then
           (case RawURLDecodeString b64 of
              Inl e \<Rightarrow> (text_response 400 text_plain bad_param, s)
            | Inr raw \<Rightarrow>
                (case lib_Unpack L raw of
                   Inl e \<Rightarrow> (text_response 400 text_plain ''bad dns msg: decode failed'', s)
                 | Inr req \<Rightarrow> doh_reply L resolve req s))
         else if name \<noteq> [] then
           doh_reply L resolve
             (lib_SetQuestion L (lib_Fqdn L name) (question_type L (get_first ''type'' (rq_Query rq)))) s
         else (text_response 400 ''text/html; charset=utf-8'' usage_page, s))
      else if rq_Method rq = ''POST'' then
        (if get_first ''Content-Type'' (rq_Header rq) \<noteq> ''application/dns-message'' then
           (text_response 400 text_plain ''bad content-type: expected application/dns-message'', s)
         else
           (case ReadAll (rq_Body rq) of
              Inl e \<Rightarrow> (text_response 400 text_plain (''read body: '' @ e), s)
            | Inr raw \<Rightarrow>
                (case lib_Unpack L raw of
                   Inl e \<Rightarrow> (text_response 400 text_plain ''bad dns msg: decode failed'', s)
                 | Inr req \<Rightarrow> doh_reply L resolve req s)))
      else (text_response 405 text_plain ''method not allowed: use GET or POST'', s))"

definition welcome_page :: string where
  "welcome_page = ''<h1>DNS Proxy DoH</h1><p>Use <code>/dns-query</code>.</p>''"

datatype doh_route = DnsQuery | DohRoot

definition doh_routes :: "(string \<times> doh_route) list" where
  "doh_routes = [(''/dns-query'', DnsQuery), (''/'', DohRoot)]"

definition buildDoHMux ::
  "dns_lib \<Rightarrow> (msg \<Rightarrow> 's \<Rightarrow> reply \<times> 's) \<Rightarrow> http_request \<Rightarrow> 's \<Rightarrow> http_response \<times> 's" where
  "buildDoHMux L resolve rq s =
     (case mux_dispatch doh_routes rq of
        Redirect p \<Rightarrow> (\<lparr>rs_Status = 301, rs_Header = [(''Location'', p)], rs_Body = Bytes []\<rparr>, s)
      | NoHandler \<Rightarrow> (NotFound, s)
      | Serve DnsQuery \<Rightarrow> dohHandler L resolve rq s
      | Serve DohRoot \<Rightarrow>
          if rq_Path rq = ''/'' then (text_response 200 ''text/html; charset=utf-8'' welcome_page, s)
          else (NotFound, s))"

section \<open>The interface Resolver\<close>

locale resolver_service =
  fixes ok :: "'s \<Rightarrow> bool"
    and resolve :: "msg \<Rightarrow> 's \<Rightarrow> reply \<times> 's"
  assumes resolve_answers: "ok s \<Longrightarrow> \<exists>m. fst (resolve req s) = (Some m, None)"
    and resolve_ok: "ok s \<Longrightarrow> ok (snd (resolve req s))"
begin

lemma resolve_cases:
  assumes "ok s"
  obtains m s' where "resolve req s = ((Some m, None), s')" "ok s'"
  using resolve_answers[OF assms, of req] resolve_ok[OF assms, of req]
  by (metis prod.collapse)

lemma resolve_and_write_status:
  assumes "ok s"
  shows "\<exists>r. fst (resolve_and_write L resolve req s) = Some r \<and> rs_Status r \<in> {200, 500}"
proof -
  obtain m s' where "resolve req s = ((Some m, None), s')" using resolve_cases[OF assms] by blast
  then show ?thesis by (simp add: resolve_and_write_def split: sum.split)
qed

text \<open>Over a resolver that always answers, the handler does not panic and never reports a bad
  gateway.\<close>

lemma ResolverHandler_status:
  assumes "ok s"
  shows "\<exists>r. fst (ResolverHandler L resolve rq s) = Some r \<and> rs_Status r \<in> {200, 400, 404, 405, 415, 500}"
proof -
  define S where "S = {200, 400, 404, 405, 415, 500 :: int}"
  have "400 \<in> S" "404 \<in> S" "405 \<in> S" "415 \<in> S" by (simp_all add: S_def)
  moreover have "\<exists>r. fst (resolve_and_write L resolve req s) = Some r \<and> rs_Status r \<in> S" for req
    using resolve_and_write_status[OF assms, of L req] by (auto simp: S_def)
  ultimately have "\<exists>r. fst (ResolverHandler L resolve rq s) = Some r \<and> rs_Status r \<in> S"
    by (simp add: ResolverHandler_def Let_def split: sum.split)
  then show ?thesis by (simp add: S_def)
qed

lemma doh_reply_status: "ok s \<Longrightarrow> rs_Status (fst (doh_reply L resolve req s)) \<in> {200, 500}"
proof -
  assume "ok s"
  then obtain m s' where "resolve req s = ((Some m, None), s')" by (rule resolve_cases)
  then show ?thesis by (simp add: doh_reply_def split: sum.split)
qed

lemma dohHandler_status:
  assumes "ok s"
  shows "rs_Status (fst (dohHandler L resolve rq s)) \<in> {200, 400, 405, 500}"
proof -
  define S where "S = {200, 400, 405, 500 :: int}"
  have "400 \<in> S" "405 \<in> S" by (simp_all add: S_def)
  moreover have "rs_Status (fst (doh_reply L resolve req s)) \<in> S" for req
    using doh_reply_status[OF assms, of L req] by (auto simp: S_def)
  ultimately have "rs_Status (fst (dohHandler L resolve rq s)) \<in> S"
    by (simp add: dohHandler_def Let_def split: sum.split)
  then show ?thesis by (simp add: S_def)
qed

end

interpretation dns_service: resolver_service "\<lambda>_. exchange_ok N" "Resolve L N" for L N
  by unfold_locales (simp_all add: Resolve_answers)

section \<open>Properties\<close>

text \<open>The handler of the package \<open>doh\<close> on top of the DNS handler always writes a response, and
  never a bad gateway: an upstream that fails reaches the client as SERVFAIL inside a message.\<close>

theorem ResolverHandler_never_bad_gateway:
  assumes "exchange_ok N"
  shows "\<exists>r. fst (Doh_Handler L N rq R) = Some r \<and> rs_Status r \<in> {200, 400, 404, 405, 415, 500}"
  unfolding Doh_Handler_def by (rule dns_service.ResolverHandler_status[OF assms])

text \<open>C25: the DoH endpoint of the program answers a query over POST with the packed message the
  resolver returns, and nothing but the resolver changes the state.\<close>

theorem doh_post_answers:
  assumes "exchange_ok N" and "rq_Path rq = ''/dns-query''" and "rq_Method rq = ''POST''"
    and "get_first ''Content-Type'' (rq_Header rq) = ''application/dns-message''"
    and "rq_Body rq = (raw, None)" and "lib_Unpack L raw = Inr req"
  shows "\<exists>m. fst (Resolve L N req R) = (Some m, None) \<and>
    snd (buildDoHMux L (Resolve L N) rq R) = snd (Resolve L N req R) \<and>
    (case lib_Pack L m of
       Inl e \<Rightarrow> rs_Status (fst (buildDoHMux L (Resolve L N) rq R)) = 500
     | Inr out \<Rightarrow> fst (buildDoHMux L (Resolve L N) rq R) =
         \<lparr>rs_Status = 200,
          rs_Header = [(''Content-Type'', ''application/dns-message''),
                       (''Content-Length'', FormatInt (int (length out)))],
          rs_Body = Bytes out\<rparr>)"
proof -
  have d: "mux_dispatch doh_routes rq = Serve DnsQuery"
  proof -
    have "cleanPath ''/dns-query'' = ''/dns-query''" by code_simp
    moreover have "best_match ''/dns-query'' doh_routes = Some (''/dns-query'', DnsQuery)" by code_simp
    ultimately show ?thesis by (simp add: mux_dispatch_def assms(2))
  qed
  obtain m R' where r: "Resolve L N req R = ((Some m, None), R')"
    using Resolve_answers[OF assms(1), of L req R] by (metis prod.collapse)
  show ?thesis
    by (simp add: buildDoHMux_def d dohHandler_def assms(3-6) ReadAll_def doh_reply_def r split: sum.split)
qed

text \<open>Every response of the DoH server has one of the statuses 200, 301, 400, 404, 405 and 500,
  and a request that is refused leaves the resolver alone.\<close>

theorem doh_statuses:
  assumes "exchange_ok N"
  shows "rs_Status (fst (buildDoHMux L (Resolve L N) rq R)) \<in> {200, 301, 400, 404, 405, 500} \<and>
    (snd (buildDoHMux L (Resolve L N) rq R) = R \<or>
      (\<exists>req. snd (buildDoHMux L (Resolve L N) rq R) = snd (Resolve L N req R)))"
proof
  show "rs_Status (fst (buildDoHMux L (Resolve L N) rq R)) \<in> {200, 301, 400, 404, 405, 500}"
    using dns_service.dohHandler_status[OF assms, of L L rq R]
    by (auto simp: buildDoHMux_def split: dispatch.split doh_route.split)
  have reply: "snd (doh_reply L (Resolve L N) req R) = snd (Resolve L N req R)" for req
    by (auto simp: doh_reply_def split: prod.split option.split sum.split)
  have "snd (dohHandler L (Resolve L N) rq R) = R \<or>
      (\<exists>req. snd (dohHandler L (Resolve L N) rq R) = snd (Resolve L N req R))"
    by (auto simp: dohHandler_def Let_def reply split: sum.split)
  then show "snd (buildDoHMux L (Resolve L N) rq R) = R \<or>
      (\<exists>req. snd (buildDoHMux L (Resolve L N) rq R) = snd (Resolve L N req R))"
    by (auto simp: buildDoHMux_def split: dispatch.split doh_route.split)
qed


section \<open>Witnesses\<close>

definition example_post :: http_request where
  "example_post =
     \<lparr>rq_Method = ''POST'', rq_Path = ''/dns-query'', rq_Query = [],
      rq_Header = [(''Content-Type'', ''application/dns-message'')], rq_Body = (''nas.lan.'', None)\<rparr>"

theorem ResolverHandler_never_bad_gateway_witness:
  "\<exists>r. fst (Doh_Handler example_lib example_net example_post (example_resolver example_records)) = Some r"
  using ResolverHandler_never_bad_gateway[OF example_net_ok] by blast

theorem doh_post_answers_witness:
  "\<exists>m. fst (Resolve example_lib example_net (query_msg ''nas.lan.'' 1) (example_resolver example_records)) = (Some m, None) \<and>
     (\<exists>out. lib_Pack example_lib m = Inr out \<and>
       rs_Body (fst (buildDoHMux example_lib (Resolve example_lib example_net) example_post (example_resolver example_records))) = Bytes out)"
proof -
  have u: "lib_Unpack example_lib ''nas.lan.'' = Inr (query_msg ''nas.lan.'' 1)"
    by (simp add: example_lib_def)
  have p: "\<exists>out. lib_Pack example_lib m = Inr out" for m
    by (auto simp: example_lib_def split: list.split)
  obtain m where m: "fst (Resolve example_lib example_net (query_msg ''nas.lan.'' 1) (example_resolver example_records)) = (Some m, None)"
    "case lib_Pack example_lib m of
       Inl e \<Rightarrow> rs_Status (fst (buildDoHMux example_lib (Resolve example_lib example_net) example_post (example_resolver example_records))) = 500
     | Inr out \<Rightarrow> fst (buildDoHMux example_lib (Resolve example_lib example_net) example_post (example_resolver example_records)) =
         \<lparr>rs_Status = 200,
          rs_Header = [(''Content-Type'', ''application/dns-message''),
                       (''Content-Length'', FormatInt (int (length out)))],
          rs_Body = Bytes out\<rparr>"
    using doh_post_answers[OF example_net_ok, of example_post "''nas.lan.''" example_lib "query_msg ''nas.lan.'' 1"
        "example_resolver example_records"] u
    by (auto simp: example_post_def get_first_def)
  from p[of m] obtain out where "lib_Pack example_lib m = Inr out" ..
  with m show ?thesis by auto
qed

theorem doh_statuses_witness:
  "rs_Status (fst (buildDoHMux example_lib (Resolve example_lib example_net) example_post (example_resolver example_records)))
     \<in> {200, 301, 400, 404, 405, 500}"
  using doh_statuses[OF example_net_ok] by blast

end
