(* ===== verification/DnsTypes.thy ===== *)
theory DnsTypes
  imports DnsHandler
begin

text \<open>
  The type discipline of the answers the resolver builds itself: every record is one of the type
  asked for, under the name asked for and in class IN, its header names the type of its data, an
  IPv4 address has four octets and an IPv6 address sixteen.
\<close>

section \<open>Parsed addresses are octets\<close>

definition octets :: "nat \<Rightarrow> int list \<Rightarrow> bool" where
  "octets n bs \<longleftrightarrow> length bs = n \<and> (\<forall>b\<in>set bs. 0 \<le> b \<and> b \<le> 255)"

abbreviation in_range :: "int list \<Rightarrow> bool" where
  "in_range bs \<equiv> \<forall>b\<in>set bs. 0 \<le> b \<and> b \<le> 255"

lemma digit_val_nonneg: "is_digit c \<Longrightarrow> 0 \<le> digit_val c"
  by (simp add: is_digit_def digit_val_def)

lemma ipv4_loop_range:
  "ipv4_loop s sep val n fs = Some f \<Longrightarrow> in_range fs \<Longrightarrow> 0 \<le> val \<Longrightarrow> val \<le> 255 \<Longrightarrow> in_range f"
proof (induction s sep val n fs rule: ipv4_loop.induct)
  case (1 sep val n fs)
  then show ?case by (auto split: if_splits)
next
  case (2 c cs sep val n fs)
  show ?case
  proof (cases "is_digit c")
    case True
    let ?v = "val * 10 + digit_val c"
    have "\<not> 255 < ?v" "ipv4_loop cs False ?v (n + 1) fs = Some f"
      using "2.prems"(1) True by (simp_all split: if_splits)
    moreover have "0 \<le> ?v" using digit_val_nonneg[OF True] "2.prems"(3) by simp
    moreover have "\<not> (n = 1 \<and> val = 0)" using "2.prems"(1) True by auto
    ultimately show ?thesis using "2.IH"(1)[OF True] "2.prems"(2) by simp
  next
    case False
    with "2.prems"(1) have r: "c = CHR ''.''" "\<not> (sep \<or> cs = [])" "length fs \<noteq> 3"
      "ipv4_loop cs True 0 0 (fs @ [val]) = Some f" by (simp_all split: if_splits)
    have "in_range (fs @ [val])" using "2.prems" by simp
    with "2.IH"(2)[OF False r(1-3) r(4)] show ?thesis by simp
  qed
qed

lemma parseIPv4Fields_octets: "parseIPv4Fields s = Some f \<Longrightarrow> octets 4 f"
  using ipv4_loop_range[of s True 0 0 "[]" f] parseIPv4Fields_length[of s f]
  by (simp add: parseIPv4Fields_def octets_def)

lemma hex_scan_bounds:
  "hex_scan s acc off = Some (a, n, rest) \<Longrightarrow> 0 \<le> acc \<Longrightarrow> acc \<le> 65535 \<Longrightarrow> 0 \<le> a \<and> a \<le> 65535"
proof (induction s acc off rule: hex_scan.induct)
  case (2 c cs acc off)
  have "0 \<le> d" if "hex_val c = Some d" for d using that by (auto simp: hex_val_def split: if_splits)
  with 2 show ?case by (fastforce split: option.splits if_splits)
qed simp

lemma ipv6_body_range:
  assumes "in_range ip"
  shows "case ipv6_body (s, ip, ell) of
      Bad \<Rightarrow> True | Leave (_, ip', _) \<Rightarrow> in_range ip' | Again (_, ip', _) \<Rightarrow> in_range ip'"
proof (cases "hex_scan s 0 0")
  case (Some r)
  obtain acc off rest where r: "r = (acc, off, rest)" by (cases r)
  have "0 \<le> acc" "acc \<le> 65535" using hex_scan_bounds[of s 0 0 acc off rest] Some r by simp_all
  then have bounds: "0 \<le> acc div 256" "acc div 256 \<le> 255" "0 \<le> acc mod 256" "acc mod 256 \<le> 255" by linarith+
  define Q where "Q = in_range"
  have Q: "Q (ip @ bs)" if "Q bs" for bs using assms that by (auto simp: Q_def)
  have two: "Q (ip @ [acc div 256, acc mod 256])" by (rule Q) (use bounds in \<open>simp add: Q_def\<close>)
  have four: "Q (ip @ f)" if "parseIPv4Fields s = Some f" for f
    by (rule Q) (use parseIPv4Fields_octets[OF that] in \<open>simp add: Q_def octets_def\<close>)
  have "case ipv6_body (s, ip, ell) of Bad \<Rightarrow> True | Leave (_, ip', _) \<Rightarrow> Q ip' | Again (_, ip', _) \<Rightarrow> Q ip'"
    using Some r two four by (simp add: ipv6_body.simps Let_def split: option.split list.split)
  then show ?thesis unfolding Q_def .
qed (simp add: ipv6_body.simps)

lemma ipv6_loop_range: "ipv6_loop st = Some st' \<Longrightarrow> in_range (fst (snd st)) \<Longrightarrow> in_range (fst (snd st'))"
proof (induction st rule: ipv6_loop.induct)
  case (1 st)
  obtain s ip ell where st: "st = (s, ip, ell)" by (cases st) auto
  show ?case
  proof (cases "16 \<le> length ip")
    case True
    with 1 st show ?thesis by (simp add: ipv6_loop.simps[of "(s, ip, ell)"])
  next
    case False
    have ip: "in_range ip" using "1.prems"(2) st by simp
    have F: "\<not> 16 \<le> length (fst (snd st))" using False st by simp
    show ?thesis
    proof (cases "ipv6_body st")
      case Bad
      with "1.prems"(1) F show ?thesis by (simp add: ipv6_loop.simps[of st])
    next
      case (Leave x)
      with "1.prems"(1) F have "st' = x" by (simp add: ipv6_loop.simps[of st])
      with Leave ipv6_body_range[OF ip, of s ell] st show ?thesis by (simp add: split_beta)
    next
      case (Again x)
      with "1.prems"(1) F have "ipv6_loop x = Some st'" by (simp add: ipv6_loop.simps[of st])
      moreover have "in_range (fst (snd x))"
        using Again ipv6_body_range[OF ip, of s ell] st by (simp add: split_beta)
      ultimately show ?thesis using "1.IH"[OF F Again] by simp
    qed
  qed
qed

lemma ParseIP_octets:
  assumes "ParseIP s = Some ip"
  shows "octets 16 ip"
proof -
  have exp: "in_range ip" if "ipv6_loop (t, [], e) = Some st" "expand_ellipsis st = Some ip" for t e st
  proof -
    obtain u bs ell where st: "st = (u, bs, ell)" by (cases st) auto
    have "in_range bs" using ipv6_loop_range[OF that(1)] st by simp
    moreover have "set ip \<subseteq> insert 0 (set bs)"
      using that(2) st
      by (auto simp: expand_ellipsis_def dest: in_set_takeD in_set_dropD split: if_splits option.splits)
    ultimately show ?thesis by fastforce
  qed
  have v4: "in_range f" if "parseIPv4Fields t = Some f" for t f
    using parseIPv4Fields_octets[OF that] by (simp add: octets_def)
  have "in_range ip"
    using assms by (auto simp: ParseIP_def parseIPv6_def v4_in_v6_def bind_eq_Some_conv
        dest: exp v4[THEN bspec] split: option.splits if_splits)
  with ParseIP_length[OF assms] show ?thesis by (simp add: octets_def)
qed

lemma To4_octets: "octets 16 ip \<Longrightarrow> To4 ip = Some f \<Longrightarrow> octets 4 f"
  by (auto simp: To4_def octets_def dest: in_set_dropD split: if_splits)

section \<open>Typed answers\<close>

definition typed_header :: "string \<Rightarrow> uint16 \<Rightarrow> uint16 \<Rightarrow> rr_header \<Rightarrow> bool" where
  "typed_header name t qtype h \<longleftrightarrow>
     rh_Name h = name \<and> rh_Rrtype h = t \<and> rh_Class h = ClassINET \<and> qtype \<in> {t, TypeANY}"

fun rr_typed :: "string \<Rightarrow> uint16 \<Rightarrow> rr \<Rightarrow> bool" where
  "rr_typed name qtype (A h v4) \<longleftrightarrow> typed_header name TypeA qtype h \<and> octets 4 v4"
| "rr_typed name qtype (AAAA h v6) \<longleftrightarrow> typed_header name TypeAAAA qtype h \<and> octets 16 v6"
| "rr_typed name qtype (TXT h ts) \<longleftrightarrow> typed_header name TypeTXT qtype h \<and> length ts = 1"
| "rr_typed name qtype (CNAME h target) \<longleftrightarrow> typed_header name TypeCNAME qtype h \<and> HasSuffix target ''.''"
| "rr_typed name qtype (OtherRR h d) \<longleftrightarrow> False"

lemma rr_of_typed: "r \<in> set (rr_of name qtype e) \<Longrightarrow> rr_typed name qtype r"
proof -
  have dot: "HasSuffix (v @ ''.'') ''.''" for v by (simp add: HasSuffix_iff)
  have address: "octets 4 v" if "Option.bind (ParseIP t) To4 = Some v" for t v
    using that by (auto simp: bind_eq_Some_conv dest: ParseIP_octets To4_octets)
  assume "r \<in> set (rr_of name qtype e)"
  then show ?thesis
    by (auto simp: rr_of_def typed_header_def header_def dot
        dest: ParseIP_octets[OF sym] address[OF sym] split: if_splits option.splits)
qed

text \<open>C22: the answers the resolver builds from the local records are well typed: every record is of
  the type asked for (any type for an ANY question), under the name asked for in lower case and in
  class IN, its header names the type of its data, an A record holds four octets, an AAAA record
  sixteen, a TXT record one text, and the target of a CNAME record is fully qualified.\<close>

theorem local_answer_well_typed:
  assumes "dns_lib_ok L" and "m_Question req = q # qs"
    and "resolveLocal L (Suc n) req R = Some (Some resp, R')"
  shows "list_all (rr_typed (ToLower (q_Name q)) (q_Qtype q)) (m_Answer resp)"
proof (cases "rv_hosts R")
  case None
  with assms(3) show ?thesis by (simp add: resolveLocal.simps(2))
next
  case (Some h)
  obtain es ok where l: "fst (HostCache_Lookup h (ToLower (q_Name q)) (type_looked_up (q_Qtype q))) = (es, ok)"
    by (cases "fst (HostCache_Lookup h (ToLower (q_Name q)) (type_looked_up (q_Qtype q)))")
  from resolveLocal_closed[OF assms(2) Some l, of L n] assms(3)
  have "resp = local_reply L req (ToLower (q_Name q)) (q_Qtype q) es" by (cases ok) simp_all
  then have "m_Answer resp = concat (map (rr_of (ToLower (q_Name q)) (q_Qtype q)) es)"
    by (simp add: local_reply_def Let_def SetReply_simps[OF assms(1)])
  then show ?thesis by (auto simp: list_all_iff intro: rr_of_typed)
qed

theorem local_answer_well_typed_witness:
  "\<exists>resp R'. resolveLocal example_lib 1 (query_msg ''nas.lan.'' TypeA) (example_resolver example_records) = Some (Some resp, R') \<and>
     m_Answer resp \<noteq> [] \<and> list_all (rr_typed ''nas.lan.'' TypeA) (m_Answer resp)"
proof -
  let ?rq = "query_msg ''nas.lan.'' TypeA" and ?R = "example_resolver example_records"
  have "(case resolveLocal example_lib 1 ?rq ?R of Some (Some resp, _) \<Rightarrow> m_Answer resp \<noteq> [] | _ \<Rightarrow> False)"
    by code_simp
  then obtain resp R' where r: "resolveLocal example_lib 1 ?rq ?R = Some (Some resp, R')" "m_Answer resp \<noteq> []"
    by (auto split: option.splits prod.splits)
  have q: "m_Question ?rq = [hd (m_Question ?rq)]" "ToLower (q_Name (hd (m_Question ?rq))) = ''nas.lan.''"
    "q_Qtype (hd (m_Question ?rq)) = TypeA" by code_simp+
  from local_answer_well_typed[OF example_lib_ok q(1) r(1)[unfolded One_nat_def]] q r show ?thesis by auto
qed

end
