(* ===== verification/GoOs.thy ===== *)
theory GoOs
  imports GoPath GoBase64
begin

text \<open>
  The part of \<open>os\<close> the program uses on files: a tree of directories and files as an association
  list from paths to nodes, with the calls that look a path up, make directories, create, write,
  read and remove. A path is its text; two texts are two files. Besides the errors that follow
  from the tree a call fails when the environment says so (permissions, a full disk). The last
  section has the PEM blocks of \<open>encoding/pem\<close>.
\<close>

section \<open>Steps that may fail\<close>

text \<open>Go's \<open>if err != nil { return err }\<close> between two calls that change a state.\<close>

definition and_then ::
  "('s \<Rightarrow> 'a result \<times> 's) \<Rightarrow> ('a \<Rightarrow> 's \<Rightarrow> 'b result \<times> 's) \<Rightarrow> 's \<Rightarrow> 'b result \<times> 's" where
  "and_then m f s = (case m s of (Inl e, s1) \<Rightarrow> (Inl e, s1) | (Inr x, s1) \<Rightarrow> f x s1)"

definition return :: "'a \<Rightarrow> 's \<Rightarrow> 'a result \<times> 's" where
  "return x s = (Inr x, s)"

text \<open>A call that does not look at the state.\<close>

definition lift_result :: "'a result \<Rightarrow> 's \<Rightarrow> 'a result \<times> 's" where
  "lift_result r s = (r, s)"

fun for_each :: "('x \<Rightarrow> 's \<Rightarrow> unit result \<times> 's) \<Rightarrow> 'x list \<Rightarrow> 's \<Rightarrow> unit result \<times> 's" where
  "for_each f [] s = (Inr (), s)"
| "for_each f (x # xs) s = and_then (f x) (\<lambda>_. for_each f xs) s"

lemma and_then_simps [simp]:
  "m s = (Inl e, s1) \<Longrightarrow> and_then m f s = (Inl e, s1)"
  "m s = (Inr x, s1) \<Longrightarrow> and_then m f s = f x s1"
  "and_then (return x) f s = f x s" "and_then (lift_result (Inr x)) f s = f x s"
  "and_then (lift_result (Inl e)) f s = (Inl e, s)"
  by (simp_all add: and_then_def return_def lift_result_def)

lemma and_then_ok:
  "and_then m f s = (Inr y, s2) \<longleftrightarrow> (\<exists>x s1. m s = (Inr x, s1) \<and> f x s1 = (Inr y, s2))"
  by (auto simp: and_then_def split: prod.splits sum.splits)

lemma and_then_cases:
  assumes "and_then m f s = (r, s2)"
  obtains (stop) e where "m s = (Inl e, s2)" "r = Inl e"
  | (go) x s1 where "m s = (Inr x, s1)" "f x s1 = (r, s2)"
  using assms by (auto simp: and_then_def split: prod.splits sum.splits)

section \<open>The tree\<close>

datatype node = DirNode | FileNode bytes

type_synonym fs = "(string, node) gomap"

record os_errors =
  oe_error :: "string \<Rightarrow> string \<Rightarrow> go_error option"
  oe_write :: "string \<Rightarrow> (nat \<times> go_error) option"

definition no_entry :: go_error where
  "no_entry = ''no such file or directory''"

definition fs_Stat :: "os_errors \<Rightarrow> string \<Rightarrow> fs \<Rightarrow> node result" where
  "fs_Stat E p d =
     (case oe_error E ''stat'' p of
        Some e \<Rightarrow> Inl e
      | None \<Rightarrow> (case map_of d p of None \<Rightarrow> Inl no_entry | Some n \<Rightarrow> Inr n))"

definition fs_ReadFile :: "os_errors \<Rightarrow> string \<Rightarrow> fs \<Rightarrow> bytes result" where
  "fs_ReadFile E p d =
     (case oe_error E ''read'' p of
        Some e \<Rightarrow> Inl e
      | None \<Rightarrow>
          (case map_of d p of
             None \<Rightarrow> Inl no_entry
           | Some DirNode \<Rightarrow> Inl ''is a directory''
           | Some (FileNode b) \<Rightarrow> Inr b))"

text \<open>A directory is removed when it is empty.\<close>

definition fs_Remove :: "os_errors \<Rightarrow> string \<Rightarrow> fs \<Rightarrow> unit result \<times> fs" where
  "fs_Remove E p d =
     (case oe_error E ''remove'' p of
        Some e \<Rightarrow> (Inl e, d)
      | None \<Rightarrow>
          (case map_of d p of
             None \<Rightarrow> (Inl no_entry, d)
           | Some n \<Rightarrow>
               if n = DirNode \<and> list_ex (\<lambda>(q, _). HasPrefix q (p @ ''/'')) d
               then (Inl ''directory not empty'', d)
               else (Inr (), AList.delete p d)))"

text \<open>The path itself and the directories above it, the root apart.\<close>

definition path_prefixes :: "string \<Rightarrow> string list" where
  "path_prefixes p = map (\<lambda>i. take i p) (filter (\<lambda>i. p ! i = CHR ''/'') [1..<length p]) @ [p]"

definition is_file :: "fs \<Rightarrow> string \<Rightarrow> bool" where
  "is_file d p = (case map_of d p of Some (FileNode _) \<Rightarrow> True | _ \<Rightarrow> False)"

definition fs_MkdirAll :: "os_errors \<Rightarrow> string \<Rightarrow> fs \<Rightarrow> unit result \<times> fs" where
  "fs_MkdirAll E p d =
     (case oe_error E ''mkdir'' p of
        Some e \<Rightarrow> (Inl e, d)
      | None \<Rightarrow>
          if list_ex (is_file d) (path_prefixes p) then (Inl ''not a directory'', d)
          else (Inr (), foldl (\<lambda>d q. AList.update q DirNode d) d (path_prefixes p)))"

text \<open>\<open>Create\<close> makes the file or empties it. Its directory exists wherever the program calls it.\<close>

definition fs_Create :: "os_errors \<Rightarrow> string \<Rightarrow> fs \<Rightarrow> unit result \<times> fs" where
  "fs_Create E p d =
     (case oe_error E ''create'' p of
        Some e \<Rightarrow> (Inl e, d)
      | None \<Rightarrow>
          if map_of d p = Some DirNode then (Inl ''is a directory'', d)
          else (Inr (), AList.update p (FileNode []) d))"

definition file_bytes :: "fs \<Rightarrow> string \<Rightarrow> bytes" where
  "file_bytes d p = (case map_of d p of Some (FileNode b) \<Rightarrow> b | _ \<Rightarrow> [])"

text \<open>Writing at the end of an open file: all of the data, or a part of it and an error.\<close>

definition file_write :: "os_errors \<Rightarrow> string \<Rightarrow> bytes \<Rightarrow> fs \<Rightarrow> unit result \<times> fs" where
  "file_write E p b d =
     (case oe_write E p of
        None \<Rightarrow> (Inr (), AList.update p (FileNode (file_bytes d p @ b)) d)
      | Some (k, e) \<Rightarrow> (Inl e, AList.update p (FileNode (file_bytes d p @ take k b)) d))"

section \<open>PEM\<close>

function pem_lines :: "string \<Rightarrow> string" where
  "pem_lines s = (if s = [] then [] else take 64 s @ [CHR 0x0A] @ pem_lines (drop 64 s))"
  by pat_completeness auto
termination
  by (relation "measure length") auto

declare pem_lines.simps [simp del]

definition pem_block :: "string \<Rightarrow> bytes \<Rightarrow> bytes" where
  "pem_block t der =
     ''-----BEGIN '' @ t @ ''-----'' @ [CHR 0x0A] @ pem_lines (StdEncodeToString der) @
     ''-----END '' @ t @ ''-----'' @ [CHR 0x0A]"

text \<open>The body of a block is its base64 text cut into lines.\<close>

lemma pem_lines_body: "CHR 0x0A \<notin> set s \<Longrightarrow> filter (\<lambda>c. c \<noteq> CHR 0x0A) (pem_lines s) = s"
proof (induction s rule: pem_lines.induct)
  case (1 s)
  show ?case
  proof (cases "s = []")
    case True
    then show ?thesis by (simp add: pem_lines.simps[of "[]"])
  next
    case False
    have "CHR 0x0A \<notin> set (drop 64 s)" "CHR 0x0A \<notin> set (take 64 s)"
      using "1.prems" in_set_dropD in_set_takeD by metis+
    moreover from this(2) have "filter (\<lambda>c. c \<noteq> CHR 0x0A) (take 64 s) = take 64 s"
      by (auto simp: filter_id_conv)
    ultimately show ?thesis
      using "1.IH"[OF False] False by (subst pem_lines.simps) simp
  qed
qed

section \<open>Laws\<close>

lemma map_of_delete [simp]: "map_of (AList.delete p d) = (map_of d)(p := None)"
  by (rule delete_conv')

lemma fs_Remove_others: "q \<noteq> p \<Longrightarrow> map_of (snd (fs_Remove E p d)) q = map_of d q"
  by (auto simp: fs_Remove_def split: option.split)

lemma fs_Create_ok:
  "fs_Create E p d = (Inr (), d') \<Longrightarrow> map_of d' = (map_of d)(p \<mapsto> FileNode [])"
  by (auto simp: fs_Create_def split: option.splits if_splits)

lemma fs_Create_error: "fs_Create E p d = (Inl e, d') \<Longrightarrow> d' = d"
  by (auto simp: fs_Create_def split: option.splits if_splits)

lemma file_write_ok:
  "file_write E p b d = (Inr (), d') \<Longrightarrow> map_of d' = (map_of d)(p \<mapsto> FileNode (file_bytes d p @ b))"
  by (auto simp: file_write_def split: option.splits)

lemma file_write_others: "q \<noteq> p \<Longrightarrow> map_of (snd (file_write E p b d)) q = map_of d q"
  by (auto simp: file_write_def split: option.split)

lemma map_of_mkdirs:
  "map_of (foldl (\<lambda>d q. AList.update q DirNode d) d ps) =
     (\<lambda>q. if q \<in> set ps then Some DirNode else map_of d q)"
  by (induction ps arbitrary: d) auto

lemma fs_MkdirAll_files:
  assumes "map_of d p = Some (FileNode b)"
  shows "map_of (snd (fs_MkdirAll E q d)) p = Some (FileNode b)"
proof (cases "list_ex (is_file d) (path_prefixes q)")
  case True
  with assms show ?thesis by (simp add: fs_MkdirAll_def split: option.split)
next
  case False
  moreover have "is_file d p" using assms by (simp add: is_file_def)
  ultimately have "p \<notin> set (path_prefixes q)" by (auto simp: list_ex_iff)
  with assms show ?thesis by (simp add: fs_MkdirAll_def map_of_mkdirs split: option.split)
qed

end
