(* ===== verification/Cert.thy ===== *)
theory Cert
  imports GoOs GoNet
begin

text \<open>
  \<open>internal/httpserver/cert.go\<close>: the certificates of the TLS servers. \<open>EnsureSelfSigned\<close> loads
  the server's key pair, after making a certificate authority and a server certificate when the
  files are missing or a new pair is forced. Keys, signatures and the parsing of certificates are
  \<open>crypto\<close>'s: a record of functions over the randomness drawn so far. The state is the file system
  and the number of draws.
\<close>

section \<open>State and environment\<close>

type_synonym ec_key = "bytes \<times> bytes"
type_synonym tls_certificate = "bytes list \<times> bytes"

datatype key_usage = CertSign | CRLSign | DigitalSignature | KeyEncipherment

record x509_certificate =
  x_SerialNumber :: int
  x_Organization :: "string list"
  x_CommonName :: string
  x_NotBefore :: int
  x_NotAfter :: int
  x_KeyUsage :: "key_usage list"
  x_ServerAuth :: bool
  x_BasicConstraintsValid :: bool
  x_IsCA :: bool
  x_MaxPathLen :: int
  x_DNSNames :: "string list"
  x_IPAddresses :: "ip list"

record tls_config =
  tc_Certificates :: "tls_certificate list"
  tc_NextProtos :: "string list"
  tc_MinVersion :: int

text \<open>An address of an interface: the dynamic type of \<open>net.Addr\<close> and, for two of them, the IP,
  which may be nil.\<close>

datatype net_addr = IPNet "ip option" | IPAddr "ip option" | OtherAddr

record net_iface =
  if_Loopback :: bool
  if_Up :: bool
  if_Addrs :: "net_addr list result"

text \<open>\<open>ce_map_order\<close> is the order in which Go ranges over the set of names, which the language
  leaves open.\<close>

record cert_env = os_errors +
  ce_GenerateKey :: "nat \<Rightarrow> ec_key result"
  ce_RandInt :: "nat \<Rightarrow> int result"
  ce_CreateCertificate :: "nat \<Rightarrow> x509_certificate \<Rightarrow> x509_certificate \<Rightarrow> bytes \<Rightarrow> ec_key \<Rightarrow> bytes result"
  ce_MarshalECPrivateKey :: "ec_key \<Rightarrow> bytes result"
  ce_ParseCertificate :: "bytes \<Rightarrow> x509_certificate result"
  ce_X509KeyPair :: "bytes \<Rightarrow> bytes \<Rightarrow> tls_certificate result"
  ce_Interfaces :: "net_iface list result"
  ce_map_order :: "string list \<Rightarrow> string list"
  ce_Now :: int

record cert_state =
  cs_fs :: fs
  cs_draws :: nat

text \<open>A call on the file system, and one that draws randomness.\<close>

definition on_fs :: "(fs \<Rightarrow> 'a result \<times> fs) \<Rightarrow> cert_state \<Rightarrow> 'a result \<times> cert_state" where
  "on_fs f s = (case f (cs_fs s) of (r, d) \<Rightarrow> (r, s\<lparr>cs_fs := d\<rparr>))"

definition drawing :: "(nat \<Rightarrow> 'a result) \<Rightarrow> cert_state \<Rightarrow> 'a result \<times> cert_state" where
  "drawing f s = (f (cs_draws s), s\<lparr>cs_draws := cs_draws s + 1\<rparr>)"

section \<open>Helpers of the source\<close>

definition fileExists :: "cert_env \<Rightarrow> string \<Rightarrow> fs \<Rightarrow> bool" where
  "fileExists E p d = (case fs_Stat (os_errors.truncate E) p d of Inr (FileNode _) \<Rightarrow> True | _ \<Rightarrow> False)"

definition IPv6loopback :: ip where
  "IPv6loopback = replicate 15 0 @ [1]"

text \<open>The addresses of the interfaces that are up and no loopback: the loop shared by \<open>localIPs\<close> and
  \<open>firstLocalIP\<close>; an interface whose addresses cannot be read is skipped.\<close>

definition usable_addrs :: "net_iface list \<Rightarrow> net_addr list" where
  "usable_addrs ifaces =
     concat (map (\<lambda>i. if if_Loopback i \<or> \<not> if_Up i then []
                      else (case if_Addrs i of Inl _ \<Rightarrow> [] | Inr as \<Rightarrow> as)) ifaces)"

fun addr_ip :: "net_addr \<Rightarrow> ip option" where
  "addr_ip (IPNet i) = i"
| "addr_ip (IPAddr i) = i"
| "addr_ip OtherAddr = None"

definition localIPs :: "cert_env \<Rightarrow> ip list" where
  "localIPs E =
     (let ips = [v4_in_v6 [127, 0, 0, 1], v4_in_v6 [0, 0, 0, 0], IPv6loopback] in
      case ce_Interfaces E of
        Inl _ \<Rightarrow> ips
      | Inr ifaces \<Rightarrow> ips @ List.map_filter addr_ip (usable_addrs ifaces))"

definition firstCN :: "string list \<Rightarrow> string \<Rightarrow> string" where
  "firstCN names fallback =
     (case find (\<lambda>n. \<not> HasPrefix n ''*'') names of Some n \<Rightarrow> n | None \<Rightarrow> fallback)"

definition writePEM :: "cert_env \<Rightarrow> string \<Rightarrow> string \<Rightarrow> bytes \<Rightarrow> fs \<Rightarrow> unit result \<times> fs" where
  "writePEM E path blockType der =
     and_then (fs_Create (os_errors.truncate E) path)
       (\<lambda>_. file_write (os_errors.truncate E) path (pem_block blockType der))"

text \<open>The set of names of the server certificate, as the list of its distinct elements.\<close>

definition clean_domain :: "string \<Rightarrow> string" where
  "clean_domain d = TrimSpace (TrimSuffix (TrimPrefix d ''https://'') ''/'')"

definition add_domain :: "string list \<Rightarrow> string \<Rightarrow> string list" where
  "add_domain names d0 =
     (let d = clean_domain d0;
          names1 = (if d \<noteq> [] then List.insert d names else names)
      in if \<not> Contains d ''*.'' then List.insert (''*.'' @ d) names1 else names1)"

definition dnsNames :: "string list \<Rightarrow> string list" where
  "dnsNames extraDomains = foldl add_domain [''localhost'', ''dns-proxy.local''] extraDomains"

section \<open>Generation\<close>

definition ca_template :: "int \<Rightarrow> int \<Rightarrow> x509_certificate" where
  "ca_template serial now =
     \<lparr>x_SerialNumber = serial,
      x_Organization = [''DNS Proxy Local CA''], x_CommonName = ''DNS Proxy Local CA'',
      x_NotBefore = now, x_NotAfter = now + 10 * 365 * 24 * 3600,
      x_KeyUsage = [CertSign, CRLSign, DigitalSignature], x_ServerAuth = False,
      x_BasicConstraintsValid = True, x_IsCA = True, x_MaxPathLen = 0,
      x_DNSNames = [], x_IPAddresses = []\<rparr>"

definition server_template :: "cert_env \<Rightarrow> string list \<Rightarrow> int \<Rightarrow> int \<Rightarrow> x509_certificate" where
  "server_template E extraDomains serial now =
     (let names = ce_map_order E (dnsNames extraDomains) in
      \<lparr>x_SerialNumber = serial,
       x_Organization = [''DNS Proxy''], x_CommonName = firstCN names ''dns-proxy.local'',
       x_NotBefore = now, x_NotAfter = now + 2 * 365 * 24 * 3600,
       x_KeyUsage = [DigitalSignature, KeyEncipherment], x_ServerAuth = True,
       x_BasicConstraintsValid = True, x_IsCA = False, x_MaxPathLen = 0,
       x_DNSNames = names, x_IPAddresses = localIPs E\<rparr>)"

definition generateCAAndServer ::
  "cert_env \<Rightarrow> string \<Rightarrow> string \<Rightarrow> string \<Rightarrow> string \<Rightarrow> string list \<Rightarrow> cert_state \<Rightarrow> unit result \<times> cert_state" where
  "generateCAAndServer E caCertFile caKeyFile certFile keyFile extraDomains =
     and_then (for_each (\<lambda>p. on_fs (fs_MkdirAll (os_errors.truncate E) (path_Dir p)))
                        [caCertFile, caKeyFile, certFile, keyFile]) (\<lambda>_.
     let now = ce_Now E - 3600 in
     and_then (drawing (ce_GenerateKey E)) (\<lambda>caKey.
     and_then (drawing (ce_RandInt E)) (\<lambda>caSerial.
     let caTmpl = ca_template caSerial now in
     and_then (drawing (\<lambda>n. ce_CreateCertificate E n caTmpl caTmpl (fst caKey) caKey)) (\<lambda>caDER.
     and_then (on_fs (writePEM E caCertFile ''CERTIFICATE'' caDER)) (\<lambda>_.
     and_then (lift_result (ce_MarshalECPrivateKey E caKey)) (\<lambda>caKeyDER.
     and_then (on_fs (writePEM E caKeyFile ''EC PRIVATE KEY'' caKeyDER)) (\<lambda>_.
     and_then (drawing (ce_GenerateKey E)) (\<lambda>srvKey.
     and_then (drawing (ce_RandInt E)) (\<lambda>srvSerial.
     let srvTmpl = server_template E extraDomains srvSerial now in
     and_then (lift_result (ce_ParseCertificate E caDER)) (\<lambda>caCert.
     and_then (drawing (\<lambda>n. ce_CreateCertificate E n srvTmpl caCert (fst srvKey) caKey)) (\<lambda>srvDER.
     and_then (on_fs (writePEM E certFile ''CERTIFICATE'' srvDER)) (\<lambda>_.
     and_then (lift_result (ce_MarshalECPrivateKey E srvKey)) (\<lambda>srvKeyDER.
     on_fs (writePEM E keyFile ''EC PRIVATE KEY'' srvKeyDER))))))))))))))"

text \<open>\<open>tls.LoadX509KeyPair\<close>: read both files, then parse them.\<close>

definition LoadX509KeyPair :: "cert_env \<Rightarrow> string \<Rightarrow> string \<Rightarrow> fs \<Rightarrow> tls_certificate result" where
  "LoadX509KeyPair E certFile keyFile d =
     (case fs_ReadFile (os_errors.truncate E) certFile d of
        Inl e \<Rightarrow> Inl e
      | Inr c \<Rightarrow>
          (case fs_ReadFile (os_errors.truncate E) keyFile d of
             Inl e \<Rightarrow> Inl e
           | Inr k \<Rightarrow> ce_X509KeyPair E c k))"

definition remove_all :: "cert_env \<Rightarrow> string list \<Rightarrow> fs \<Rightarrow> fs" where
  "remove_all E ps d = foldl (\<lambda>d p. snd (fs_Remove (os_errors.truncate E) p d)) d ps"

text \<open>The configuration, and whether a new pair was made.\<close>

definition EnsureSelfSigned ::
  "cert_env \<Rightarrow> string \<Rightarrow> string \<Rightarrow> string \<Rightarrow> string \<Rightarrow> bool \<Rightarrow> string list \<Rightarrow> cert_state \<Rightarrow>
     (tls_config \<times> bool) result \<times> cert_state" where
  "EnsureSelfSigned E certFile keyFile caCertFile caKeyFile force extraDomains s =
     (if certFile = [] \<or> keyFile = [] then (Inl ''cert file is empty'', s)
      else
        let s1 = (if force then s\<lparr>cs_fs := remove_all E [certFile, keyFile, caCertFile, caKeyFile] (cs_fs s)\<rparr>
                  else s);
            needsGen = (force \<or> \<not> fileExists E certFile (cs_fs s1) \<or> \<not> fileExists E keyFile (cs_fs s1))
        in and_then (if needsGen then generateCAAndServer E caCertFile caKeyFile certFile keyFile extraDomains
                     else return ())
             (\<lambda>_ s2.
                (case LoadX509KeyPair E certFile keyFile (cs_fs s2) of
                   Inl e \<Rightarrow> (Inl e, s2)
                 | Inr cert \<Rightarrow>
                     (Inr (\<lparr>tc_Certificates = [cert], tc_NextProtos = [''h2'', ''http/1.1''], tc_MinVersion = 0x0303\<rparr>,
                           needsGen), s2))) s1)"

end
