(* ===== verification/DnsServer.thy ===== *)
theory DnsServer
  imports Cert
begin

text \<open>
  \<open>internal/dns/server.go\<close>: the sockets of the DNS server over UDP, TCP and TLS. The operating
  system is the table of open sockets, the TLS listeners among them, and the sockets a started
  \<open>miekg/dns\<close> server reads. Which addresses resolve, which binds fail and whether a server's
  goroutine has begun by the time it is shut down are given by an environment. A socket is named by
  the number of the call that made it. Every message that arrives is passed to \<open>Handle\<close>.
\<close>

section \<open>State and environment\<close>

record socket =
  sk_id :: nat
  sk_net :: string
  sk_addr :: string

record os_net =
  on_calls :: nat
  on_open :: "socket list"
  on_tls :: "(nat \<times> tls_certificate list) list"
  on_serving :: "nat list"

record listen_env =
  li_Resolve :: "string \<Rightarrow> string \<Rightarrow> string result"
  li_Listen :: "nat \<Rightarrow> string \<Rightarrow> string \<Rightarrow> go_error option"
  li_started :: "nat \<Rightarrow> bool"

text \<open>A field of the server is the socket of its \<open>miekgdns.Server\<close>, or nil.\<close>

record dns_server =
  ds_addr :: string
  ds_udp :: "nat option"
  ds_tcp :: "nat option"
  ds_tls :: "nat option"

definition NewServer :: "string \<Rightarrow> dns_server" where
  "NewServer addr = \<lparr>ds_addr = addr, ds_udp = None, ds_tcp = None, ds_tls = None\<rparr>"

section \<open>Sockets\<close>

definition net_Listen :: "listen_env \<Rightarrow> string \<Rightarrow> string \<Rightarrow> os_net \<Rightarrow> nat result \<times> os_net" where
  "net_Listen E proto addr w =
     (let w1 = w\<lparr>on_calls := on_calls w + 1\<rparr> in
      case li_Listen E (on_calls w) proto addr of
        Some e \<Rightarrow> (Inl e, w1)
      | None \<Rightarrow>
          (Inr (on_calls w),
           w1\<lparr>on_open := on_open w @ [\<lparr>sk_id = on_calls w, sk_net = proto, sk_addr = addr\<rparr>]\<rparr>))"

definition net_Close :: "nat \<Rightarrow> os_net \<Rightarrow> os_net" where
  "net_Close i w = w\<lparr>on_open := filter (\<lambda>s. sk_id s \<noteq> i) (on_open w),
                     on_tls := filter (\<lambda>(j, _). j \<noteq> i) (on_tls w)\<rparr>"

text \<open>The goroutine that runs \<open>ActivateAndServe\<close>, and \<open>Shutdown\<close> of such a server: it closes the
  socket of a server that was started, and otherwise only reports an error.\<close>

definition go_serve :: "nat \<Rightarrow> os_net \<Rightarrow> os_net" where
  "go_serve i w = w\<lparr>on_serving := on_serving w @ [i]\<rparr>"

definition lib_Shutdown :: "listen_env \<Rightarrow> nat \<Rightarrow> os_net \<Rightarrow> os_net" where
  "lib_Shutdown E i w =
     (if i \<in> set (on_serving w) \<and> li_started E i
      then (net_Close i w)\<lparr>on_serving := filter (\<lambda>j. j \<noteq> i) (on_serving w)\<rparr>
      else w)"

section \<open>Operations\<close>

definition Start :: "listen_env \<Rightarrow> dns_server \<Rightarrow> os_net \<Rightarrow> unit result \<times> dns_server \<times> os_net" where
  "Start E s w =
     (case li_Resolve E ''udp'' (ds_addr s) of
        Inl e \<Rightarrow> (Inl e, s, w)
      | Inr udpAddr \<Rightarrow>
          (case net_Listen E ''udp'' udpAddr w of
             (Inl e, w1) \<Rightarrow> (Inl e, s, w1)
           | (Inr udpConn, w1) \<Rightarrow>
               (case li_Resolve E ''tcp'' (ds_addr s) of
                  Inl e \<Rightarrow> (Inl e, s, w1)
                | Inr tcpAddr \<Rightarrow>
                    (case net_Listen E ''tcp'' tcpAddr w1 of
                       (Inl e, w2) \<Rightarrow> (Inl e, s, net_Close udpConn w2)
                     | (Inr tcpListener, w2) \<Rightarrow>
                         (Inr (), s\<lparr>ds_udp := Some udpConn, ds_tcp := Some tcpListener\<rparr>,
                          go_serve tcpListener (go_serve udpConn w2))))))"

definition waitListen :: "listen_env \<Rightarrow> string \<Rightarrow> go_error option" where
  "waitListen E addr =
     (case li_Resolve E ''tcp'' addr of
        Inl e \<Rightarrow> Some (''resolve dns addr: '' @ e)
      | Inr _ \<Rightarrow> None)"

text \<open>\<open>load\<close> is \<open>tls.LoadX509KeyPair\<close> on the files there are.\<close>

definition StartTLS ::
  "listen_env \<Rightarrow> (string \<Rightarrow> string \<Rightarrow> tls_certificate result) \<Rightarrow> string \<Rightarrow> string \<Rightarrow> string \<Rightarrow>
     dns_server \<Rightarrow> os_net \<Rightarrow> unit result \<times> dns_server \<times> os_net" where
  "StartTLS E load addr certFile keyFile s w =
     (case li_Resolve E ''tcp'' addr of
        Inl e \<Rightarrow> (Inl e, s, w)
      | Inr tcpAddr \<Rightarrow>
          (case net_Listen E ''tcp'' tcpAddr w of
             (Inl e, w1) \<Rightarrow> (Inl e, s, w1)
           | (Inr l, w1) \<Rightarrow>
               (case (if certFile \<noteq> [] \<and> keyFile \<noteq> [] then map_sum id (\<lambda>c. [c]) (load certFile keyFile)
                      else Inr []) of
                  Inl e \<Rightarrow> (Inl e, s, net_Close l w1)
                | Inr certs \<Rightarrow>
                    (Inr (), s\<lparr>ds_tls := Some l\<rparr>,
                     go_serve l (w1\<lparr>on_tls := on_tls w1 @ [(l, certs)]\<rparr>)))))"

definition shutdown_field :: "listen_env \<Rightarrow> nat option \<Rightarrow> os_net \<Rightarrow> os_net" where
  "shutdown_field E f w = (case f of None \<Rightarrow> w | Some i \<Rightarrow> lib_Shutdown E i w)"

definition Server_Shutdown :: "listen_env \<Rightarrow> dns_server \<Rightarrow> os_net \<Rightarrow> os_net" where
  "Server_Shutdown E s w =
     shutdown_field E (ds_tls s) (shutdown_field E (ds_tcp s) (shutdown_field E (ds_udp s) w))"

section \<open>The table of sockets\<close>

text \<open>Sockets are named by calls already made.\<close>

definition net_ok :: "os_net \<Rightarrow> bool" where
  "net_ok w \<longleftrightarrow>
     (\<forall>s\<in>set (on_open w). sk_id s < on_calls w) \<and> (\<forall>(i, _)\<in>set (on_tls w). i < on_calls w) \<and>
     (\<forall>i\<in>set (on_serving w). i < on_calls w)"

definition same_net :: "os_net \<Rightarrow> os_net \<Rightarrow> bool" where
  "same_net w w' \<longleftrightarrow> on_open w' = on_open w \<and> on_tls w' = on_tls w \<and> on_serving w' = on_serving w"

lemma net_Listen_ok:
  "net_Listen E p a w = (Inr i, w') \<Longrightarrow>
     i = on_calls w \<and> w' = w\<lparr>on_calls := on_calls w + 1, on_open := on_open w @ [\<lparr>sk_id = i, sk_net = p, sk_addr = a\<rparr>]\<rparr>"
  by (auto simp: net_Listen_def Let_def split: option.splits)

lemma net_Listen_error: "net_Listen E p a w = (Inl e, w') \<Longrightarrow> w' = w\<lparr>on_calls := on_calls w + 1\<rparr>"
  by (auto simp: net_Listen_def Let_def split: option.splits)

lemma net_okD:
  assumes "net_ok w" and "on_calls w \<le> i"
  shows "filter (\<lambda>s. sk_id s \<noteq> i) (on_open w) = on_open w" "filter (\<lambda>(j, _). j \<noteq> i) (on_tls w) = on_tls w"
    "filter (\<lambda>j. j \<noteq> i) (on_serving w) = on_serving w" "i \<notin> set (on_serving w)"
  using assms by (fastforce simp: net_ok_def filter_id_conv)+

lemma Start_ok:
  assumes "Start E s w = (Inr (), s', w')"
  shows "\<exists>ua ta. s' = s\<lparr>ds_udp := Some (on_calls w), ds_tcp := Some (on_calls w + 1)\<rparr> \<and>
    w' = w\<lparr>on_calls := on_calls w + 2,
           on_open := on_open w @ [\<lparr>sk_id = on_calls w, sk_net = ''udp'', sk_addr = ua\<rparr>,
                                   \<lparr>sk_id = on_calls w + 1, sk_net = ''tcp'', sk_addr = ta\<rparr>],
           on_serving := on_serving w @ [on_calls w, on_calls w + 1]\<rparr>"
  using assms
  by (auto simp: Start_def go_serve_def dest!: net_Listen_ok split: sum.splits prod.splits) blast

lemma map_sum_Inr: "map_sum f g r = Inr y \<longleftrightarrow> (\<exists>x. r = Inr x \<and> y = g x)"
  by (cases r) auto

lemma StartTLS_ok:
  assumes "StartTLS E load addr cert key s w = (Inr (), s', w')"
  shows "\<exists>ta certs. s' = s\<lparr>ds_tls := Some (on_calls w)\<rparr> \<and>
    w' = w\<lparr>on_calls := on_calls w + 1,
           on_open := on_open w @ [\<lparr>sk_id = on_calls w, sk_net = ''tcp'', sk_addr = ta\<rparr>],
           on_tls := on_tls w @ [(on_calls w, certs)], on_serving := on_serving w @ [on_calls w]\<rparr> \<and>
    (cert \<noteq> [] \<longrightarrow> key \<noteq> [] \<longrightarrow> (\<exists>c. load cert key = Inr c \<and> certs = [c]))"
  using assms
  by (auto simp: StartTLS_def go_serve_def map_sum_Inr dest!: net_Listen_ok split: sum.splits prod.splits if_splits) blast+

lemma Start_error:
  assumes "net_ok w" and "Start E s w = (Inl e, s', w')"
  shows "s' = s \<and>
    (same_net w w' \<or>
     (\<exists>ua. li_Resolve E ''udp'' (ds_addr s) = Inr ua \<and> li_Resolve E ''tcp'' (ds_addr s) = Inl e \<and>
           on_serving w' = on_serving w \<and> on_tls w' = on_tls w \<and>
           on_open w' = on_open w @ [\<lparr>sk_id = on_calls w, sk_net = ''udp'', sk_addr = ua\<rparr>]))"
proof (cases "li_Resolve E ''udp'' (ds_addr s)")
  case (Inl e1)
  with assms(2) show ?thesis by (simp add: Start_def same_net_def)
next
  case (Inr ua)
  show ?thesis
  proof (cases "net_Listen E ''udp'' ua w")
    case udp: (Pair r w1)
    show ?thesis
    proof (cases r)
      case (Inl e1)
      with assms(2) Inr udp net_Listen_error[of E "''udp''" ua w e1 w1] show ?thesis
        by (simp add: Start_def same_net_def)
    next
      case u: (Inr i)
      note w1 = net_Listen_ok[of E "''udp''" ua w i w1]
      show ?thesis
      proof (cases "li_Resolve E ''tcp'' (ds_addr s)")
        case (Inl e1)
        with assms(2) Inr udp u w1 show ?thesis by (auto simp: Start_def)
      next
        case t: (Inr ta)
        with assms(2) Inr udp u obtain w2 where l: "net_Listen E ''tcp'' ta w1 = (Inl e, w2)"
          and w': "s' = s" "w' = net_Close i w2"
          by (auto simp: Start_def split: prod.splits sum.splits)
        have "same_net w w'"
          using w' net_Listen_error[OF l] w1 udp u net_okD[OF assms(1), of i]
          by (simp add: same_net_def net_Close_def)
        with w' show ?thesis by simp
      qed
    qed
  qed
qed

text \<open>A TLS listener that cannot load its certificate is closed again.\<close>

lemma StartTLS_error:
  assumes "net_ok w" and "StartTLS E load addr cert key s w = (Inl e, s', w')"
  shows "s' = s \<and> same_net w w'"
proof (cases "li_Resolve E ''tcp'' addr")
  case (Inl e1)
  with assms(2) show ?thesis by (simp add: StartTLS_def same_net_def)
next
  case (Inr ta)
  show ?thesis
  proof (cases "net_Listen E ''tcp'' ta w")
    case tcp: (Pair r w1)
    show ?thesis
    proof (cases r)
      case (Inl e1)
      with assms(2) Inr tcp net_Listen_error[of E "''tcp''" ta w e1 w1] show ?thesis
        by (simp add: StartTLS_def same_net_def)
    next
      case l: (Inr i)
      with assms(2) Inr tcp have "s' = s" "w' = net_Close i w1"
        by (auto simp: StartTLS_def split: sum.splits)
      with net_Listen_ok[of E "''tcp''" ta w i w1] tcp l net_okD[OF assms(1), of i] show ?thesis
        by (simp add: same_net_def net_Close_def)
    qed
  qed
qed

text \<open>C31: a start that fails leaves the server and the sockets as they were, with one exception. The
  TLS listener is closed again when the certificate cannot be loaded, and the UDP socket when the TCP
  port cannot be had; but when the address resolves for UDP and not for TCP, the UDP socket stays
  open and nobody reads it.\<close>

theorem failed_start_sockets:
  assumes "net_ok w"
  shows "(Start E s w = (Inl e, s', w') \<longrightarrow>
      s' = s \<and>
      (same_net w w' \<or>
       (\<exists>ua. li_Resolve E ''udp'' (ds_addr s) = Inr ua \<and> li_Resolve E ''tcp'' (ds_addr s) = Inl e \<and>
             on_serving w' = on_serving w \<and> on_tls w' = on_tls w \<and>
             on_open w' = on_open w @ [\<lparr>sk_id = on_calls w, sk_net = ''udp'', sk_addr = ua\<rparr>]))) \<and>
    (StartTLS E load addr cert key s w = (Inl e, s', w') \<longrightarrow> s' = s \<and> same_net w w')"
  using Start_error[OF assms] StartTLS_error[OF assms] by blast

text \<open>C30: the life of the server: after a start of all three listeners whose goroutines have begun, a
  shutdown closes exactly the sockets the two starts opened, and a second shutdown does nothing.\<close>

theorem start_shutdown_roundtrip:
  assumes "net_ok w" and "Start E s w = (Inr (), s1, w1)" and "StartTLS E load addr cert key s1 w1 = (Inr (), s2, w2)"
    and "\<forall>i. li_started E i"
  shows "same_net w (Server_Shutdown E s2 w2) \<and>
    Server_Shutdown E s2 (Server_Shutdown E s2 w2) = Server_Shutdown E s2 w2"
proof -
  let ?n = "on_calls w"
  from Start_ok[OF assms(2)] obtain ua ta where s1: "s1 = s\<lparr>ds_udp := Some ?n, ds_tcp := Some (?n + 1)\<rparr>"
    and w1: "w1 = w\<lparr>on_calls := ?n + 2,
           on_open := on_open w @ [\<lparr>sk_id = ?n, sk_net = ''udp'', sk_addr = ua\<rparr>, \<lparr>sk_id = ?n + 1, sk_net = ''tcp'', sk_addr = ta\<rparr>],
           on_serving := on_serving w @ [?n, ?n + 1]\<rparr>" by blast
  from StartTLS_ok[OF assms(3)] obtain tl certs where s2: "s2 = s1\<lparr>ds_tls := Some (on_calls w1)\<rparr>"
    and w2: "w2 = w1\<lparr>on_calls := on_calls w1 + 1,
           on_open := on_open w1 @ [\<lparr>sk_id = on_calls w1, sk_net = ''tcp'', sk_addr = tl\<rparr>],
           on_tls := on_tls w1 @ [(on_calls w1, certs)], on_serving := on_serving w1 @ [on_calls w1]\<rparr>" by blast
  have f: "ds_udp s2 = Some ?n" "ds_tcp s2 = Some (?n + 1)" "ds_tls s2 = Some (?n + 2)"
    by (simp_all add: s2 s1 w1)
  note fresh = net_okD[OF assms(1), of ?n] net_okD[OF assms(1), of "?n + 1"] net_okD[OF assms(1), of "?n + 2"]
  have "same_net w (Server_Shutdown E s2 w2)"
    using assms(4) fresh
    by (simp add: Server_Shutdown_def f shutdown_field_def lib_Shutdown_def net_Close_def same_net_def w2 w1)
  moreover from this have "Server_Shutdown E s2 (Server_Shutdown E s2 w2) = Server_Shutdown E s2 w2"
    using fresh by (simp add: Server_Shutdown_def[of E s2 "Server_Shutdown E s2 w2"] f shutdown_field_def
        lib_Shutdown_def same_net_def)
  ultimately show ?thesis by simp
qed

section \<open>Witnesses\<close>

definition example_listen :: "(string \<Rightarrow> string \<Rightarrow> string result) \<Rightarrow> listen_env" where
  "example_listen res = \<lparr>li_Resolve = res, li_Listen = (\<lambda>_ _ _. None), li_started = (\<lambda>_. True)\<rparr>"

definition no_sockets :: os_net where
  "no_sockets = \<lparr>on_calls = 0, on_open = [], on_tls = [], on_serving = []\<rparr>"

lemma no_sockets_ok: "net_ok no_sockets"
  by (simp add: net_ok_def no_sockets_def)

theorem failed_start_sockets_witness:
  "(let r = Start (example_listen (\<lambda>n a. if n = ''udp'' then Inr a else Inl ''unknown port'')) (NewServer '':x'') no_sockets in
      fst (snd r) = NewServer '':x'' \<and> length (on_open (snd (snd r))) = 1) \<and>
   (let r = StartTLS (example_listen (\<lambda>_. Inr)) (\<lambda>_ _. Inl ''no such file'') '':853'' ''c'' ''k'' (NewServer '':x'') no_sockets in
      fst (snd r) = NewServer '':x'' \<and> same_net no_sockets (snd (snd r)))"
proof -
  let ?S = "Start (example_listen (\<lambda>n a. if n = ''udp'' then Inr a else Inl ''unknown port'')) (NewServer '':x'') no_sockets"
  let ?T = "StartTLS (example_listen (\<lambda>_. Inr)) (\<lambda>_ _. Inl ''no such file'') '':853'' ''c'' ''k'' (NewServer '':x'') no_sockets"
  have e: "fst ?S = Inl ''unknown port''" "fst ?T = Inl ''no such file''" by code_simp+
  have o: "length (on_open (snd (snd ?S))) = 1" by code_simp
  have S: "?S = (Inl ''unknown port'', fst (snd ?S), snd (snd ?S))" using e(1) by (metis prod.collapse)
  have T: "?T = (Inl ''no such file'', fst (snd ?T), snd (snd ?T))" using e(2) by (metis prod.collapse)
  have "fst (snd ?S) = NewServer '':x''" using failed_start_sockets[OF no_sockets_ok] S by blast
  moreover have "fst (snd ?T) = NewServer '':x'' \<and> same_net no_sockets (snd (snd ?T))"
    using failed_start_sockets[OF no_sockets_ok] T by blast
  ultimately show ?thesis using o unfolding Let_def by blast
qed

theorem start_shutdown_roundtrip_witness:
  "\<exists>s w. Server_Shutdown (example_listen (\<lambda>_. Inr)) s (Server_Shutdown (example_listen (\<lambda>_. Inr)) s w) =
       Server_Shutdown (example_listen (\<lambda>_. Inr)) s w \<and> same_net no_sockets (Server_Shutdown (example_listen (\<lambda>_. Inr)) s w) \<and>
     length (on_open w) = 3"
proof -
  let ?E = "example_listen (\<lambda>_. Inr)"
  let ?S1 = "Start ?E (NewServer ''0.0.0.0:53'') no_sockets"
  let ?S2 = "StartTLS ?E (\<lambda>_ _. Inr ([], [])) ''0.0.0.0:853'' ''c'' ''k'' (fst (snd ?S1)) (snd (snd ?S1))"
  have r: "fst ?S1 = Inr ()" "fst ?S2 = Inr ()" "length (on_open (snd (snd ?S2))) = 3" by code_simp+
  have S1: "?S1 = (Inr (), fst (snd ?S1), snd (snd ?S1))" using r(1) by (metis prod.collapse)
  have S2: "?S2 = (Inr (), fst (snd ?S2), snd (snd ?S2))" using r(2) by (metis prod.collapse)
  have "\<forall>i. li_started ?E i" by (simp add: example_listen_def)
  from start_shutdown_roundtrip[OF no_sockets_ok S1 S2 this] r(3) show ?thesis by blast
qed

end
