(* ===== verification/CertProps.thy ===== *)
theory CertProps
  imports Cert
begin

text \<open>
  What \<open>EnsureSelfSigned\<close> guarantees: the names a server certificate is issued for, that a missing
  pair is made and then kept, and what a key file that was only half written does to later starts.
\<close>

section \<open>Names\<close>

definition names_for :: "string \<Rightarrow> string set" where
  "names_for d =
     (if clean_domain d \<noteq> [] then {clean_domain d} else {}) \<union>
     (if Contains (clean_domain d) ''*.'' then {} else {''*.'' @ clean_domain d})"

lemma set_dnsNames: "set (dnsNames ds) = {''localhost'', ''dns-proxy.local''} \<union> \<Union>(names_for ` set ds)"
proof -
  have "set (foldl add_domain ns ds) = set ns \<union> \<Union>(names_for ` set ds)" for ns
    by (induction ds arbitrary: ns) (auto simp: add_domain_def names_for_def Let_def)
  then show ?thesis by (simp add: dnsNames_def)
qed

lemma distinct_dnsNames: "distinct (dnsNames ds)"
proof -
  have "distinct ns \<Longrightarrow> distinct (foldl add_domain ns ds)" for ns
    by (induction ds arbitrary: ns) (simp_all add: add_domain_def Let_def)
  then show ?thesis by (simp add: dnsNames_def)
qed

definition map_order_ok :: "cert_env \<Rightarrow> bool" where
  "map_order_ok E \<longleftrightarrow> (\<forall>ns. mset (ce_map_order E ns) = mset ns)"

lemma server_DNSNames: "x_DNSNames (server_template E ds n t) = ce_map_order E (dnsNames ds)"
  by (simp add: server_template_def Let_def)

lemma server_names: "map_order_ok E \<Longrightarrow> set (x_DNSNames (server_template E ds n t)) = set (dnsNames ds)"
  unfolding server_DNSNames map_order_ok_def using mset_eq_setD by blast

lemma firstCN_among:
  assumes "n \<in> set names" and "\<not> HasPrefix n ''*''"
  shows "firstCN names fb \<in> set names \<and> \<not> HasPrefix (firstCN names fb) ''*''"
  using assms by (auto simp: firstCN_def find_None_set dest: find_SomeD split: option.split)

lemma server_CN: "x_CommonName (server_template E ds n t) = firstCN (x_DNSNames (server_template E ds n t)) ''dns-proxy.local''"
  by (simp add: server_template_def Let_def)

lemma loopback_named: "v4_in_v6 [127, 0, 0, 1] \<in> set (x_IPAddresses (server_template E ds n t))"
  by (simp add: server_template_def Let_def localIPs_def split: sum.split)

text \<open>C27: the certificate of the servers is issued for \<open>localhost\<close>, \<open>dns-proxy.local\<close>, 127.0.0.1 and,
  for each configured host name, the name and its wildcard and for nothing else, each once; its
  common name is one of them and no wildcard, whatever order the names are ranged over.\<close>

theorem server_certificate_names:
  assumes "map_order_ok E"
  shows "set (x_DNSNames (server_template E ds n t)) = {''localhost'', ''dns-proxy.local''} \<union> \<Union>(names_for ` set ds) \<and>
    distinct (x_DNSNames (server_template E ds n t)) \<and>
    x_CommonName (server_template E ds n t) \<in> set (x_DNSNames (server_template E ds n t)) \<and>
    \<not> HasPrefix (x_CommonName (server_template E ds n t)) ''*'' \<and>
    v4_in_v6 [127, 0, 0, 1] \<in> set (x_IPAddresses (server_template E ds n t))"
proof -
  let ?t = "server_template E ds n t"
  have s: "set (x_DNSNames ?t) = {''localhost'', ''dns-proxy.local''} \<union> \<Union>(names_for ` set ds)"
    using server_names[OF assms] set_dnsNames by simp
  have "mset (x_DNSNames ?t) = mset (dnsNames ds)"
    using assms by (simp add: map_order_ok_def server_DNSNames)
  then have "distinct (x_DNSNames ?t)"
    using distinct_dnsNames mset_eq_imp_distinct_iff by blast
  moreover have "\<not> HasPrefix ''localhost'' ''*''" by code_simp
  moreover have "''localhost'' \<in> set (x_DNSNames ?t)" using s by simp
  ultimately show ?thesis using s firstCN_among loopback_named server_CN by metis
qed

section \<open>Runs of the generation\<close>

definition no_errors :: "cert_env \<Rightarrow> bool" where
  "no_errors E \<longleftrightarrow> (\<forall>op p. oe_error E op p = None)"

definition crypto_ok :: "cert_env \<Rightarrow> bool" where
  "crypto_ok E \<longleftrightarrow>
     (\<forall>n. is_ok (ce_GenerateKey E n)) \<and> (\<forall>n. is_ok (ce_RandInt E n)) \<and>
     (\<forall>n t p pub k. is_ok (ce_CreateCertificate E n t p pub k)) \<and>
     (\<forall>k. is_ok (ce_MarshalECPrivateKey E k)) \<and>
     (\<forall>n t p pub k der. ce_CreateCertificate E n t p pub k = Inr der \<longrightarrow> is_ok (ce_ParseCertificate E der)) \<and>
     (\<forall>n t p key k der kd.
        ce_CreateCertificate E n t p (fst key) k = Inr der \<longrightarrow> ce_MarshalECPrivateKey E key = Inr kd \<longrightarrow>
        is_ok (ce_X509KeyPair E (pem_block ''CERTIFICATE'' der) (pem_block ''EC PRIVATE KEY'' kd)))"

text \<open>The directories of the four files can be made and the files can be created in them.\<close>

definition paths_ok :: "fs \<Rightarrow> string list \<Rightarrow> bool" where
  "paths_ok d ps \<longleftrightarrow>
     distinct ps \<and> list_all (\<lambda>p. map_of d p \<noteq> Some DirNode) ps \<and>
     list_all (\<lambda>p. list_all (\<lambda>q. \<not> is_file d q \<and> q \<notin> set ps) (path_prefixes (path_Dir p))) ps"

lemma truncate_fields [simp]:
  "oe_error (os_errors.truncate E) = oe_error E" "oe_write (os_errors.truncate E) = oe_write E"
  by (simp_all add: os_errors.truncate_def)

lemma mkdirs_run:
  assumes "no_errors E" and "\<forall>p\<in>set ps. \<forall>q\<in>set (path_prefixes (path_Dir p)). \<not> is_file (cs_fs s) q"
  shows "\<exists>d. for_each (\<lambda>p. on_fs (fs_MkdirAll (os_errors.truncate E) (path_Dir p))) ps s = (Inr (), s\<lparr>cs_fs := d\<rparr>) \<and>
    (\<forall>q. (\<forall>p\<in>set ps. q \<notin> set (path_prefixes (path_Dir p))) \<longrightarrow> map_of d q = map_of (cs_fs s) q)"
  using assms(2)
proof (induction ps arbitrary: s)
  case Nil
  show ?case by (rule exI[of _ "cs_fs s"]) simp
next
  case (Cons p ps)
  define d1 where "d1 = foldl (\<lambda>d q. AList.update q DirNode d) (cs_fs s) (path_prefixes (path_Dir p))"
  have d1: "map_of d1 = (\<lambda>q. if q \<in> set (path_prefixes (path_Dir p)) then Some DirNode else map_of (cs_fs s) q)"
    unfolding d1_def by (rule map_of_mkdirs)
  have "\<not> list_ex (is_file (cs_fs s)) (path_prefixes (path_Dir p))"
    using Cons.prems by (auto simp: list_ex_iff)
  then have run: "on_fs (fs_MkdirAll (os_errors.truncate E) (path_Dir p)) s = (Inr (), s\<lparr>cs_fs := d1\<rparr>)"
    using assms(1) by (simp add: on_fs_def fs_MkdirAll_def no_errors_def d1_def)
  have "\<forall>p'\<in>set ps. \<forall>q\<in>set (path_prefixes (path_Dir p')). \<not> is_file (cs_fs (s\<lparr>cs_fs := d1\<rparr>)) q"
    using Cons.prems by (simp add: is_file_def d1)
  from Cons.IH[OF this] obtain d where
    d: "for_each (\<lambda>p. on_fs (fs_MkdirAll (os_errors.truncate E) (path_Dir p))) ps (s\<lparr>cs_fs := d1\<rparr>) = (Inr (), s\<lparr>cs_fs := d\<rparr>)"
    "\<forall>q. (\<forall>p\<in>set ps. q \<notin> set (path_prefixes (path_Dir p))) \<longrightarrow> map_of d q = map_of d1 q" by auto
  with run show ?case by (intro exI[of _ d]) (simp add: d1)
qed

lemma writePEM_run:
  assumes "no_errors E" and "map_of (cs_fs s) p \<noteq> Some DirNode"
  shows "\<exists>d. on_fs (writePEM E p t der) s =
      on_fs (file_write (os_errors.truncate E) p (pem_block t der)) (s\<lparr>cs_fs := d\<rparr>) \<and>
    map_of d = (map_of (cs_fs s))(p \<mapsto> FileNode [])"
  using assms
  by (auto simp: on_fs_def writePEM_def and_then_def fs_Create_def no_errors_def intro!: exI[of _ "AList.update p (FileNode []) (cs_fs s)"])

lemma writePEM_ok:
  assumes "no_errors E" and "map_of (cs_fs s) p \<noteq> Some DirNode" and "oe_write E p = None"
  shows "\<exists>d. on_fs (writePEM E p t der) s = (Inr (), s\<lparr>cs_fs := d\<rparr>) \<and>
    map_of d = (map_of (cs_fs s))(p \<mapsto> FileNode (pem_block t der))"
proof -
  from writePEM_run[OF assms(1,2), of t der] obtain d where
    "on_fs (writePEM E p t der) s = on_fs (file_write (os_errors.truncate E) p (pem_block t der)) (s\<lparr>cs_fs := d\<rparr>)"
    "map_of d = (map_of (cs_fs s))(p \<mapsto> FileNode [])" by blast
  then show ?thesis
    using assms(3)
    by (intro exI[of _ "AList.update p (FileNode (pem_block t der)) d"]) (simp add: on_fs_def file_write_def file_bytes_def)
qed

lemma is_okE: "is_ok r \<Longrightarrow> \<exists>x. r = Inr x"
  by (cases r) auto

lemma drawing_run:
  assumes "\<And>n. is_ok (f n)"
  shows "\<exists>x. drawing f s = (Inr x, s\<lparr>cs_draws := cs_draws s + 1\<rparr>) \<and> f (cs_draws s) = Inr x"
  using is_okE[OF assms, of "cs_draws s"] by (auto simp: drawing_def)

lemma crypto_steps:
  assumes "crypto_ok E"
  shows "is_ok (ce_GenerateKey E n)" "is_ok (ce_RandInt E n)" "is_ok (ce_CreateCertificate E n t p pub k)"
    "is_ok (ce_MarshalECPrivateKey E k)"
    "ce_CreateCertificate E n t p pub k = Inr der \<Longrightarrow> is_ok (ce_ParseCertificate E der)"
proof -
  note c = assms[unfolded crypto_ok_def]
  show "is_ok (ce_GenerateKey E n)" "is_ok (ce_RandInt E n)" using c by simp_all
  show "is_ok (ce_CreateCertificate E n t p pub k)" using c by blast
  show "is_ok (ce_MarshalECPrivateKey E k)" using c by blast
  show "ce_CreateCertificate E n t p pub k = Inr der \<Longrightarrow> is_ok (ce_ParseCertificate E der)" using c by blast
qed

text \<open>Up to the writing of the server's key nothing can fail: then the certificate is in its file
  and the key's file is empty.\<close>

lemma generate_run:
  assumes ok: "no_errors E" "crypto_ok E" and paths: "paths_ok (cs_fs s) [ca, cak, cert, key]"
    and writes: "oe_write E ca = None" "oe_write E cak = None" "oe_write E cert = None"
  shows "\<exists>s' n t p k sk der kd.
    generateCAAndServer E ca cak cert key ds s =
      on_fs (file_write (os_errors.truncate E) key (pem_block ''EC PRIVATE KEY'' kd)) s' \<and>
    ce_CreateCertificate E n t p (fst k) sk = Inr der \<and> ce_MarshalECPrivateKey E k = Inr kd \<and>
    x_DNSNames t = ce_map_order E (dnsNames ds) \<and>
    map_of (cs_fs s') cert = Some (FileNode (pem_block ''CERTIFICATE'' der)) \<and> map_of (cs_fs s') key = Some (FileNode [])"
proof -
  let ?ps = "[ca, cak, cert, key]" and ?now = "ce_Now E - 3600"
  have dist: "distinct ?ps" and nodir: "\<forall>p\<in>set ?ps. map_of (cs_fs s) p \<noteq> Some DirNode"
    and pre: "\<forall>p\<in>set ?ps. \<forall>q\<in>set (path_prefixes (path_Dir p)). \<not> is_file (cs_fs s) q \<and> q \<notin> set ?ps"
    using paths by (auto simp: paths_ok_def list_all_iff)
  from mkdirs_run[OF ok(1), of ?ps s] pre obtain d0 where
    r0: "for_each (\<lambda>p. on_fs (fs_MkdirAll (os_errors.truncate E) (path_Dir p))) ?ps s = (Inr (), s\<lparr>cs_fs := d0\<rparr>)"
    and d0: "\<forall>q. (\<forall>p\<in>set ?ps. q \<notin> set (path_prefixes (path_Dir p))) \<longrightarrow> map_of d0 q = map_of (cs_fs s) q" by blast
  define s0 where "s0 = s\<lparr>cs_fs := d0\<rparr>"
  have n0: "\<forall>p\<in>set ?ps. map_of (cs_fs s0) p \<noteq> Some DirNode"
  proof
    fix p assume p: "p \<in> set ?ps"
    then have "map_of d0 p = map_of (cs_fs s) p" using d0 pre by blast
    moreover have "map_of (cs_fs s) p \<noteq> Some DirNode" using nodir p by (rule bspec)
    ultimately show "map_of (cs_fs s0) p \<noteq> Some DirNode" by (simp add: s0_def)
  qed
  obtain caKey where r1: "drawing (ce_GenerateKey E) s0 = (Inr caKey, s0\<lparr>cs_draws := cs_draws s0 + 1\<rparr>)"
    using drawing_run[of "ce_GenerateKey E" s0, OF crypto_steps(1)[OF ok(2)]] by blast
  define s1 where "s1 = s0\<lparr>cs_draws := cs_draws s0 + 1\<rparr>"
  obtain caSerial where r2: "drawing (ce_RandInt E) s1 = (Inr caSerial, s1\<lparr>cs_draws := cs_draws s1 + 1\<rparr>)"
    using drawing_run[of "ce_RandInt E" s1, OF crypto_steps(2)[OF ok(2)]] by blast
  define s2 where "s2 = s1\<lparr>cs_draws := cs_draws s1 + 1\<rparr>"
  let ?ct = "ca_template caSerial ?now"
  obtain caDER where
    r3: "drawing (\<lambda>n. ce_CreateCertificate E n ?ct ?ct (fst caKey) caKey) s2 = (Inr caDER, s2\<lparr>cs_draws := cs_draws s2 + 1\<rparr>)"
    and c3: "ce_CreateCertificate E (cs_draws s2) ?ct ?ct (fst caKey) caKey = Inr caDER"
    using drawing_run[of "\<lambda>n. ce_CreateCertificate E n ?ct ?ct (fst caKey) caKey" s2, OF crypto_steps(3)[OF ok(2)]] by blast
  define s3 where "s3 = s2\<lparr>cs_draws := cs_draws s2 + 1\<rparr>"
  have fs3: "cs_fs s3 = cs_fs s0" by (simp add: s3_def s2_def s1_def)
  obtain d4 where r4: "on_fs (writePEM E ca ''CERTIFICATE'' caDER) s3 = (Inr (), s3\<lparr>cs_fs := d4\<rparr>)"
    and d4: "map_of d4 = (map_of (cs_fs s0))(ca \<mapsto> FileNode (pem_block ''CERTIFICATE'' caDER))"
    using writePEM_ok[OF ok(1) _ writes(1), of s3 "''CERTIFICATE''" caDER] n0 fs3 by auto
  define s4 where "s4 = s3\<lparr>cs_fs := d4\<rparr>"
  obtain caKD where r5: "ce_MarshalECPrivateKey E caKey = Inr caKD"
    using is_okE[OF crypto_steps(4)[OF ok(2)]] by blast
  have "map_of (cs_fs s4) cak \<noteq> Some DirNode" using d4 n0 dist by (simp add: s4_def)
  from writePEM_ok[OF ok(1) this writes(2), of "''EC PRIVATE KEY''" caKD] obtain d5 where
    r6: "on_fs (writePEM E cak ''EC PRIVATE KEY'' caKD) s4 = (Inr (), s4\<lparr>cs_fs := d5\<rparr>)"
    and d5: "map_of d5 = (map_of (cs_fs s4))(cak \<mapsto> FileNode (pem_block ''EC PRIVATE KEY'' caKD))" by blast
  define s5 where "s5 = s4\<lparr>cs_fs := d5\<rparr>"
  obtain srvKey where r7: "drawing (ce_GenerateKey E) s5 = (Inr srvKey, s5\<lparr>cs_draws := cs_draws s5 + 1\<rparr>)"
    using drawing_run[of "ce_GenerateKey E" s5, OF crypto_steps(1)[OF ok(2)]] by blast
  define s6 where "s6 = s5\<lparr>cs_draws := cs_draws s5 + 1\<rparr>"
  obtain srvSerial where r8: "drawing (ce_RandInt E) s6 = (Inr srvSerial, s6\<lparr>cs_draws := cs_draws s6 + 1\<rparr>)"
    using drawing_run[of "ce_RandInt E" s6, OF crypto_steps(2)[OF ok(2)]] by blast
  define s7 where "s7 = s6\<lparr>cs_draws := cs_draws s6 + 1\<rparr>"
  obtain caCert where r9: "ce_ParseCertificate E caDER = Inr caCert"
    using is_okE[OF crypto_steps(5)[OF ok(2) c3]] by blast
  let ?st = "server_template E ds srvSerial ?now"
  obtain srvDER where
    r10: "drawing (\<lambda>n. ce_CreateCertificate E n ?st caCert (fst srvKey) caKey) s7 = (Inr srvDER, s7\<lparr>cs_draws := cs_draws s7 + 1\<rparr>)"
    and c10: "ce_CreateCertificate E (cs_draws s7) ?st caCert (fst srvKey) caKey = Inr srvDER"
    using drawing_run[of "\<lambda>n. ce_CreateCertificate E n ?st caCert (fst srvKey) caKey" s7, OF crypto_steps(3)[OF ok(2)]] by blast
  define s8 where "s8 = s7\<lparr>cs_draws := cs_draws s7 + 1\<rparr>"
  have fs8: "cs_fs s8 = d5" by (simp add: s8_def s7_def s6_def s5_def)
  have "map_of (cs_fs s8) cert \<noteq> Some DirNode" using fs8 d5 d4 n0 dist by (simp add: s4_def)
  from writePEM_ok[OF ok(1) this writes(3), of "''CERTIFICATE''" srvDER] obtain d9 where
    r11: "on_fs (writePEM E cert ''CERTIFICATE'' srvDER) s8 = (Inr (), s8\<lparr>cs_fs := d9\<rparr>)"
    and d9: "map_of d9 = (map_of (cs_fs s8))(cert \<mapsto> FileNode (pem_block ''CERTIFICATE'' srvDER))" by blast
  define s9 where "s9 = s8\<lparr>cs_fs := d9\<rparr>"
  obtain kd where r12: "ce_MarshalECPrivateKey E srvKey = Inr kd"
    using is_okE[OF crypto_steps(4)[OF ok(2)]] by blast
  have "map_of (cs_fs s9) key \<noteq> Some DirNode" using d9 fs8 d5 d4 n0 dist by (simp add: s9_def s4_def)
  from writePEM_run[OF ok(1) this, of "''EC PRIVATE KEY''" kd] obtain d10 where
    r13: "on_fs (writePEM E key ''EC PRIVATE KEY'' kd) s9 =
      on_fs (file_write (os_errors.truncate E) key (pem_block ''EC PRIVATE KEY'' kd)) (s9\<lparr>cs_fs := d10\<rparr>)"
    and d10: "map_of d10 = (map_of (cs_fs s9))(key \<mapsto> FileNode [])" by blast
  note steps = r0[folded s0_def] r1[folded s1_def] r2[folded s2_def] r3[folded s3_def] r4[folded s4_def] r5 r6[folded s5_def]
    r7[folded s6_def] r8[folded s7_def] r9 r10[folded s8_def] r11[folded s9_def] r12 r13
  have "generateCAAndServer E ca cak cert key ds s =
      on_fs (file_write (os_errors.truncate E) key (pem_block ''EC PRIVATE KEY'' kd)) (s9\<lparr>cs_fs := d10\<rparr>)"
    unfolding generateCAAndServer_def Let_def
    by (simp only: and_then_simps steps)
  moreover have "map_of d10 cert = Some (FileNode (pem_block ''CERTIFICATE'' srvDER))"
    using d10 d9 dist by (simp add: s9_def)
  moreover have "map_of d10 key = Some (FileNode [])" using d10 by simp
  ultimately show ?thesis using c10 r12 server_DNSNames[of E ds srvSerial ?now] by fastforce
qed

section \<open>The pair that is served\<close>

lemma remove_all_sub: "map_of (remove_all E ps d) q = None \<or> map_of (remove_all E ps d) q = map_of d q"
proof -
  have "map_of (foldl (\<lambda>d p. snd (fs_Remove e p d)) d ps) q \<in> {None, map_of d q}" for e :: os_errors
  proof (induction ps arbitrary: d)
    case (Cons p ps)
    have "map_of (snd (fs_Remove e p d)) q \<in> {None, map_of d q}"
      by (auto simp: fs_Remove_def split: option.split)
    with Cons.IH[of "snd (fs_Remove e p d)"] show ?case by auto
  qed simp
  then show ?thesis by (simp add: remove_all_def)
qed

lemma paths_ok_sub:
  assumes "paths_ok d ps" and "\<And>q. map_of d' q = None \<or> map_of d' q = map_of d q"
  shows "paths_ok d' ps"
proof -
  have isf: "is_file d' q \<Longrightarrow> is_file d q" for q
    using assms(2)[of q] by (auto simp: is_file_def)
  have dir: "map_of d' q = Some DirNode \<Longrightarrow> map_of d q = Some DirNode" for q
    using assms(2)[of q] by auto
  from assms(1) isf dir show ?thesis by (fastforce simp: paths_ok_def list_all_iff)
qed

lemma load_files:
  assumes "LoadX509KeyPair E cert key d = Inr c" and "oe_error E ''stat'' cert = None" "oe_error E ''stat'' key = None"
  shows "fileExists E cert d" and "fileExists E key d"
  using assms by (auto simp: LoadX509KeyPair_def fs_ReadFile_def fileExists_def fs_Stat_def
      split: sum.splits option.splits node.splits)

lemma load_pair:
  assumes "no_errors E" and "map_of d cert = Some (FileNode c)" and "map_of d key = Some (FileNode k)"
  shows "LoadX509KeyPair E cert key d = ce_X509KeyPair E c k" and "fileExists E cert d" "fileExists E key d"
  using assms by (simp_all add: LoadX509KeyPair_def fs_ReadFile_def fileExists_def fs_Stat_def no_errors_def)

definition served :: "tls_certificate \<Rightarrow> tls_config" where
  "served c = \<lparr>tc_Certificates = [c], tc_NextProtos = [''h2'', ''http/1.1''], tc_MinVersion = 0x0303\<rparr>"

text \<open>Both files are there: the pair is loaded as it is and nothing changes.\<close>

lemma EnsureSelfSigned_present:
  assumes "cert \<noteq> []" "key \<noteq> []" and "fileExists E cert (cs_fs s)" "fileExists E key (cs_fs s)"
  shows "EnsureSelfSigned E cert key ca cak False ds s =
    (case LoadX509KeyPair E cert key (cs_fs s) of Inl e \<Rightarrow> Inl e | Inr c \<Rightarrow> Inr (served c, False), s)"
  using assms by (simp add: EnsureSelfSigned_def served_def split: sum.split)

lemma EnsureSelfSigned_ok:
  assumes "EnsureSelfSigned E cert key ca cak force ds s = (Inr (cfg, new), s')"
  shows "cert \<noteq> []" "key \<noteq> []" and "\<exists>c. LoadX509KeyPair E cert key (cs_fs s') = Inr c \<and> cfg = served c"
  using assms by (auto simp: EnsureSelfSigned_def Let_def and_then_ok served_def split: if_splits sum.splits)

text \<open>The pair is kept: after a call that succeeded, a call without force finds both files, makes
  nothing and serves the same pair, whatever host names it is given.\<close>

theorem EnsureSelfSigned_stable:
  assumes "EnsureSelfSigned E cert key ca cak force ds s = (Inr (cfg, new), s')"
    and "oe_error E ''stat'' cert = None" and "oe_error E ''stat'' key = None"
  shows "EnsureSelfSigned E cert key ca' cak' False ds' s' = (Inr (cfg, False), s')"
proof -
  from EnsureSelfSigned_ok[OF assms(1)] obtain c where ne: "cert \<noteq> []" "key \<noteq> []"
    and c: "LoadX509KeyPair E cert key (cs_fs s') = Inr c" "cfg = served c" by blast
  from EnsureSelfSigned_present[OF ne load_files[OF c(1) assms(2,3)]] c show ?thesis by simp
qed

lemma EnsureSelfSigned_needs:
  assumes "cert \<noteq> []" "key \<noteq> []" and "force \<or> \<not> fileExists E cert (cs_fs s) \<or> \<not> fileExists E key (cs_fs s)"
  shows "\<exists>s1. EnsureSelfSigned E cert key ca cak force ds s =
      and_then (generateCAAndServer E ca cak cert key ds)
        (\<lambda>_ s2. (case LoadX509KeyPair E cert key (cs_fs s2) of Inl e \<Rightarrow> Inl e | Inr c \<Rightarrow> Inr (served c, True), s2)) s1 \<and>
    (\<forall>q. map_of (cs_fs s1) q = None \<or> map_of (cs_fs s1) q = map_of (cs_fs s) q)"
proof (cases force)
  case True
  let ?s1 = "s\<lparr>cs_fs := remove_all E [cert, key, ca, cak] (cs_fs s)\<rparr>"
  have "EnsureSelfSigned E cert key ca cak force ds s =
      and_then (generateCAAndServer E ca cak cert key ds)
        (\<lambda>_ s2. (case LoadX509KeyPair E cert key (cs_fs s2) of Inl e \<Rightarrow> Inl e | Inr c \<Rightarrow> Inr (served c, True), s2)) ?s1"
    using assms(1,2) True by (simp add: EnsureSelfSigned_def Let_def served_def and_then_def split: prod.split sum.split)
  then show ?thesis using remove_all_sub[of E "[cert, key, ca, cak]" "cs_fs s"] by (intro exI[of _ ?s1]) simp
next
  case False
  then have "EnsureSelfSigned E cert key ca cak force ds s =
      and_then (generateCAAndServer E ca cak cert key ds)
        (\<lambda>_ s2. (case LoadX509KeyPair E cert key (cs_fs s2) of Inl e \<Rightarrow> Inl e | Inr c \<Rightarrow> Inr (served c, True), s2)) s"
    using assms by (auto simp: EnsureSelfSigned_def Let_def served_def and_then_def split: prod.split sum.split)
  then show ?thesis by blast
qed

text \<open>C28: a missing pair is made: when a file is missing or a new pair is forced, and neither the
  disk nor the cryptography fails, the call succeeds, reports a new pair, and leaves files that the
  next call without force serves unchanged.\<close>

theorem EnsureSelfSigned_makes_pair:
  assumes "no_errors E" and "crypto_ok E" and "\<forall>p. oe_write E p = None"
    and "paths_ok (cs_fs s) [ca, cak, cert, key]" and "cert \<noteq> []" "key \<noteq> []"
    and "force \<or> \<not> fileExists E cert (cs_fs s) \<or> \<not> fileExists E key (cs_fs s)"
  shows "\<exists>cfg s'. EnsureSelfSigned E cert key ca cak force ds s = (Inr (cfg, True), s') \<and>
    fileExists E cert (cs_fs s') \<and> fileExists E key (cs_fs s') \<and>
    EnsureSelfSigned E cert key ca cak False ds' s' = (Inr (cfg, False), s')"
proof -
  let ?e = "os_errors.truncate E"
  from EnsureSelfSigned_needs[OF assms(5-7)] obtain s1 where
    run: "EnsureSelfSigned E cert key ca cak force ds s =
      and_then (generateCAAndServer E ca cak cert key ds)
        (\<lambda>_ s2. (case LoadX509KeyPair E cert key (cs_fs s2) of Inl e \<Rightarrow> Inl e | Inr c \<Rightarrow> Inr (served c, True), s2)) s1"
    and sub: "\<And>q. map_of (cs_fs s1) q = None \<or> map_of (cs_fs s1) q = map_of (cs_fs s) q" by blast
  have p1: "paths_ok (cs_fs s1) [ca, cak, cert, key]" by (rule paths_ok_sub[OF assms(4) sub])
  have w: "oe_write E ca = None" "oe_write E cak = None" "oe_write E cert = None" using assms(3) by simp_all
  from generate_run[OF assms(1,2) p1 w] obtain s2 n t p k sk der kd where
    gen: "generateCAAndServer E ca cak cert key ds s1 = on_fs (file_write ?e key (pem_block ''EC PRIVATE KEY'' kd)) s2"
    and der: "ce_CreateCertificate E n t p (fst k) sk = Inr der" and kd: "ce_MarshalECPrivateKey E k = Inr kd"
    and fc: "map_of (cs_fs s2) cert = Some (FileNode (pem_block ''CERTIFICATE'' der))"
    and fk: "map_of (cs_fs s2) key = Some (FileNode [])" by blast
  define d where "d = AList.update key (FileNode (pem_block ''EC PRIVATE KEY'' kd)) (cs_fs s2)"
  have dist: "cert \<noteq> key" using assms(4) by (simp add: paths_ok_def)
  have gen': "generateCAAndServer E ca cak cert key ds s1 = (Inr (), s2\<lparr>cs_fs := d\<rparr>)"
    using gen assms(3) fk by (simp add: on_fs_def file_write_def file_bytes_def d_def)
  have f: "map_of d cert = Some (FileNode (pem_block ''CERTIFICATE'' der))"
    "map_of d key = Some (FileNode (pem_block ''EC PRIVATE KEY'' kd))" using fc dist by (simp_all add: d_def)
  have "is_ok (ce_X509KeyPair E (pem_block ''CERTIFICATE'' der) (pem_block ''EC PRIVATE KEY'' kd))"
    using assms(2) der kd unfolding crypto_ok_def by blast
  then obtain c where c: "LoadX509KeyPair E cert key d = Inr c"
    using load_pair(1)[OF assms(1) f] is_okE by metis
  have ens: "EnsureSelfSigned E cert key ca cak force ds s = (Inr (served c, True), s2\<lparr>cs_fs := d\<rparr>)"
    unfolding run and_then_simps(2)[of "generateCAAndServer E ca cak cert key ds" s1, OF gen'] by (simp add: c)
  have "EnsureSelfSigned E cert key ca cak False ds' (s2\<lparr>cs_fs := d\<rparr>) = (Inr (served c, False), s2\<lparr>cs_fs := d\<rparr>)"
    using EnsureSelfSigned_present[OF assms(5,6), of E "s2\<lparr>cs_fs := d\<rparr>"] load_pair(2,3)[OF assms(1) f] c by simp
  with ens load_pair(2,3)[OF assms(1) f] show ?thesis by auto
qed

text \<open>C29: a key file that was half written sticks: when the disk stops the writing of the key, the
  call fails, but the file is there, so later calls do not make a new pair and fail on the broken
  one for as long as it does not parse.\<close>

theorem half_written_key_sticks:
  assumes "no_errors E" and "crypto_ok E" and "oe_write E key = Some (k, e)"
    and "oe_write E ca = None" "oe_write E cak = None" "oe_write E cert = None"
    and "paths_ok (cs_fs s) [ca, cak, cert, key]" and "cert \<noteq> []" "key \<noteq> []"
    and "\<not> fileExists E cert (cs_fs s) \<or> \<not> fileExists E key (cs_fs s)"
    and "EnsureSelfSigned E cert key ca cak False ds s = (r, s')"
    and "no_errors E'" and "ce_X509KeyPair E' (file_bytes (cs_fs s') cert) (file_bytes (cs_fs s') key) = Inl e'"
  shows "r = Inl e \<and> EnsureSelfSigned E' cert key ca cak False ds' s' = (Inl e', s')"
proof -
  let ?e = "os_errors.truncate E"
  have needs: "False \<or> \<not> fileExists E cert (cs_fs s) \<or> \<not> fileExists E key (cs_fs s)" using assms(10) by simp
  from EnsureSelfSigned_needs[OF assms(8,9) needs] obtain s1 where
    run: "EnsureSelfSigned E cert key ca cak False ds s =
      and_then (generateCAAndServer E ca cak cert key ds)
        (\<lambda>_ s2. (case LoadX509KeyPair E cert key (cs_fs s2) of Inl e \<Rightarrow> Inl e | Inr c \<Rightarrow> Inr (served c, True), s2)) s1"
    and sub: "\<And>q. map_of (cs_fs s1) q = None \<or> map_of (cs_fs s1) q = map_of (cs_fs s) q" by blast
  have p1: "paths_ok (cs_fs s1) [ca, cak, cert, key]" by (rule paths_ok_sub[OF assms(7) sub])
  from generate_run[OF assms(1,2) p1 assms(4-6)] obtain s2 der kd where
    gen: "generateCAAndServer E ca cak cert key ds s1 = on_fs (file_write ?e key (pem_block ''EC PRIVATE KEY'' kd)) s2"
    and fc: "map_of (cs_fs s2) cert = Some (FileNode (pem_block ''CERTIFICATE'' der))"
    and fk: "map_of (cs_fs s2) key = Some (FileNode [])" by blast
  define d where "d = AList.update key (FileNode (take k (pem_block ''EC PRIVATE KEY'' kd))) (cs_fs s2)"
  have dist: "cert \<noteq> key" using assms(7) by (simp add: paths_ok_def)
  have gen': "generateCAAndServer E ca cak cert key ds s1 = (Inl e, s2\<lparr>cs_fs := d\<rparr>)"
    using gen assms(3) fk by (simp add: on_fs_def file_write_def file_bytes_def d_def)
  have rs: "r = Inl e" "s' = s2\<lparr>cs_fs := d\<rparr>"
    using assms(11) unfolding run and_then_simps(1)[of "generateCAAndServer E ca cak cert key ds" s1, OF gen'] by simp_all
  have f: "map_of (cs_fs s') cert = Some (FileNode (pem_block ''CERTIFICATE'' der))"
    "map_of (cs_fs s') key = Some (FileNode (take k (pem_block ''EC PRIVATE KEY'' kd)))"
    using fc dist rs(2) by (simp_all add: d_def)
  have "LoadX509KeyPair E' cert key (cs_fs s') = Inl e'"
    using load_pair(1)[OF assms(12) f] assms(13) f by (simp add: file_bytes_def)
  with EnsureSelfSigned_present[OF assms(8,9) load_pair(2,3)[OF assms(12) f], of ca cak ds'] rs(1)
  show ?thesis by simp
qed

section \<open>Witnesses\<close>

text \<open>Keys and certificates are fixed texts, a pair parses when the key is whole, and writing to a
  file stops where \<open>w\<close> says so.\<close>

definition example_certs :: "(string \<Rightarrow> (nat \<times> go_error) option) \<Rightarrow> cert_env" where
  "example_certs w =
     \<lparr>oe_error = (\<lambda>_ _. None), oe_write = w,
      ce_GenerateKey = (\<lambda>_. Inr (''public'', ''private'')),
      ce_RandInt = (\<lambda>n. Inr (int n)),
      ce_CreateCertificate = (\<lambda>_ t _ _ _. Inr (x_CommonName t)),
      ce_MarshalECPrivateKey = (\<lambda>k. Inr (snd k)),
      ce_ParseCertificate = (\<lambda>_. Inr (ca_template 0 0)),
      ce_X509KeyPair = (\<lambda>c k. if HasSuffix k (''-----'' @ [CHR 0x0A]) then Inr ([c], k) else Inl ''failed to find any PEM data''),
      ce_Interfaces = Inr [\<lparr>if_Loopback = False, if_Up = True, if_Addrs = Inr [IPNet (Some (v4_in_v6 [192, 168, 1, 2]))]\<rparr>],
      ce_map_order = rev,
      ce_Now = 1700000000\<rparr>"

lemma example_certs_ok:
  "no_errors (example_certs w)" "crypto_ok (example_certs w)" "map_order_ok (example_certs w)"
proof -
  have "HasSuffix (pem_block t b) (''-----'' @ [CHR 0x0A])" for t b
    by (simp add: pem_block_def HasSuffix_iff)
  then show "crypto_ok (example_certs w)" by (simp add: example_certs_def crypto_ok_def)
qed (simp_all add: example_certs_def no_errors_def map_order_ok_def)

lemma example_certs_write [simp]: "oe_write (example_certs w) = w" "oe_error (example_certs w) = (\<lambda>_ _. None)"
  by (simp_all add: example_certs_def)

abbreviation "healthy_certs \<equiv> example_certs (\<lambda>_. None)"

abbreviation "ca_crt \<equiv> ''/c/ca.crt''"
abbreviation "ca_key \<equiv> ''/c/ca.key''"
abbreviation "srv_crt \<equiv> ''/c/server.crt''"
abbreviation "srv_key \<equiv> ''/c/server.key''"

definition no_files :: cert_state where
  "no_files = \<lparr>cs_fs = [], cs_draws = 0\<rparr>"

lemma no_files_paths: "paths_ok (cs_fs no_files) [ca_crt, ca_key, srv_crt, srv_key]"
  by code_simp

theorem server_certificate_names_witness:
  "''*.dns.home'' \<in> set (x_DNSNames (server_template healthy_certs [''https://dns.home/''] 1 0))"
proof -
  have n: "names_for ''https://dns.home/'' = {''dns.home'', ''*.dns.home''}" by code_simp
  from server_certificate_names[OF example_certs_ok(3), of "\<lambda>_. None" "[''https://dns.home/'']" 1 0]
  show ?thesis by (simp add: n)
qed

theorem EnsureSelfSigned_makes_pair_witness:
  "\<exists>cfg s'. EnsureSelfSigned healthy_certs srv_crt srv_key ca_crt ca_key False [] no_files = (Inr (cfg, True), s')"
proof -
  have "\<not> fileExists healthy_certs srv_crt (cs_fs no_files)" by code_simp
  then have "False \<or> \<not> fileExists healthy_certs srv_crt (cs_fs no_files) \<or> \<not> fileExists healthy_certs srv_key (cs_fs no_files)"
    by simp
  from EnsureSelfSigned_makes_pair[OF example_certs_ok(1,2) _ no_files_paths _ _ this, of "[]" "[]"]
  show ?thesis by (simp only: example_certs_write) blast
qed

theorem EnsureSelfSigned_stable_witness:
  "EnsureSelfSigned healthy_certs srv_crt srv_key ca_crt ca_key False [''dns.home'']
     (snd (EnsureSelfSigned healthy_certs srv_crt srv_key ca_crt ca_key True [] no_files)) =
   (Inr (served ([pem_block ''CERTIFICATE'' ''dns-proxy.local''], pem_block ''EC PRIVATE KEY'' ''private''), False),
    snd (EnsureSelfSigned healthy_certs srv_crt srv_key ca_crt ca_key True [] no_files))"
proof -
  have "fst (EnsureSelfSigned healthy_certs srv_crt srv_key ca_crt ca_key True [] no_files) =
      Inr (served ([pem_block ''CERTIFICATE'' ''dns-proxy.local''], pem_block ''EC PRIVATE KEY'' ''private''), True)"
    by code_simp
  then have "EnsureSelfSigned healthy_certs srv_crt srv_key ca_crt ca_key True [] no_files =
      (Inr (served ([pem_block ''CERTIFICATE'' ''dns-proxy.local''], pem_block ''EC PRIVATE KEY'' ''private''), True),
       snd (EnsureSelfSigned healthy_certs srv_crt srv_key ca_crt ca_key True [] no_files))"
    by (metis prod.collapse)
  from EnsureSelfSigned_stable[OF this] show ?thesis by simp
qed

theorem half_written_key_sticks_witness:
  "\<exists>s'. EnsureSelfSigned healthy_certs srv_crt srv_key ca_crt ca_key False [] s' = (Inl ''failed to find any PEM data'', s') \<and>
     s' = snd (EnsureSelfSigned (example_certs (\<lambda>p. if p = srv_key then Some (5, ''no space left on device'') else None))
                 srv_crt srv_key ca_crt ca_key False [] no_files)"
proof -
  let ?E = "example_certs (\<lambda>p. if p = srv_key then Some (5, ''no space left on device'') else None)"
  let ?run = "EnsureSelfSigned ?E srv_crt srv_key ca_crt ca_key False [] no_files"
  have w: "oe_write ?E srv_key = Some (5, ''no space left on device'')" "oe_write ?E ca_crt = None"
    "oe_write ?E ca_key = None" "oe_write ?E srv_crt = None" by simp_all
  have needs: "\<not> fileExists ?E srv_crt (cs_fs no_files) \<or> \<not> fileExists ?E srv_key (cs_fs no_files)" by code_simp
  have bad: "ce_X509KeyPair healthy_certs (file_bytes (cs_fs (snd ?run)) srv_crt) (file_bytes (cs_fs (snd ?run)) srv_key) =
      Inl ''failed to find any PEM data''" by code_simp
  have run: "?run = (fst ?run, snd ?run)" by simp
  from half_written_key_sticks[OF example_certs_ok(1,2) w no_files_paths _ _ needs run example_certs_ok(1) bad]
  show ?thesis by simp
qed

end
