(* ===== verification/Logging.thy ===== *)
theory Logging
  imports GoPath
begin

text \<open>
  \<open>internal/logging/logger.go\<close>: the log file of the day behind a buffered writer, its rotation at
  midnight and the removal of old files. The state is the package's variables, the output of the
  package \<open>log\<close>, and the disk as far as logs go: names, numbered files and their bytes. The mutex
  is a flag; an operation that waits for it while its own caller holds it never returns, which is
  the result \<open>None\<close>. \<open>bufio.Writer\<close> is modelled, and so is the order in which \<open>io.MultiWriter\<close>
  writes. What the operating system answers to the \<open>n\<close>-th call of a kind comes from an environment.
\<close>

section \<open>State and environment\<close>

record log_file =
  lf_id :: nat
  lf_name :: string
  lf_node :: nat

record bufio =
  bw_out :: log_file
  bw_buf :: bytes
  bw_err :: "go_error option"

record log_state =
  lg_mu :: bool
  lg_file :: "log_file option"
  lg_writer :: "bufio option"
  lg_dir :: string
  lg_multi :: bool
  lg_goroutines :: bool
  lg_names :: "(string, nat) gomap"
  lg_data :: "nat \<Rightarrow> bytes"
  lg_nodes :: nat
  lg_closed :: "nat list"
  lg_opens :: nat
  lg_writes :: nat
  lg_prints :: nat

record log_env =
  le_open :: "nat \<Rightarrow> go_error option"
  le_write :: "nat \<Rightarrow> (nat \<times> go_error) option"
  le_stdout :: "nat \<Rightarrow> go_error option"
  le_stamp :: "nat \<Rightarrow> string"
  le_mkdir :: "string \<Rightarrow> go_error option"
  le_cwd :: string

section \<open>Files\<close>

text \<open>\<open>OpenFile\<close> with the flags of the source: an existing file is appended to, a missing one made.\<close>

definition OpenFile :: "log_env \<Rightarrow> string \<Rightarrow> log_state \<Rightarrow> log_file result \<times> log_state" where
  "OpenFile E path S =
     (let S1 = S\<lparr>lg_opens := lg_opens S + 1\<rparr> in
      case le_open E (lg_opens S) of
        Some e \<Rightarrow> (Inl e, S1)
      | None \<Rightarrow>
          (case map_of (lg_names S) path of
             Some n \<Rightarrow> (Inr \<lparr>lf_id = lg_opens S, lf_name = path, lf_node = n\<rparr>, S1)
           | None \<Rightarrow>
               (Inr \<lparr>lf_id = lg_opens S, lf_name = path, lf_node = lg_nodes S\<rparr>,
                S1\<lparr>lg_names := AList.update path (lg_nodes S) (lg_names S),
                   lg_data := (lg_data S)(lg_nodes S := []), lg_nodes := lg_nodes S + 1\<rparr>)))"

definition Close :: "log_file \<Rightarrow> log_state \<Rightarrow> log_state" where
  "Close f S = S\<lparr>lg_closed := lf_id f # lg_closed S\<rparr>"

text \<open>Writing to a file: the bytes written and the error, which is set when they are not all.\<close>

definition fd_Write :: "log_env \<Rightarrow> log_file \<Rightarrow> bytes \<Rightarrow> log_state \<Rightarrow> (nat \<times> go_error option) \<times> log_state" where
  "fd_Write E f p S =
     (if lf_id f \<in> set (lg_closed S) then ((0, Some ''file already closed''), S)
      else
        (case le_write E (lg_writes S) of
           None \<Rightarrow>
             ((length p, None),
              S\<lparr>lg_writes := lg_writes S + 1, lg_data := (lg_data S)(lf_node f := lg_data S (lf_node f) @ p)\<rparr>)
         | Some (k, e) \<Rightarrow>
             ((min k (length p), Some e),
              S\<lparr>lg_writes := lg_writes S + 1, lg_data := (lg_data S)(lf_node f := lg_data S (lf_node f) @ take k p)\<rparr>)))"

section \<open>The buffered writer\<close>

definition bufsize :: nat where
  "bufsize = 64 * 1024"

definition NewWriterSize :: "log_file \<Rightarrow> bufio" where
  "NewWriterSize f = \<lparr>bw_out = f, bw_buf = [], bw_err = None\<rparr>"

definition bw_Flush :: "log_env \<Rightarrow> bufio \<Rightarrow> log_state \<Rightarrow> bufio \<times> log_state" where
  "bw_Flush E b S =
     (if bw_err b \<noteq> None \<or> bw_buf b = [] then (b, S)
      else
        (case fd_Write E (bw_out b) (bw_buf b) S of
           ((n, Some e), S1) \<Rightarrow> (b\<lparr>bw_buf := drop n (bw_buf b), bw_err := Some e\<rparr>, S1)
         | ((n, None), S1) \<Rightarrow> (b\<lparr>bw_buf := []\<rparr>, S1)))"

lemma fd_Write_all: "fd_Write E f p S = ((n, None), S1) \<Longrightarrow> n = length p"
  by (auto simp: fd_Write_def split: if_splits option.splits)

lemma bw_Flush_err: "bw_Flush E b S = (b1, S1) \<Longrightarrow> bw_err b1 = None \<Longrightarrow> bw_err b = None \<and> bw_buf b1 = []"
  by (auto simp: bw_Flush_def split: if_splits option.splits prod.splits)

text \<open>\<open>Write\<close>: while the data does not fit, an empty buffer is bypassed and a part-filled one is filled
  up and flushed; what is left is kept. \<open>nn\<close> counts the bytes taken.\<close>

function bw_Write :: "log_env \<Rightarrow> bytes \<Rightarrow> bufio \<Rightarrow> log_state \<Rightarrow> nat \<Rightarrow> (nat \<times> go_error option) \<times> bufio \<times> log_state" where
  "bw_Write E p b S nn =
     (if bufsize - length (bw_buf b) < length p \<and> bw_err b = None then
        if bw_buf b = [] then
          (case fd_Write E (bw_out b) p S of
             ((n, e), S1) \<Rightarrow> bw_Write E (drop n p) (b\<lparr>bw_err := e\<rparr>) S1 (nn + n))
        else
          let n = bufsize - length (bw_buf b) in
          (case bw_Flush E (b\<lparr>bw_buf := bw_buf b @ take n p\<rparr>) S of
             (b1, S1) \<Rightarrow> bw_Write E (drop n p) b1 S1 (nn + n))
      else if bw_err b \<noteq> None then ((nn, bw_err b), b, S)
      else ((nn + length p, None), b\<lparr>bw_buf := bw_buf b @ p\<rparr>, S))"
  by pat_completeness auto
termination
proof (relation "measures [\<lambda>(E, p, b, S, nn). if bw_err b = None then 1 else 0,
                           \<lambda>(E, p, b, S, nn). length p, \<lambda>(E, p, b, S, nn). length (bw_buf b)]")
  fix E p nn n e S1 and b :: bufio and S :: log_state and y
  assume big: "bufsize - length (bw_buf b) < length p \<and> bw_err b = None" and b: "bw_buf b = []"
    and w: "(y, S1) = fd_Write E (bw_out b) p S" "(n, e) = y"
  show "((E, drop n p, b\<lparr>bw_err := e\<rparr>, S1, nn + n), E, p, b, S, nn) \<in>
      measures [\<lambda>(E, p, b, S, nn). if bw_err b = None then 1 else 0,
                \<lambda>(E, p, b, S, nn). length p, \<lambda>(E, p, b, S, nn). length (bw_buf b)]"
  proof (cases e)
    case None
    then have "n = length p" using fd_Write_all[of E "bw_out b" p S n S1] w by simp
    moreover have "p \<noteq> []" using big by auto
    ultimately show ?thesis using None big by simp
  next
    case (Some a)
    with big show ?thesis by simp
  qed
next
  fix E p nn b1 S1 and b :: bufio and S :: log_state and n
  assume big: "bufsize - length (bw_buf b) < length p \<and> bw_err b = None" and b: "bw_buf b \<noteq> []"
    and n: "n = bufsize - length (bw_buf b)" and w: "(b1, S1) = bw_Flush E (b\<lparr>bw_buf := bw_buf b @ take n p\<rparr>) S"
  show "((E, drop n p, b1, S1, nn + n), E, p, b, S, nn) \<in>
      measures [\<lambda>(E, p, b, S, nn). if bw_err b = None then 1 else 0,
                \<lambda>(E, p, b, S, nn). length p, \<lambda>(E, p, b, S, nn). length (bw_buf b)]"
  proof (cases "bw_err b1")
    case None
    then have "bw_buf b1 = []" using bw_Flush_err[of E "b\<lparr>bw_buf := bw_buf b @ take n p\<rparr>" S b1 S1] w by simp
    with None big b show ?thesis by (cases n) auto
  next
    case (Some a)
    with big show ?thesis by simp
  qed
qed auto

declare bw_Write.simps [simp del]

section \<open>Operations of the package\<close>

text \<open>\<open>mu.Lock\<close> with the deferred \<open>Unlock\<close> around a body.\<close>

definition with_mu :: "(log_state \<Rightarrow> ('a \<times> log_state) option) \<Rightarrow> log_state \<Rightarrow> ('a \<times> log_state) option" where
  "with_mu f S =
     (if lg_mu S then None
      else (case f (S\<lparr>lg_mu := True\<rparr>) of
              None \<Rightarrow> None
            | Some (r, S1) \<Rightarrow> Some (r, S1\<lparr>lg_mu := False\<rparr>)))"

definition logWriter_Write :: "log_env \<Rightarrow> bytes \<Rightarrow> log_state \<Rightarrow> ((nat \<times> go_error option) \<times> log_state) option" where
  "logWriter_Write E p =
     with_mu (\<lambda>S.
       case lg_writer S of
         None \<Rightarrow> Some ((length p, None), S)
       | Some b \<Rightarrow> (case bw_Write E p b S 0 of (r, b', S') \<Rightarrow> Some (r, S'\<lparr>lg_writer := Some b'\<rparr>)))"

definition WriteToFile :: "log_env \<Rightarrow> bytes \<Rightarrow> log_state \<Rightarrow> ((nat \<times> go_error option) \<times> log_state) option" where
  "WriteToFile E p =
     with_mu (\<lambda>S.
       case lg_writer S of
         None \<Rightarrow> Some ((length p, None), S)
       | Some b \<Rightarrow> (case bw_Write E p b S 0 of (r, b', S') \<Rightarrow> Some (r, S'\<lparr>lg_writer := Some b'\<rparr>)))"

text \<open>A line that reaches the output of \<open>log\<close>: the error stream at first, later \<open>MultiWriter\<close> over
  the standard output and \<open>logWriter\<close>, which stops at the first error.\<close>

definition log_Output :: "log_env \<Rightarrow> bytes \<Rightarrow> log_state \<Rightarrow> (unit \<times> log_state) option" where
  "log_Output E line S =
     (let S1 = S\<lparr>lg_prints := lg_prints S + 1\<rparr> in
      if \<not> lg_multi S then Some ((), S1)
      else
        (case le_stdout E (lg_prints S) of
           Some _ \<Rightarrow> Some ((), S1)
         | None \<Rightarrow> (case logWriter_Write E line S1 of None \<Rightarrow> None | Some (_, S2) \<Rightarrow> Some ((), S2))))"

definition log_Printf :: "log_env \<Rightarrow> string \<Rightarrow> log_state \<Rightarrow> (unit \<times> log_state) option" where
  "log_Printf E text S = log_Output E (le_stamp E (lg_prints S) @ text @ [CHR 0x0A]) S"

definition flush_writer :: "log_env \<Rightarrow> log_state \<Rightarrow> log_state" where
  "flush_writer E S =
     (case lg_writer S of
        None \<Rightarrow> S
      | Some b \<Rightarrow> (case bw_Flush E b S of (b', S') \<Rightarrow> S'\<lparr>lg_writer := Some b'\<rparr>))"

definition use_file :: "log_file \<Rightarrow> log_state \<Rightarrow> log_state" where
  "use_file f S = S\<lparr>lg_file := Some f, lg_writer := Some (NewWriterSize f), lg_multi := True\<rparr>"

definition log_name :: "string \<Rightarrow> string" where
  "log_name today = ''dns-proxy-'' @ today @ ''.log''"

text \<open>\<open>today\<close> is the date the clock shows.\<close>

definition openTodayLog :: "log_env \<Rightarrow> string \<Rightarrow> log_state \<Rightarrow> (unit result \<times> log_state) option" where
  "openTodayLog E today =
     with_mu (\<lambda>S.
       let S1 = flush_writer E S;
           S2 = (case lg_file S1 of None \<Rightarrow> S1 | Some f \<Rightarrow> Close f S1);
           logPath = path_Join [lg_dir S2, log_name today]
       in (case OpenFile E logPath S2 of
             (Inl e, S3) \<Rightarrow> Some (Inl e, S3)
           | (Inr f, S3) \<Rightarrow> Some (Inr (), use_file f S3)))"

definition Init :: "log_env \<Rightarrow> string \<Rightarrow> string \<Rightarrow> log_state \<Rightarrow> (unit \<times> log_state) option" where
  "Init E dir today S =
     (let S1 = S\<lparr>lg_dir := dir\<rparr> in
      case le_mkdir E dir of
        Some e \<Rightarrow> log_Printf E (''create log dir failed: '' @ e) S1
      | None \<Rightarrow>
          (case openTodayLog E today S1 of
             None \<Rightarrow> None
           | Some (Inl e, S2) \<Rightarrow> log_Printf E (''open log file failed: '' @ e) S2
           | Some (Inr _, S2) \<Rightarrow> Some ((), S2\<lparr>lg_goroutines := True\<rparr>)))"

definition path_Abs :: "string \<Rightarrow> string \<Rightarrow> string" where
  "path_Abs cwd p = (if HasPrefix p ''/'' then path_Clean p else path_Join [cwd, p])"

text \<open>One tick of \<open>monitorAndRotate\<close>. The failed open is logged with the mutex held.\<close>

definition monitorAndRotate :: "log_env \<Rightarrow> string \<Rightarrow> log_state \<Rightarrow> (unit \<times> log_state) option" where
  "monitorAndRotate E today =
     with_mu (\<lambda>S.
       case lg_file S of
         None \<Rightarrow> Some ((), S)
       | Some f \<Rightarrow>
           let currentAbs = path_Abs (le_cwd E) (path_Join [lg_dir S, log_name today]) in
           if path_Abs (le_cwd E) (lf_name f) \<noteq> currentAbs then
             (case OpenFile E currentAbs (Close f (flush_writer E S)) of
                (Inl e, S2) \<Rightarrow> log_Printf E (''rotate log file failed: '' @ e) S2
              | (Inr f', S2) \<Rightarrow> Some ((), use_file f' S2))
           else Some ((), S))"

text \<open>\<open>Sync\<close> of the file has no effect that is modelled.\<close>

definition Log_Flush :: "log_env \<Rightarrow> log_state \<Rightarrow> (unit \<times> log_state) option" where
  "Log_Flush E = with_mu (\<lambda>S. Some ((), flush_writer E S))"

section \<open>Removing old files\<close>

record file_info =
  fi_path :: string
  fi_modTime :: int
  fi_size :: int64

record file_stat =
  st_IsDir :: bool
  st_ModTime :: int
  st_Size :: int64

text \<open>\<open>sort.Slice\<close> leaves the order of equal elements open: the sort is a parameter.\<close>

record clean_env =
  cl_Glob :: "string \<Rightarrow> string list result"
  cl_Stat :: "string \<Rightarrow> file_stat result"
  cl_Remove :: "string \<Rightarrow> go_error option"
  cl_sort :: "file_info list \<Rightarrow> file_info list"

definition scan_file :: "clean_env \<Rightarrow> file_info list \<times> int64 \<Rightarrow> string \<Rightarrow> file_info list \<times> int64" where
  "scan_file E acc f =
     (case acc of (infos, totalSize) \<Rightarrow>
        (case cl_Stat E f of
           Inl _ \<Rightarrow> (infos, totalSize)
         | Inr st \<Rightarrow>
             if st_IsDir st then (infos, totalSize)
             else (infos @ [\<lparr>fi_path = f, fi_modTime = st_ModTime st, fi_size = st_Size st\<rparr>], totalSize + st_Size st)))"

definition maxSize :: int64 where
  "maxSize = 50 * 1024 * 1024 * 1024"

fun remove_oldest :: "clean_env \<Rightarrow> int64 \<Rightarrow> file_info list \<Rightarrow> string list" where
  "remove_oldest E totalSize [] = []"
| "remove_oldest E totalSize (info # infos) =
     (if sint totalSize \<le> sint maxSize then []
      else
        (case cl_Remove E (fi_path info) of
           Some _ \<Rightarrow> remove_oldest E totalSize infos
         | None \<Rightarrow> fi_path info # remove_oldest E (totalSize - fi_size info) infos))"

text \<open>The names removed, in order.\<close>

definition doCleanup :: "clean_env \<Rightarrow> string \<Rightarrow> string list" where
  "doCleanup E dir =
     (case cl_Glob E (path_Join [dir, ''dns-proxy-*.log'']) of
        Inl _ \<Rightarrow> []
      | Inr files \<Rightarrow>
          (case foldl (scan_file E) ([], 0) files of
             (infos, totalSize) \<Rightarrow>
               if sint totalSize \<le> sint maxSize then []
               else remove_oldest E totalSize (cl_sort E infos)))"

text \<open>One tick of \<open>cleanupOldLogs\<close>: the names disappear, a file that is open keeps its bytes.\<close>

definition cleanupOldLogs :: "clean_env \<Rightarrow> log_state \<Rightarrow> log_state" where
  "cleanupOldLogs C S = S\<lparr>lg_names := filter (\<lambda>(n, _). n \<notin> set (doCleanup C (lg_dir S))) (lg_names S)\<rparr>"

end
