(* ===== verification/LoggingProps.thy ===== *)
theory LoggingProps
  imports Logging
begin

text \<open>
  What the log keeps: lines reach the file in order however the buffer is flushed, a rotation loses
  none, a rotation whose new file cannot be opened blocks the process, and the removal of old files
  stops as soon as the rest fits.
\<close>

section \<open>The interface of a sink for lines\<close>

fun put_all :: "(bytes \<Rightarrow> 's \<Rightarrow> 's option) \<Rightarrow> bytes list \<Rightarrow> 's \<Rightarrow> 's option" where
  "put_all put [] s = Some s"
| "put_all put (p # ps) s = (case put p s of None \<Rightarrow> None | Some s' \<Rightarrow> put_all put ps s')"

locale line_sink =
  fixes good :: "'s \<Rightarrow> bool" and view :: "'s \<Rightarrow> bytes" and put :: "bytes \<Rightarrow> 's \<Rightarrow> 's option"
  assumes put_good: "good s \<Longrightarrow> \<exists>s'. put p s = Some s' \<and> good s' \<and> view s' = view s @ p"
begin

lemma put_all_good: "good s \<Longrightarrow> \<exists>s'. put_all put ps s = Some s' \<and> good s' \<and> view s' = view s @ concat ps"
proof (induction ps arbitrary: s)
  case (Cons p ps)
  from put_good[OF Cons.prems] obtain s1 where "put p s = Some s1" "good s1" "view s1 = view s @ p" by blast
  with Cons.IH[of s1] show ?case by auto
qed simp

end

section \<open>The buffered writer appends\<close>

definition quiet_disk :: "log_env \<Rightarrow> bool" where
  "quiet_disk E \<longleftrightarrow> (\<forall>n. le_write E n = None) \<and> (\<forall>n. le_stdout E n = None)"

definition bw_view :: "bufio \<Rightarrow> log_state \<Rightarrow> bytes" where
  "bw_view b S = lg_data S (lf_node (bw_out b)) @ bw_buf b"

text \<open>Only the bytes of the file and the number of writes change.\<close>

definition wrote :: "bufio \<Rightarrow> log_state \<Rightarrow> log_state \<Rightarrow> bool" where
  "wrote b S S' \<longleftrightarrow>
     S' = S\<lparr>lg_writes := lg_writes S', lg_data := lg_data S'\<rparr> \<and>
     (\<forall>n. n \<noteq> lf_node (bw_out b) \<longrightarrow> lg_data S' n = lg_data S n)"

lemma wrote_refl: "wrote b S S"
  by (simp add: wrote_def)

lemma wrote_trans: "wrote b S S' \<Longrightarrow> bw_out b' = bw_out b \<Longrightarrow> wrote b' S' S'' \<Longrightarrow> wrote b S S''"
  by (cases S; cases S'; cases S'') (simp add: wrote_def)

lemma fd_Write_quiet:
  assumes "quiet_disk E" and "lf_id f \<notin> set (lg_closed S)"
  shows "fd_Write E f p S = ((length p, None),
    S\<lparr>lg_writes := lg_writes S + 1, lg_data := (lg_data S)(lf_node f := lg_data S (lf_node f) @ p)\<rparr>)"
  using assms by (simp add: fd_Write_def quiet_disk_def)

lemma bw_Flush_quiet:
  assumes "quiet_disk E" and "lf_id (bw_out b) \<notin> set (lg_closed S)" and "bw_err b = None"
  shows "\<exists>S'. bw_Flush E b S = (b\<lparr>bw_buf := []\<rparr>, S') \<and> wrote b S S' \<and> lg_data S' (lf_node (bw_out b)) = bw_view b S"
proof (cases "bw_buf b = []")
  case True
  then have "b\<lparr>bw_buf := []\<rparr> = b" by simp
  with True show ?thesis
    using wrote_refl[of b S] by (intro exI[of _ S]) (simp add: bw_Flush_def bw_view_def)
next
  case False
  let ?S = "S\<lparr>lg_writes := lg_writes S + 1,
    lg_data := (lg_data S)(lf_node (bw_out b) := lg_data S (lf_node (bw_out b)) @ bw_buf b)\<rparr>"
  have "wrote b S ?S" by (auto simp: wrote_def)
  then show ?thesis
    using False assms(3) fd_Write_quiet[OF assms(1,2), of "bw_buf b"]
    by (intro exI[of _ ?S]) (simp add: bw_Flush_def bw_view_def)
qed

lemma bw_Write_quiet:
  "quiet_disk E \<Longrightarrow> lf_id (bw_out b) \<notin> set (lg_closed S) \<Longrightarrow> bw_err b = None \<Longrightarrow>
    \<exists>b' S'. bw_Write E p b S nn = ((nn + length p, None), b', S') \<and> bw_out b' = bw_out b \<and> bw_err b' = None \<and>
      wrote b S S' \<and> bw_view b' S' = bw_view b S @ p"
proof (induction E p b S nn rule: bw_Write.induct)
  case (1 E p b S nn)
  show ?case
  proof (cases "bufsize - length (bw_buf b) < length p")
    case False
    then show ?thesis
      using "1.prems"(3) wrote_refl[of b S]
      by (subst bw_Write.simps) (simp add: bw_view_def)
  next
    case big: True
    show ?thesis
    proof (cases "bw_buf b = []")
      case True
      let ?S1 = "S\<lparr>lg_writes := lg_writes S + 1,
        lg_data := (lg_data S)(lf_node (bw_out b) := lg_data S (lf_node (bw_out b)) @ p)\<rparr>"
      have "b\<lparr>bw_err := None\<rparr> = b" using "1.prems"(3) by (cases b) simp
      moreover have "bw_Write E p b S nn = bw_Write E [] (b\<lparr>bw_err := None\<rparr>) ?S1 (nn + length p)"
        using big True "1.prems" fd_Write_quiet[OF "1.prems"(1,2), of p]
        by (subst bw_Write.simps) simp
      ultimately have "bw_Write E p b S nn = bw_Write E [] b ?S1 (nn + length p)" by (simp only:)
      also have "\<dots> = ((nn + length p, None), b, ?S1)"
        using "1.prems"(3) by (subst bw_Write.simps) simp
      finally show ?thesis
        using True "1.prems"(3) by (auto simp: bw_view_def wrote_def)
    next
      case False
      let ?n = "bufsize - length (bw_buf b)"
      let ?b0 = "b\<lparr>bw_buf := bw_buf b @ take ?n p\<rparr>"
      have "lf_id (bw_out ?b0) \<notin> set (lg_closed S)" "bw_err ?b0 = None" using "1.prems" by simp_all
      from bw_Flush_quiet[OF "1.prems"(1) this] obtain S1 where
        fl: "bw_Flush E ?b0 S = (?b0\<lparr>bw_buf := []\<rparr>, S1)" and w1: "wrote ?b0 S S1"
        and d1: "lg_data S1 (lf_node (bw_out b)) = bw_view ?b0 S" by auto
      let ?b1 = "?b0\<lparr>bw_buf := []\<rparr>"
      have closed: "lg_closed S1 = lg_closed S" using w1 by (cases S; cases S1) (simp add: wrote_def)
      have step: "bw_Write E p b S nn = bw_Write E (drop ?n p) ?b1 S1 (nn + ?n)"
        using big False "1.prems"(3) fl by (subst bw_Write.simps) (simp add: Let_def)
      have "\<exists>b' S'. bw_Write E (drop ?n p) ?b1 S1 (nn + ?n) = ((nn + ?n + length (drop ?n p), None), b', S') \<and>
          bw_out b' = bw_out ?b1 \<and> bw_err b' = None \<and> wrote ?b1 S1 S' \<and> bw_view b' S' = bw_view ?b1 S1 @ drop ?n p"
        using "1.IH"(2)[OF _ False refl fl[symmetric]] big "1.prems" closed by simp
      then obtain b' S' where r: "bw_Write E (drop ?n p) ?b1 S1 (nn + ?n) = ((nn + ?n + length (drop ?n p), None), b', S')"
        "bw_out b' = bw_out b" "bw_err b' = None" "wrote ?b1 S1 S'" "bw_view b' S' = bw_view ?b1 S1 @ drop ?n p" by auto
      have "wrote b S S1" using w1 by (simp add: wrote_def)
      from wrote_trans[OF this _ r(4)] have "wrote b S S'" by simp
      moreover have "bw_view b' S' = bw_view b S @ p"
        using r(5) d1 by (simp add: bw_view_def)
      ultimately show ?thesis using step r(1-3) big by simp
    qed
  qed
qed

section \<open>The log in use\<close>

text \<open>A log file is open, nothing has failed, and the mutex is free.\<close>

definition log_good :: "log_state \<Rightarrow> bool" where
  "log_good S \<longleftrightarrow>
     \<not> lg_mu S \<and> lg_multi S \<and> (\<forall>i\<in>set (lg_closed S). i < lg_opens S) \<and>
     (\<exists>b. lg_writer S = Some b \<and> lg_file S = Some (bw_out b) \<and> lf_id (bw_out b) \<notin> set (lg_closed S) \<and>
          lf_id (bw_out b) < lg_opens S \<and> lf_node (bw_out b) < lg_nodes S \<and> bw_err b = None) \<and>
     (\<forall>p n. map_of (lg_names S) p = Some n \<longrightarrow> n < lg_nodes S)"

definition log_view :: "log_state \<Rightarrow> bytes" where
  "log_view S = (case lg_writer S of None \<Rightarrow> [] | Some b \<Rightarrow> bw_view b S)"

lemma wrote_fields:
  assumes "wrote b S S'"
  shows "lg_mu S' = lg_mu S" "lg_multi S' = lg_multi S" "lg_closed S' = lg_closed S" "lg_opens S' = lg_opens S"
    "lg_file S' = lg_file S" "lg_nodes S' = lg_nodes S" "lg_names S' = lg_names S" "lg_writer S' = lg_writer S"
    "lg_dir S' = lg_dir S" "lg_prints S' = lg_prints S"
  using assms by (cases S; cases S'; simp add: wrote_def)+

definition log_put :: "log_env \<Rightarrow> bytes \<Rightarrow> log_state \<Rightarrow> log_state option" where
  "log_put E line S = map_option snd (log_Output E line S)"

lemma logWriter_Write_good:
  assumes "quiet_disk E" and "log_good S"
  shows "\<exists>S'. logWriter_Write E p S = Some ((length p, None), S') \<and> log_good S' \<and> log_view S' = log_view S @ p"
proof -
  from assms(2) obtain b where b: "lg_writer S = Some b" "lg_file S = Some (bw_out b)"
    "lf_id (bw_out b) \<notin> set (lg_closed S)" "bw_err b = None" and mu: "\<not> lg_mu S"
    by (auto simp: log_good_def)
  let ?S0 = "S\<lparr>lg_mu := True\<rparr>"
  from bw_Write_quiet[OF assms(1), of b ?S0 p 0] b obtain b' S' where
    w: "bw_Write E p b ?S0 0 = ((length p, None), b', S')" and b': "bw_out b' = bw_out b" "bw_err b' = None"
    and wr: "wrote b ?S0 S'" and v: "bw_view b' S' = bw_view b ?S0 @ p" by auto
  let ?S2 = "S'\<lparr>lg_writer := Some b', lg_mu := False\<rparr>"
  have "logWriter_Write E p S = Some ((length p, None), ?S2)"
    using mu b(1) w by (simp add: logWriter_Write_def with_mu_def)
  moreover have "log_good ?S2"
    using assms(2) b b' wrote_fields[OF wr] by (simp add: log_good_def)
  moreover have "log_view ?S2 = log_view S @ p"
    using v b b' by (simp add: log_view_def bw_view_def)
  ultimately show ?thesis by blast
qed

lemma log_put_good:
  assumes "quiet_disk E" and "log_good S"
  shows "\<exists>S'. log_put E p S = Some S' \<and> log_good S' \<and> log_view S' = log_view S @ p"
proof -
  let ?S1 = "S\<lparr>lg_prints := lg_prints S + 1\<rparr>"
  have "log_good ?S1" "log_view ?S1 = log_view S"
    using assms(2) by (simp_all add: log_good_def log_view_def bw_view_def split: option.split)
  with logWriter_Write_good[OF assms(1), of ?S1 p] obtain S' where
    "logWriter_Write E p ?S1 = Some ((length p, None), S')" "log_good S'" "log_view S' = log_view S @ p" by auto
  moreover have "lg_multi S" "le_stdout E (lg_prints S) = None"
    using assms by (simp_all add: log_good_def quiet_disk_def)
  ultimately show ?thesis by (simp add: log_put_def log_Output_def Let_def)
qed

interpretation log_sink: line_sink "\<lambda>S. quiet_disk E \<and> log_good S" log_view "log_put E" for E :: log_env
  by unfold_locales (use log_put_good in blast)

lemma flush_writer_good:
  assumes "quiet_disk E" and "lg_writer S = Some b" and "lf_id (bw_out b) \<notin> set (lg_closed S)" and "bw_err b = None"
  shows "\<exists>S'. flush_writer E S = S'\<lparr>lg_writer := Some (b\<lparr>bw_buf := []\<rparr>)\<rparr> \<and> wrote b S S' \<and>
    lg_data S' (lf_node (bw_out b)) = log_view S"
  using bw_Flush_quiet[OF assms(1,3,4)] assms(2) by (auto simp: flush_writer_def log_view_def)

text \<open>C11: the log is written in order: as long as no write fails, the lines that are logged appear, one
  after the other and complete, behind what the log held, and after a flush they are in its file;
  the buffer of 64 KiB makes no difference.\<close>

theorem log_lines_in_order:
  assumes "quiet_disk E" and "log_good S"
  shows "\<exists>S1 S2 f. put_all (log_put E) lines S = Some S1 \<and> log_view S1 = log_view S @ concat lines \<and>
    Log_Flush E S1 = Some ((), S2) \<and> lg_file S2 = Some f \<and> lg_data S2 (lf_node f) = log_view S @ concat lines"
proof -
  from log_sink.put_all_good[of E S lines] assms obtain S1 where
    S1: "put_all (log_put E) lines S = Some S1" "log_good S1" "log_view S1 = log_view S @ concat lines" by auto
  from S1(2) obtain b where b: "lg_writer S1 = Some b" "lg_file S1 = Some (bw_out b)"
    "lf_id (bw_out b) \<notin> set (lg_closed S1)" "bw_err b = None" and mu: "\<not> lg_mu S1"
    by (auto simp: log_good_def)
  let ?S = "S1\<lparr>lg_mu := True\<rparr>"
  from flush_writer_good[OF assms(1), of ?S b] b obtain S2 where
    f: "flush_writer E ?S = S2\<lparr>lg_writer := Some (b\<lparr>bw_buf := []\<rparr>)\<rparr>" and w: "wrote b ?S S2"
    and d: "lg_data S2 (lf_node (bw_out b)) = log_view ?S" by auto
  have "log_view ?S = log_view S1" using b by (simp add: log_view_def bw_view_def)
  moreover have "Log_Flush E S1 = Some ((), S2\<lparr>lg_writer := Some (b\<lparr>bw_buf := []\<rparr>), lg_mu := False\<rparr>)"
    using mu f by (simp add: Log_Flush_def with_mu_def)
  ultimately show ?thesis using S1 b(2) d wrote_fields(5)[OF w] by simp
qed

definition needs_rotation :: "log_env \<Rightarrow> string \<Rightarrow> log_state \<Rightarrow> bool" where
  "needs_rotation E today S \<longleftrightarrow>
     (case lg_file S of
        None \<Rightarrow> False
      | Some f \<Rightarrow> path_Abs (le_cwd E) (lf_name f) \<noteq> path_Abs (le_cwd E) (path_Join [lg_dir S, log_name today]))"

text \<open>C32: a rotation loses nothing: when the day has changed and the new file can be opened, the old
  file holds every line logged so far, the log goes on with the file of the new day, and it can be
  written again.\<close>

theorem rotation_keeps_lines:
  assumes "quiet_disk E" and "log_good S" and "needs_rotation E today S" and "lg_file S = Some f"
    and "le_open E (lg_opens S) = None"
  shows "\<exists>S' f'. monitorAndRotate E today S = Some ((), S') \<and> log_good S' \<and>
    lg_data S' (lf_node f) = log_view S \<and> lg_file S' = Some f' \<and>
    lf_name f' = path_Abs (le_cwd E) (path_Join [lg_dir S, log_name today])"
proof -
  let ?p = "path_Abs (le_cwd E) (path_Join [lg_dir S, log_name today])"
  from assms(2,4) obtain b where b: "lg_writer S = Some b" "f = bw_out b" "lf_id f \<notin> set (lg_closed S)" "bw_err b = None"
    and lt: "lf_id f < lg_opens S" "lf_node f < lg_nodes S" "\<forall>i\<in>set (lg_closed S). i < lg_opens S"
      "\<forall>p n. map_of (lg_names S) p = Some n \<longrightarrow> n < lg_nodes S" and mu: "\<not> lg_mu S"
    by (auto simp: log_good_def)
  let ?S = "S\<lparr>lg_mu := True\<rparr>"
  from flush_writer_good[OF assms(1), of ?S b] b obtain S1 where
    fl: "flush_writer E ?S = S1\<lparr>lg_writer := Some (b\<lparr>bw_buf := []\<rparr>)\<rparr>" and w: "wrote b ?S S1"
    and d: "lg_data S1 (lf_node f) = log_view ?S" by auto
  define T where "T = Close f (flush_writer E ?S)"
  have T: "lg_opens T = lg_opens S" "lg_names T = lg_names S" "lg_nodes T = lg_nodes S" "lg_mu T"
    "lg_data T (lf_node f) = log_view S" "lg_closed T = lf_id f # lg_closed S"
    using wrote_fields[OF w] d b by (simp_all add: T_def Close_def fl log_view_def bw_view_def)
  obtain g T1 where o: "OpenFile E ?p T = (Inr g, T1)" and g: "lf_id g = lg_opens S" "lf_name g = ?p" "lf_node g < lg_nodes T1"
    and T1: "lg_opens T1 = lg_opens S + 1" "lg_closed T1 = lg_closed T" "lg_data T1 (lf_node f) = log_view S"
      "\<forall>p n. map_of (lg_names T1) p = Some n \<longrightarrow> n < lg_nodes T1"
  proof (cases "map_of (lg_names S) ?p")
    case None
    then have "OpenFile E ?p T = (Inr \<lparr>lf_id = lg_opens S, lf_name = ?p, lf_node = lg_nodes S\<rparr>,
        T\<lparr>lg_opens := lg_opens S + 1, lg_names := AList.update ?p (lg_nodes S) (lg_names S),
          lg_data := (lg_data T)(lg_nodes S := []), lg_nodes := lg_nodes S + 1\<rparr>)"
      using assms(5) T by (simp add: OpenFile_def Let_def)
    moreover have "\<forall>q n. map_of (AList.update ?p (lg_nodes S) (lg_names S)) q = Some n \<longrightarrow> n < lg_nodes S + 1"
      using lt(4) by (auto intro: less_SucI)
    ultimately show ?thesis using that T lt by simp
  next
    case (Some n)
    then have "OpenFile E ?p T = (Inr \<lparr>lf_id = lg_opens S, lf_name = ?p, lf_node = n\<rparr>, T\<lparr>lg_opens := lg_opens S + 1\<rparr>)"
      using assms(5) T by (simp add: OpenFile_def Let_def)
    from that[OF this] T lt Some show ?thesis by auto
  qed
  let ?S' = "(use_file g T1)\<lparr>lg_mu := False\<rparr>"
  have "monitorAndRotate E today S = Some ((), ?S')"
    using mu assms(3,4) o by (simp add: monitorAndRotate_def with_mu_def needs_rotation_def Let_def T_def)
  moreover have "log_good ?S'"
    using g T1 T lt by (auto simp: log_good_def use_file_def NewWriterSize_def)
  moreover have "lg_data ?S' (lf_node f) = log_view S" using T1 by (simp add: use_file_def)
  ultimately show ?thesis using g(2) by (intro exI[of _ ?S'] exI[of _ g]) (simp add: use_file_def)
qed

text \<open>C33: a rotation that cannot open the new file hangs: the error is logged while the mutex is
  held, and the log's own output waits for that mutex, so the call never returns; from then on no
  line can be written and the log cannot be flushed, whoever tries.\<close>

theorem failed_rotation_blocks:
  assumes "log_good S" and "needs_rotation E today S" and "le_open E (lg_opens S) = Some e"
    and "\<forall>n. le_stdout E n = None"
  shows "monitorAndRotate E today S = None \<and>
    (\<forall>T p. lg_mu T \<longrightarrow> logWriter_Write E p T = None \<and> WriteToFile E p T = None \<and> Log_Flush E T = None)"
proof -
  have held: "logWriter_Write E p T = None" "WriteToFile E p T = None" "Log_Flush E T = None" if "lg_mu T" for p T
    using that by (simp_all add: logWriter_Write_def WriteToFile_def Log_Flush_def with_mu_def)
  from assms(1) obtain b where b: "lg_writer S = Some b" "lg_file S = Some (bw_out b)" and mu: "\<not> lg_mu S" "lg_multi S"
    by (auto simp: log_good_def)
  obtain b' S1 where fl: "bw_Flush E b (S\<lparr>lg_mu := True\<rparr>) = (b', S1)" by (cases "bw_Flush E b (S\<lparr>lg_mu := True\<rparr>)")
  then have S1: "lg_mu S1" "lg_multi S1" "lg_opens S1 = lg_opens S"
    using mu(2) by (auto simp: bw_Flush_def fd_Write_def split: if_splits option.splits)
  let ?T = "(Close (bw_out b) (S1\<lparr>lg_writer := Some b'\<rparr>))\<lparr>lg_opens := lg_opens S + 1\<rparr>"
  have "OpenFile E path (Close (bw_out b) (S1\<lparr>lg_writer := Some b'\<rparr>)) = (Inl e, ?T)" for path
    using assms(3) S1 by (simp add: OpenFile_def Close_def)
  moreover have "log_Printf E t ?T = None" for t
    using S1 assms(4) held(1) by (simp add: log_Printf_def log_Output_def Close_def)
  ultimately have "monitorAndRotate E today S = None"
    using mu(1) assms(2) b fl
    by (simp add: monitorAndRotate_def with_mu_def needs_rotation_def Let_def flush_writer_def)
  with held show ?thesis by blast
qed

end
