(* ===== verification/LogCleanup.thy ===== *)
theory LogCleanup
  imports LoggingProps
begin

text \<open>
  The removal of old log files, at the width of the sizes: oldest first, no more than needed, and
  the rest fits. The last section applies the properties of the log on concrete states.
\<close>

section \<open>Sizes\<close>

lemma sint_add64:
  fixes a b :: int64
  assumes "- (2 ^ 63) \<le> sint a + sint b" and "sint a + sint b < 2 ^ 63"
  shows "sint (a + b) = sint a + sint b"
  using assms by (simp add: sint_word_ariths signed_take_bit_int_eq_self)

lemma sint_diff64:
  fixes a b :: int64
  assumes "- (2 ^ 63) \<le> sint a - sint b" and "sint a - sint b < 2 ^ 63"
  shows "sint (a - b) = sint a - sint b"
  using assms by (simp add: sint_word_ariths signed_take_bit_int_eq_self)

definition total_size :: "file_info list \<Rightarrow> int" where
  "total_size infos = sum_list (map (\<lambda>i. sint (fi_size i)) infos)"

definition sizes_ok :: "file_info list \<Rightarrow> bool" where
  "sizes_ok infos \<longleftrightarrow> list_all (\<lambda>i. 0 \<le> sint (fi_size i)) infos \<and> total_size infos < 2 ^ 63"

text \<open>The files the loop over the names collects: those that are there and no directories.\<close>

definition regular_files :: "clean_env \<Rightarrow> string list \<Rightarrow> file_info list" where
  "regular_files E files =
     concat (map (\<lambda>f. case cl_Stat E f of
                        Inl _ \<Rightarrow> []
                      | Inr st \<Rightarrow> if st_IsDir st then []
                                  else [\<lparr>fi_path = f, fi_modTime = st_ModTime st, fi_size = st_Size st\<rparr>]) files)"

lemma total_size_append [simp]: "total_size (xs @ ys) = total_size xs + total_size ys"
  by (simp add: total_size_def)

lemma total_size_nonneg: "list_all (\<lambda>i. 0 \<le> sint (fi_size i)) infos \<Longrightarrow> 0 \<le> total_size infos"
  by (induction infos) (simp_all add: total_size_def)

lemma scan_files:
  "sizes_ok (infos @ regular_files E files) \<Longrightarrow> sint t = total_size infos \<Longrightarrow>
   \<exists>t'. foldl (scan_file E) (infos, t) files = (infos @ regular_files E files, t') \<and>
     sint t' = total_size (infos @ regular_files E files)"
proof (induction files arbitrary: infos t)
  case Nil
  then show ?case by (simp add: regular_files_def)
next
  case (Cons f files)
  show ?case
  proof (cases "cl_Stat E f")
    case (Inl e)
    with Cons show ?thesis by (simp add: scan_file_def regular_files_def)
  next
    case (Inr st)
    show ?thesis
    proof (cases "st_IsDir st")
      case True
      with Cons Inr show ?thesis by (simp add: scan_file_def regular_files_def)
    next
      case False
      let ?i = "\<lparr>fi_path = f, fi_modTime = st_ModTime st, fi_size = st_Size st\<rparr>"
      have r: "regular_files E (f # files) = ?i # regular_files E files"
        using Inr False by (simp add: regular_files_def)
      have ok: "sizes_ok ((infos @ [?i]) @ regular_files E files)" using Cons.prems(1) r by simp
      have "list_all (\<lambda>i. 0 \<le> sint (fi_size i)) infos" "0 \<le> sint (st_Size st)"
        "list_all (\<lambda>i. 0 \<le> sint (fi_size i)) (regular_files E files)"
        using ok by (simp_all add: sizes_ok_def)
      moreover have "total_size infos + sint (st_Size st) + total_size (regular_files E files) < 2 ^ 63"
        using ok by (simp add: sizes_ok_def total_size_def)
      ultimately have "sint (t + st_Size st) = total_size (infos @ [?i])"
        using Cons.prems(2) total_size_nonneg[of infos] total_size_nonneg[of "regular_files E files"]
        by (subst sint_add64) (simp_all add: total_size_def)
      from Cons.IH[OF ok this] Inr False r show ?thesis by (simp add: scan_file_def)
    qed
  qed
qed

lemma remove_oldest_stops:
  assumes "\<forall>p. cl_Remove E p = None"
  shows "sizes_ok infos \<Longrightarrow> sint t = total_size infos \<Longrightarrow>
    \<exists>k\<le>length infos. remove_oldest E t infos = map fi_path (take k infos) \<and>
      total_size (drop k infos) \<le> sint maxSize \<and>
      (k = 0 \<or> sint maxSize < total_size (drop (k - 1) infos))"
proof (induction infos arbitrary: t)
  case Nil
  then show ?case by (simp add: total_size_def maxSize_def)
next
  case (Cons i infos)
  show ?case
  proof (cases "sint t \<le> sint maxSize")
    case True
    with Cons.prems(2) show ?thesis by (intro exI[of _ 0]) simp
  next
    case False
    have nn: "0 \<le> sint (fi_size i)" "0 \<le> total_size infos" "sizes_ok infos"
      "sint t = sint (fi_size i) + total_size infos" "sint t < 2 ^ 63"
      using Cons.prems total_size_nonneg[of infos] by (auto simp: sizes_ok_def total_size_def)
    then have "sint (t - fi_size i) = total_size infos"
      by (subst sint_diff64) simp_all
    from Cons.IH[OF nn(3) this] obtain k where k: "k \<le> length infos"
      "remove_oldest E (t - fi_size i) infos = map fi_path (take k infos)"
      "total_size (drop k infos) \<le> sint maxSize" "k = 0 \<or> sint maxSize < total_size (drop (k - 1) infos)" by blast
    have "sint maxSize < total_size (drop k (i # infos))"
      if "k = 0" using False Cons.prems(2) that by simp
    with k False assms Cons.prems(2) show ?thesis
      by (intro exI[of _ "Suc k"]) (cases k; simp)
  qed
qed

definition sort_ok :: "clean_env \<Rightarrow> bool" where
  "sort_ok E \<longleftrightarrow>
     (\<forall>xs. mset (cl_sort E xs) = mset xs \<and> sorted_wrt (\<lambda>a b. fi_modTime a \<le> fi_modTime b) (cl_sort E xs))"

lemma sizes_ok_mset: "mset xs = mset ys \<Longrightarrow> sizes_ok xs = sizes_ok ys \<and> total_size xs = total_size ys"
proof -
  assume m: "mset xs = mset ys"
  then have "mset (map (\<lambda>i. sint (fi_size i)) xs) = mset (map (\<lambda>i. sint (fi_size i)) ys)" by simp
  then have "total_size xs = total_size ys" unfolding total_size_def by (metis sum_mset_sum_list)
  moreover have "set xs = set ys" using m mset_eq_setD by blast
  ultimately show ?thesis by (simp add: sizes_ok_def list_all_iff)
qed

text \<open>C34: the removal of old logs takes the oldest files first, takes none while the rest fits into
  50 GiB, and leaves at most 50 GiB, when the files can be removed and their sizes add up below
  the range of a signed 64-bit number.\<close>

theorem cleanup_bounds:
  assumes "cl_Glob E (path_Join [dir, ''dns-proxy-*.log'']) = Inr files"
    and "sizes_ok (regular_files E files)" and "sort_ok E" and "\<forall>p. cl_Remove E p = None"
  shows "\<exists>sorted k. mset sorted = mset (regular_files E files) \<and>
    sorted_wrt (\<lambda>a b. fi_modTime a \<le> fi_modTime b) sorted \<and>
    doCleanup E dir = map fi_path (take k sorted) \<and>
    total_size (drop k sorted) \<le> 50 * 2 ^ 30 \<and>
    (k = 0 \<or> 50 * 2 ^ 30 < total_size (drop (k - 1) sorted))"
proof -
  let ?infos = "regular_files E files"
  let ?s = "cl_sort E ?infos"
  have max: "sint maxSize = 50 * 2 ^ 30" by (simp add: maxSize_def)
  from scan_files[of "[]" E files 0] assms(2) obtain t where
    t: "foldl (scan_file E) ([], 0) files = (?infos, t)" "sint t = total_size ?infos" by (auto simp: total_size_def)
  have s: "mset ?s = mset ?infos" "sorted_wrt (\<lambda>a b. fi_modTime a \<le> fi_modTime b) ?s"
    using assms(3) by (simp_all add: sort_ok_def)
  show ?thesis
  proof (cases "sint t \<le> sint maxSize")
    case True
    then have "doCleanup E dir = map fi_path (take 0 ?s)" using assms(1) t(1) by (simp add: doCleanup_def)
    moreover have "total_size (drop 0 ?s) \<le> 50 * 2 ^ 30"
      using True t(2) sizes_ok_mset[OF s(1)] max by simp
    ultimately show ?thesis using s by blast
  next
    case False
    from remove_oldest_stops[OF assms(4), of ?s t] sizes_ok_mset[OF s(1)] assms(2) t(2) obtain k where
      "remove_oldest E t ?s = map fi_path (take k ?s)" "total_size (drop k ?s) \<le> sint maxSize"
      "k = 0 \<or> sint maxSize < total_size (drop (k - 1) ?s)" by auto
    moreover have "doCleanup E dir = remove_oldest E t ?s" using assms(1) t(1) False by (simp add: doCleanup_def)
    ultimately show ?thesis using s max by (intro exI[of _ ?s] exI[of _ k]) simp
  qed
qed

section \<open>Witnesses\<close>

definition example_log_env :: "(nat \<Rightarrow> go_error option) \<Rightarrow> log_env" where
  "example_log_env opens =
     \<lparr>le_open = opens, le_write = (\<lambda>_. None), le_stdout = (\<lambda>_. None), le_stamp = (\<lambda>_. ''2025/01/02 00:05:00 ''),
      le_mkdir = (\<lambda>_. None), le_cwd = ''/''\<rparr>"

definition fresh_log :: log_state where
  "fresh_log =
     \<lparr>lg_mu = False, lg_file = None, lg_writer = None, lg_dir = [], lg_multi = False, lg_goroutines = False,
      lg_names = [], lg_data = (\<lambda>_. []), lg_nodes = 0, lg_closed = [], lg_opens = 0, lg_writes = 0, lg_prints = 0\<rparr>"

text \<open>The state after \<open>Init\<close>.\<close>

definition started_log :: log_state where
  "started_log =
     fresh_log\<lparr>lg_file := Some \<lparr>lf_id = 0, lf_name = ''/logs/dns-proxy-2025-01-01.log'', lf_node = 0\<rparr>,
       lg_writer := Some (NewWriterSize \<lparr>lf_id = 0, lf_name = ''/logs/dns-proxy-2025-01-01.log'', lf_node = 0\<rparr>),
       lg_dir := ''/logs'', lg_multi := True, lg_goroutines := True,
       lg_names := [(''/logs/dns-proxy-2025-01-01.log'', 0)], lg_nodes := 1, lg_opens := 1\<rparr>"

lemma Init_started: "Init (example_log_env (\<lambda>_. None)) ''/logs'' ''2025-01-01'' fresh_log = Some ((), started_log)"
proof -
  have p: "path_Join [''/logs'', log_name ''2025-01-01''] = ''/logs/dns-proxy-2025-01-01.log''" by code_simp
  show ?thesis
    by (simp add: Init_def Let_def example_log_env_def openTodayLog_def with_mu_def flush_writer_def fresh_log_def
        OpenFile_def p use_file_def started_log_def fun_upd_idem)
qed

lemma started_log_good: "log_good started_log" "quiet_disk (example_log_env opens)"
  by (simp_all add: log_good_def started_log_def fresh_log_def NewWriterSize_def quiet_disk_def example_log_env_def)

lemma started_needs_rotation: "needs_rotation (example_log_env opens) ''2025-01-02'' started_log"
  by code_simp

theorem log_lines_in_order_witness:
  "\<exists>S1 S2 f. put_all (log_put (example_log_env (\<lambda>_. None))) [''a'', ''b''] started_log = Some S1 \<and>
     Log_Flush (example_log_env (\<lambda>_. None)) S1 = Some ((), S2) \<and> lg_data S2 f = ''ab''"
proof -
  have "log_view started_log = []" by (simp add: log_view_def started_log_def fresh_log_def bw_view_def NewWriterSize_def)
  with log_lines_in_order[OF started_log_good(2,1), of "\<lambda>_. None" "[''a'', ''b'']"] show ?thesis by fastforce
qed

theorem rotation_keeps_lines_witness:
  "\<exists>S'. monitorAndRotate (example_log_env (\<lambda>_. None)) ''2025-01-02'' started_log = Some ((), S') \<and> log_good S'"
proof -
  have "lg_file started_log = Some \<lparr>lf_id = 0, lf_name = ''/logs/dns-proxy-2025-01-01.log'', lf_node = 0\<rparr>"
    by (simp add: started_log_def)
  from rotation_keeps_lines[OF started_log_good(2,1) started_needs_rotation this] show ?thesis
    by (fastforce simp: example_log_env_def)
qed

theorem failed_rotation_blocks_witness:
  "monitorAndRotate (example_log_env (\<lambda>n. if n = 1 then Some ''permission denied'' else None)) ''2025-01-02'' started_log = None"
proof -
  have "le_open (example_log_env (\<lambda>n. if n = 1 then Some ''permission denied'' else None)) (lg_opens started_log) =
      Some ''permission denied''"
    by (simp add: example_log_env_def started_log_def)
  from failed_rotation_blocks[OF started_log_good(1) started_needs_rotation this] show ?thesis
    by (simp add: example_log_env_def)
qed

definition example_clean :: clean_env where
  "example_clean =
     \<lparr>cl_Glob = (\<lambda>_. Inr [''new'', ''old'', ''gone'']),
      cl_Stat = (\<lambda>p. if p = ''new'' then Inr \<lparr>st_IsDir = False, st_ModTime = 2, st_Size = 40 * 1024 * 1024 * 1024\<rparr>
                     else if p = ''old'' then Inr \<lparr>st_IsDir = False, st_ModTime = 1, st_Size = 20 * 1024 * 1024 * 1024\<rparr>
                     else Inl ''no such file or directory''),
      cl_Remove = (\<lambda>_. None), cl_sort = sort_key fi_modTime\<rparr>"

theorem cleanup_bounds_witness:
  "\<exists>sorted k. mset sorted = mset (regular_files example_clean [''new'', ''old'', ''gone'']) \<and>
     doCleanup example_clean ''/logs'' = map fi_path (take k sorted) \<and> total_size (drop k sorted) \<le> 50 * 2 ^ 30"
proof -
  have g: "cl_Glob example_clean (path_Join [''/logs'', ''dns-proxy-*.log'']) = Inr [''new'', ''old'', ''gone'']"
    by (simp add: example_clean_def)
  have s: "sizes_ok (regular_files example_clean [''new'', ''old'', ''gone''])"
    by (simp add: sizes_ok_def regular_files_def total_size_def example_clean_def)
  have "sorted_wrt (\<lambda>a b. fi_modTime a \<le> fi_modTime b) (sort_key fi_modTime xs)" for xs :: "file_info list"
    using sorted_sort_key[of fi_modTime xs] by (simp add: sorted_map)
  then have o: "sort_ok example_clean" by (simp add: sort_ok_def example_clean_def)
  have "\<forall>p. cl_Remove example_clean p = None" by (simp add: example_clean_def)
  from cleanup_bounds[OF g s o this] show ?thesis by blast
qed

end
