(* ===== verification/HttpServer.thy ===== *)
theory HttpServer
  imports CertProps LogCleanup
begin

text \<open>
  \<open>internal/httpserver/server.go\<close>: the TLS servers, and the filter in front of their error log.
  The filter is called with a slice of a buffer that the package \<open>log\<close> takes from a pool and
  returns when the call is over, so the store of buffers is part of the state: a goroutine that
  still holds the slice sees what the buffer holds when it runs. A server is its settings; serving
  and shutting down are the library's, with \<open>ListenAndServeTLS\<close> as a parameter.
\<close>

section \<open>Servers\<close>

record 'h tls_server =
  ts_Addr :: string
  ts_Handler :: 'h
  ts_ReadHeaderTimeout :: nat
  ts_ReadTimeout :: nat
  ts_WriteTimeout :: nat
  ts_IdleTimeout :: nat
  ts_filtered :: bool
  ts_TLSConfig :: "tls_config option"
  ts_inShutdown :: bool
  ts_serverName :: string

definition New_server :: "string \<Rightarrow> 'h \<Rightarrow> 'h tls_server result" where
  "New_server addr h =
     Inr \<lparr>ts_Addr = addr, ts_Handler = h, ts_ReadHeaderTimeout = 5, ts_ReadTimeout = 10, ts_WriteTimeout = 10,
          ts_IdleTimeout = 30, ts_filtered = False, ts_TLSConfig = None, ts_inShutdown = False, ts_serverName = []\<rparr>"

definition NewWithTLS ::
  "cert_env \<Rightarrow> string \<Rightarrow> 'h \<Rightarrow> string \<Rightarrow> string \<Rightarrow> string \<Rightarrow> string \<Rightarrow> string \<Rightarrow> bool \<Rightarrow> string list \<Rightarrow>
     cert_state \<Rightarrow> ('h tls_server \<times> bool) result \<times> cert_state" where
  "NewWithTLS E addr h serverName certFile keyFile caCertFile caKeyFile forceRegen extraDomains =
     and_then (EnsureSelfSigned E certFile keyFile caCertFile caKeyFile forceRegen extraDomains)
       (\<lambda>(tlsConfig, wasNew). return
          (\<lparr>ts_Addr = addr, ts_Handler = h, ts_ReadHeaderTimeout = 5, ts_ReadTimeout = 30, ts_WriteTimeout = 30,
            ts_IdleTimeout = 60, ts_filtered = True, ts_TLSConfig = Some tlsConfig, ts_inShutdown = False,
            ts_serverName = serverName\<rparr>, wasNew))"

definition ErrServerClosed :: go_error where
  "ErrServerClosed = ''http: Server closed''"

text \<open>What the call logs, and the error it returns when serving ends. A server that was shut down
  does not serve again.\<close>

definition Server_Start :: "('h tls_server \<Rightarrow> go_error option) \<Rightarrow> 'h tls_server \<Rightarrow> string list \<times> go_error option" where
  "Server_Start listen s =
     (let name = (if ts_serverName s = [] then ''HTTPS'' else ts_serverName s);
          err = (if ts_inShutdown s then Some ErrServerClosed else listen s)
      in ((name @ '' listening on '' @ ts_Addr s) #
          (case err of
             None \<Rightarrow> []
           | Some e \<Rightarrow> if e \<noteq> ErrServerClosed then [name @ '' listen error: '' @ e] else []),
          err))"

definition Server_Stop :: "'h tls_server \<Rightarrow> 'h tls_server" where
  "Server_Stop s = s\<lparr>ts_inShutdown := True\<rparr>"

section \<open>The filter of the error log\<close>

text \<open>The arrays behind the pooled buffers, the goroutines that hold a slice of one, and the log.\<close>

record filter_state =
  fl_arrays :: "nat \<Rightarrow> bytes"
  fl_pending :: "(nat \<times> nat) list"
  fl_log :: log_state

definition slice_bytes :: "nat \<times> nat \<Rightarrow> filter_state \<Rightarrow> bytes" where
  "slice_bytes p F = take (snd p) (fl_arrays F (fst p))"

text \<open>\<open>Write\<close> with the slice \<open>p\<close>; \<open>None\<close> is a call that does not return.\<close>

definition tlsErrorFilter_Write :: "log_env \<Rightarrow> nat \<times> nat \<Rightarrow> filter_state \<Rightarrow> filter_state option" where
  "tlsErrorFilter_Write E p F =
     (let msg = slice_bytes p F in
      if Contains msg ''TLS handshake error'' \<or> Contains msg ''wsarecv''
      then Some (F\<lparr>fl_pending := fl_pending F @ [p]\<rparr>)
      else (case log_Output E msg (fl_log F) of None \<Rightarrow> None | Some (_, S) \<Rightarrow> Some (F\<lparr>fl_log := S\<rparr>)))"

text \<open>The library's logger: the text is put at the start of the array of a buffer from the pool, the
  \<open>a\<close>-th, which is long enough, and the filter is called.\<close>

definition ErrorLog_Print :: "log_env \<Rightarrow> nat \<Rightarrow> bytes \<Rightarrow> filter_state \<Rightarrow> filter_state option" where
  "ErrorLog_Print E a line F =
     tlsErrorFilter_Write E (a, length line)
       (F\<lparr>fl_arrays := (fl_arrays F)(a := line @ drop (length line) (fl_arrays F a))\<rparr>)"

text \<open>The first goroutine that waits runs.\<close>

definition run_goroutine :: "log_env \<Rightarrow> filter_state \<Rightarrow> filter_state option" where
  "run_goroutine E F =
     (case fl_pending F of
        [] \<Rightarrow> Some F
      | p # ps \<Rightarrow>
          (case WriteToFile E (slice_bytes p F) (fl_log F) of
             None \<Rightarrow> None
           | Some (_, S) \<Rightarrow> Some (F\<lparr>fl_pending := ps, fl_log := S\<rparr>)))"

section \<open>Properties\<close>

definition noisy :: "bytes \<Rightarrow> bool" where
  "noisy line \<longleftrightarrow> Contains line ''TLS handshake error'' \<or> Contains line ''wsarecv''"

lemma WriteToFile_good:
  "quiet_disk E \<Longrightarrow> log_good S \<Longrightarrow>
     \<exists>S'. WriteToFile E p S = Some ((length p, None), S') \<and> log_good S' \<and> log_view S' = log_view S @ p"
  using logWriter_Write_good[of E S p] by (simp add: logWriter_Write_def WriteToFile_def)

text \<open>C39: the line of a failed handshake can be lost: when the buffer of the line is used for the next
  line of the error log before the goroutine of the first has run, the goroutine writes the text of
  the second, cut or padded to the length of the first. When it runs before, it writes its own.\<close>

theorem handshake_line_overwritten:
  assumes "quiet_disk E" and "log_good (fl_log F)" and "fl_pending F = []"
    and "noisy l1" and "noisy l2"
  shows "(\<exists>F1 F2. ErrorLog_Print E a l1 F = Some F1 \<and> run_goroutine E F1 = Some F2 \<and>
            log_view (fl_log F2) = log_view (fl_log F) @ l1) \<and>
    (\<exists>F1 F2 F3. ErrorLog_Print E a l1 F = Some F1 \<and> ErrorLog_Print E a l2 F1 = Some F2 \<and> run_goroutine E F2 = Some F3 \<and>
            log_view (fl_log F3) = log_view (fl_log F) @ take (length l1) (l2 @ drop (length l2) l1 @ drop (max (length l1) (length l2)) (fl_arrays F a)))"
proof -
  let ?F1 = "F\<lparr>fl_arrays := (fl_arrays F)(a := l1 @ drop (length l1) (fl_arrays F a)), fl_pending := [(a, length l1)]\<rparr>"
  have p1: "ErrorLog_Print E a l1 F = Some ?F1"
    using assms(3,4) by (simp add: ErrorLog_Print_def tlsErrorFilter_Write_def slice_bytes_def noisy_def Let_def)
  let ?l = "l2 @ drop (length l2) (l1 @ drop (length l1) (fl_arrays F a))"
  let ?F2 = "?F1\<lparr>fl_arrays := (fl_arrays ?F1)(a := ?l), fl_pending := [(a, length l1), (a, length l2)]\<rparr>"
  have p2: "ErrorLog_Print E a l2 ?F1 = Some ?F2"
    using assms(5) by (simp add: ErrorLog_Print_def tlsErrorFilter_Write_def slice_bytes_def noisy_def Let_def)
  have l: "take (length l1) ?l = take (length l1) (l2 @ drop (length l2) l1 @ drop (max (length l1) (length l2)) (fl_arrays F a))"
    by (simp add: max_def)
  from WriteToFile_good[OF assms(1,2), of l1] obtain S1 where
    w1: "WriteToFile E l1 (fl_log F) = Some ((length l1, None), S1)" "log_view S1 = log_view (fl_log F) @ l1" by blast
  from WriteToFile_good[OF assms(1,2), of "take (length l1) ?l"] obtain S2 n where
    w2: "WriteToFile E (take (length l1) ?l) (fl_log F) = Some (n, S2)"
      "log_view S2 = log_view (fl_log F) @ take (length l1) ?l" by blast
  have "run_goroutine E ?F1 = Some (?F1\<lparr>fl_pending := [], fl_log := S1\<rparr>)"
    using w1(1) by (simp add: run_goroutine_def slice_bytes_def)
  moreover have "run_goroutine E ?F2 = Some (?F2\<lparr>fl_pending := [(a, length l2)], fl_log := S2\<rparr>)"
    using w2(1) by (simp add: run_goroutine_def slice_bytes_def)
  ultimately show ?thesis using p1 p2 w1(2) w2(2) l by fastforce
qed

theorem handshake_line_overwritten_witness:
  "\<exists>F1 F2 F3. ErrorLog_Print (example_log_env (\<lambda>_. None)) 0 ''TLS handshake error A'' \<lparr>fl_arrays = (\<lambda>_. []), fl_pending = [], fl_log = started_log\<rparr> = Some F1 \<and>
     ErrorLog_Print (example_log_env (\<lambda>_. None)) 0 ''TLS handshake error B'' F1 = Some F2 \<and>
     run_goroutine (example_log_env (\<lambda>_. None)) F2 = Some F3 \<and> log_view (fl_log F3) = ''TLS handshake error B''"
proof -
  let ?F = "\<lparr>fl_arrays = (\<lambda>_. []), fl_pending = [], fl_log = started_log\<rparr>"
  have v: "log_view started_log = []" by (simp add: log_view_def started_log_def fresh_log_def bw_view_def NewWriterSize_def)
  have n: "noisy ''TLS handshake error A''" "noisy ''TLS handshake error B''" by code_simp+
  have "log_good (fl_log ?F)" "fl_pending ?F = []" using started_log_good by simp_all
  from handshake_line_overwritten[OF started_log_good(2) this n, of "\<lambda>_. None" 0] v show ?thesis by simp
qed

end
