(* ===== verification/Startup.thy ===== *)
theory Startup
  imports Migration Admin DnsHandler DnsServer HttpServer
begin

text \<open>
  \<open>main\<close> of \<open>cmd/dns-proxy/main.go\<close> with its helpers: the settings, the log, the ports an operator
  may type, the database, the caches, the sockets, the certificates and the two HTTPS servers, in
  the order of the source and with the exits it has, and the way down. The machine is the files,
  the databases by path, the sockets, the log and the lines typed on the terminal. Lines that are
  logged on the way and not at an exit are left out.
\<close>

section \<open>Ports\<close>

text \<open>\<open>strconv.Atoi\<close> reads what \<open>ParseInt\<close> reads.\<close>

definition port_ok :: "int \<Rightarrow> bool" where
  "port_ok p \<longleftrightarrow> \<not> (p < 1 \<or> 65535 < p)"

definition parseIntPort :: "string \<Rightarrow> int \<Rightarrow> int" where
  "parseIntPort s def =
     (if s = [] then def
      else (case ParseInt s of None \<Rightarrow> def | Some p \<Rightarrow> if \<not> port_ok p then def else p))"

text \<open>The lines left to read are passed on; at the end of the input the line read is empty.\<close>

fun readPortInput :: "bool \<Rightarrow> int \<Rightarrow> string list \<Rightarrow> int \<times> string list" where
  "readPortInput False defaultPort ls = (defaultPort, ls)"
| "readPortInput True defaultPort [] = (defaultPort, [])"
| "readPortInput True defaultPort (l # ls) =
     (let inp = TrimSpace l in
      if inp = [] then (defaultPort, ls)
      else
        (case ParseInt inp of
           None \<Rightarrow> readPortInput True defaultPort ls
         | Some port \<Rightarrow> if \<not> port_ok port then readPortInput True defaultPort ls else (port, ls)))"

definition port_of :: "string \<Rightarrow> string" where
  "port_of addr = (case SplitHostPort addr of Inl _ \<Rightarrow> [] | Inr (_, port) \<Rightarrow> port)"

definition prompt_addr :: "string \<Rightarrow> int \<Rightarrow> string list \<Rightarrow> string \<times> string list" where
  "prompt_addr addr def ls =
     (case readPortInput True (parseIntPort (port_of addr) def) ls of
        (p, ls') \<Rightarrow> (''0.0.0.0:'' @ FormatInt p, ls'))"

definition prompt_ports :: "bool \<Rightarrow> config \<Rightarrow> string list \<Rightarrow> config \<times> string list" where
  "prompt_ports terminal cfg ls =
     (if \<not> terminal then (cfg, ls)
      else
        (case prompt_addr (cfg_DNSAddr cfg) 15353 ls of
           (dns, ls1) \<Rightarrow>
             (case prompt_addr (cfg_DoTAddr cfg) 1853 ls1 of
                (dot, ls2) \<Rightarrow>
                  (case prompt_addr (cfg_DoHAddr cfg) 1443 ls2 of
                     (doh, ls3) \<Rightarrow>
                       (cfg\<lparr>cfg_DNSAddr := dns, cfg_DoTAddr := dot, cfg_DoHAddr := doh\<rparr>, ls3)))))"

section \<open>Names and addresses\<close>

definition buildCertDomains :: "config \<Rightarrow> string list" where
  "buildCertDomains cfg = (if cfg_DoHHost cfg \<noteq> [] then [cfg_DoHHost cfg] else [])"

definition IsLoopback :: "ip \<Rightarrow> bool" where
  "IsLoopback i = (case To4 i of Some v4 \<Rightarrow> hd v4 = 127 | None \<Rightarrow> i = IPv6loopback)"

definition usable_v4 :: "net_addr \<Rightarrow> string option" where
  "usable_v4 a =
     (case addr_ip a of
        None \<Rightarrow> None
      | Some i \<Rightarrow>
          if IsLoopback i then None
          else (case To4 i of
                  None \<Rightarrow> None
                | Some v4 \<Rightarrow> Some (dotted (v4 ! 0) (v4 ! 1) (v4 ! 2) (v4 ! 3))))"

definition firstLocalIP :: "cert_env \<Rightarrow> string" where
  "firstLocalIP E =
     (case ce_Interfaces E of
        Inl _ \<Rightarrow> ''127.0.0.1''
      | Inr ifaces \<Rightarrow>
          (case List.map_filter usable_v4 (usable_addrs ifaces) of
             [] \<Rightarrow> ''127.0.0.1''
           | s # _ \<Rightarrow> s))"

definition split_addr :: "string \<Rightarrow> string \<times> string" where
  "split_addr addr = (case SplitHostPort addr of Inl _ \<Rightarrow> ([], []) | Inr hp \<Rightarrow> hp)"

definition shown_host :: "cert_env \<Rightarrow> string \<Rightarrow> string" where
  "shown_host E addr =
     (let h = fst (split_addr addr) in if h = [] \<or> h = ''0.0.0.0'' then firstLocalIP E else h)"

definition change_password_note :: string where
  "change_password_note = ''('' @ [CHR 0xE5, CHR 0x88, CHR 0x9D, CHR 0xE5, CHR 0xA7, CHR 0x8B, CHR 0xE5, CHR 0xAF, CHR 0x86, CHR 0xE7, CHR 0xA0, CHR 0x81, CHR 0xEF, CHR 0xBC, CHR 0x8C, CHR 0xE8, CHR 0xAF, CHR 0xB7, CHR 0xE7, CHR 0xAB, CHR 0x8B, CHR 0xE5, CHR 0x8D, CHR 0xB3, CHR 0xE4, CHR 0xBF, CHR 0xAE, CHR 0xE6, CHR 0x94, CHR 0xB9] @ '')''"

text \<open>The lines printed when the program is up.\<close>

definition printQuickStart :: "cert_env \<Rightarrow> config \<Rightarrow> string list" where
  "printQuickStart E cfg =
     (let dohHost = shown_host E (cfg_DoHAddr cfg); dohPort = snd (split_addr (cfg_DoHAddr cfg));
          dotHost = shown_host E (cfg_DoTAddr cfg); dotPort = snd (split_addr (cfg_DoTAddr cfg));
          adminHost = shown_host E (cfg_HTTPAddr cfg); adminPort = snd (split_addr (cfg_HTTPAddr cfg))
      in [[], ''==========================================='', ''  DNS Proxy is running'',
          ''==========================================='',
          ''  DNS (udp+tcp) : '' @ cfg_DNSAddr cfg,
          ''  DoT (TLS)     : '' @ dotHost @ '':'' @ dotPort] @
         (if cfg_DoHHost cfg \<noteq> []
          then [''  DoH (secure)  : https://'' @ cfg_DoHHost cfg @ '':'' @ dohPort @ ''/dns-query  (via hostname)'']
          else []) @
         [''  DoH (secure)  : https://'' @ dohHost @ '':'' @ dohPort @ ''/dns-query  (via IP)'',
          ''  DoH (secure)  : https://127.0.0.1:'' @ dohPort @ ''/dns-query'',
          ''  Admin (HTTPS) : https://'' @ adminHost @ '':'' @ adminPort @ ''/  (user=admin, pass=123456) '' @ change_password_note,
          [], ''  CA root to import once: '' @ cfg_CACertFile cfg, [],
          ''==========================================='', []])"

section \<open>The machine\<close>

record machine =
  mc_files :: cert_state
  mc_dbs :: "string \<Rightarrow> db_file"
  mc_net :: os_net
  mc_log :: log_state
  mc_stdin :: "string list"

record main_env =
  mn_os :: os_env
  mn_terminal :: bool
  mn_today :: string
  mn_log :: log_env
  mn_sql :: sql_env
  mn_cert :: cert_env
  mn_listen :: listen_env

text \<open>The program once it serves: the caches of the resolver and of the management server are the
  same objects, so they are kept once.\<close>

record running =
  rn_cfg :: config
  rn_admin :: admin
  rn_dns :: dns_server
  rn_doh :: "unit tls_server"
  rn_manage :: "unit tls_server"
  rn_printed :: "string list"

text \<open>\<open>Exit\<close> is \<open>log.Fatalf\<close> with its text, \<open>Abort\<close> a panic or the exit of \<open>flag.Parse\<close>, \<open>Stuck\<close> a
  call that does not return.\<close>

datatype outcome = Abort go_error | Stuck | Exit string | Running running

definition log_Fatalf :: "main_env \<Rightarrow> string \<Rightarrow> machine \<Rightarrow> outcome \<times> machine" where
  "log_Fatalf V msg M =
     (case log_Printf (mn_log V) msg (mc_log M) of
        None \<Rightarrow> (Stuck, M)
      | Some (_, L) \<Rightarrow> (Exit msg, M\<lparr>mc_log := L\<rparr>))"

text \<open>\<open>config.Load\<close> on the files of the machine.\<close>

definition load_config :: "main_env \<Rightarrow> machine \<Rightarrow> config result \<times> machine" where
  "load_config V M =
     (let E = os_errors.truncate (mn_cert V);
          mk = (\<lambda>p. case fst (fs_MkdirAll E p (cs_fs (mc_files M))) of Inl e \<Rightarrow> Some e | Inr _ \<Rightarrow> None)
      in case Load ((mn_os V)\<lparr>os_MkdirAll := mk\<rparr>) of
           Inl e \<Rightarrow> (Inl e, M)
         | Inr cfg \<Rightarrow>
             (Inr cfg,
              M\<lparr>mc_files := (mc_files M)\<lparr>cs_fs :=
                  snd (fs_MkdirAll E (cfg_CertDir cfg) (snd (fs_MkdirAll E (cfg_DBCacheDir cfg) (cs_fs (mc_files M)))))\<rparr>\<rparr>))"

text \<open>\<open>storage.Open\<close> on the file of the path; a later store works on the opened tables.\<close>

definition open_db :: "main_env \<Rightarrow> string \<Rightarrow> machine \<Rightarrow> db result \<times> machine" where
  "open_db V path M =
     (case Open (mn_sql V) (mc_dbs M path) of
        (r, d) \<Rightarrow> (map_sum id tables_of r, M\<lparr>mc_dbs := (mc_dbs M)(path := d)\<rparr>))"

definition new_admin :: "sql_env \<Rightarrow> db \<Rightarrow> admin" where
  "new_admin E s =
     \<lparr>ad_rel = snd (Reload E (NewReloaderWithHosts s RuleCache_New NewHostCache)),
      ad_notify = NewNotify, ad_forward = \<lparr>fc_n = 0\<rparr>, ad_local = \<lparr>fc_n = 0\<rparr>\<rparr>"

section \<open>Start\<close>

text \<open>The last part: the certificates and the two HTTPS servers. An error of the first reload was only
  logged.\<close>

definition start_https :: "main_env \<Rightarrow> config \<Rightarrow> admin \<Rightarrow> dns_server \<Rightarrow> machine \<Rightarrow> outcome \<times> machine" where
  "start_https V cfg a s M =
     (let extraDomains = buildCertDomains cfg in
      case NewWithTLS (mn_cert V) (cfg_DoHAddr cfg) () ''HTTPS/DoH'' (cfg_CertFile cfg) (cfg_KeyFile cfg)
             (cfg_CACertFile cfg) (cfg_CAKeyFile cfg) (cfg_DevCert cfg) extraDomains (mc_files M) of
        (Inl e, f1) \<Rightarrow> log_Fatalf V (''doh https: '' @ e) (M\<lparr>mc_files := f1\<rparr>)
      | (Inr (dohServer, dohWasNew), f1) \<Rightarrow>
          (case NewWithTLS (mn_cert V) (cfg_HTTPAddr cfg) () ''HTTPS/Manage'' (cfg_CertFile cfg) (cfg_KeyFile cfg)
                  (cfg_CACertFile cfg) (cfg_CAKeyFile cfg) False extraDomains f1 of
             (Inl e, f2) \<Rightarrow> log_Fatalf V (''admin https: '' @ e) (M\<lparr>mc_files := f2\<rparr>)
           | (Inr (adminServer, adminWasNew), f2) \<Rightarrow>
               (Running \<lparr>rn_cfg = cfg, rn_admin = a, rn_dns = s, rn_doh = dohServer, rn_manage = adminServer,
                  rn_printed = printQuickStart (mn_cert V) cfg\<rparr>,
                M\<lparr>mc_files := f2\<rparr>)))"

text \<open>The DNS listeners.\<close>

definition start_dns :: "main_env \<Rightarrow> config \<Rightarrow> admin \<Rightarrow> machine \<Rightarrow> outcome \<times> machine" where
  "start_dns V cfg a M =
     (case Start (mn_listen V) (NewServer (cfg_DNSAddr cfg)) (mc_net M) of
        (Inl e, _, w) \<Rightarrow> log_Fatalf V (''dns start: '' @ e) (M\<lparr>mc_net := w\<rparr>)
      | (Inr _, s1, w1) \<Rightarrow>
          (case StartTLS (mn_listen V) (\<lambda>c k. LoadX509KeyPair (mn_cert V) c k (cs_fs (mc_files M)))
                  (cfg_DoTAddr cfg) (cfg_CertFile cfg) (cfg_KeyFile cfg) s1 w1 of
             (Inl e, _, w2) \<Rightarrow> log_Fatalf V (''dot start: '' @ e) (M\<lparr>mc_net := w2\<rparr>)
           | (Inr _, s2, w2) \<Rightarrow> start_https V cfg a s2 (M\<lparr>mc_net := w2\<rparr>)))"

definition main :: "main_env \<Rightarrow> machine \<Rightarrow> outcome \<times> machine" where
  "main V M =
     (case load_config V M of
        (Inl e, M1) \<Rightarrow> (Abort e, M1)
      | (Inr cfg0, M1) \<Rightarrow>
          let logDir = path_Join [path_Dir (os_Executable (mn_os V)), ''logs''] in
          (case Init (mn_log V) logDir (mn_today V) (mc_log M1) of
             None \<Rightarrow> (Stuck, M1)
           | Some (_, L) \<Rightarrow>
               (case prompt_ports (mn_terminal V) cfg0 (mc_stdin M1) of
                  (cfg, ls) \<Rightarrow>
                    (case open_db V (cfg_DBCacheDir cfg @ ''dns.db'') (M1\<lparr>mc_log := L, mc_stdin := ls\<rparr>) of
                       (Inl e, M2) \<Rightarrow> log_Fatalf V (''open db: '' @ e) M2
                     | (Inr s, M2) \<Rightarrow> start_dns V cfg (new_admin (mn_sql V) s) M2))))"

section \<open>Stop\<close>

text \<open>After the signal: the DNS listeners, the two servers, the log; the deferred \<open>Shutdown\<close> comes
  last and finds nothing to do.\<close>

definition stop :: "main_env \<Rightarrow> running \<Rightarrow> machine \<Rightarrow> (running \<times> machine) option" where
  "stop V R M =
     (case log_Printf (mn_log V) ''shutting down...'' (mc_log M) of
        None \<Rightarrow> None
      | Some (_, L1) \<Rightarrow>
          let w1 = Server_Shutdown (mn_listen V) (rn_dns R) (mc_net M);
              R1 = R\<lparr>rn_doh := Server_Stop (rn_doh R), rn_manage := Server_Stop (rn_manage R)\<rparr>
          in (case Log_Flush (mn_log V) L1 of
                None \<Rightarrow> None
              | Some (_, L2) \<Rightarrow>
                  (case log_Printf (mn_log V) ''stopped.'' L2 of
                     None \<Rightarrow> None
                   | Some (_, L3) \<Rightarrow>
                       Some (R1, M\<lparr>mc_net := Server_Shutdown (mn_listen V) (rn_dns R1) w1, mc_log := L3\<rparr>))))"

end
