(* ===== verification/StartupProps.thy ===== *)
theory StartupProps
  imports Startup
begin

text \<open>
  The start of the program: what it needs, what it has established when it serves, what an operator
  can type, and what the log file lacks after an exit.
\<close>

section \<open>Ports\<close>

lemma port_ok_iff: "port_ok p \<longleftrightarrow> 1 \<le> p \<and> p \<le> 65535"
  by (auto simp: port_ok_def)

lemma parseIntPort_ok: "port_ok def \<Longrightarrow> port_ok (parseIntPort s def)"
  by (simp add: parseIntPort_def split: option.split)

lemma readPortInput_ok:
  "readPortInput t def ls = (p, ls') \<Longrightarrow> port_ok def \<Longrightarrow> port_ok p \<and> suffix ls' ls"
proof (induction t def ls rule: readPortInput.induct)
  case (3 def l ls)
  then show ?case
    by (auto simp: Let_def intro: suffix_ConsI split: if_splits option.splits)
qed auto

lemma prompt_addr_ok:
  assumes "prompt_addr addr def ls = (a, ls')" and "port_ok def"
  shows "\<exists>p. a = ''0.0.0.0:'' @ FormatInt p \<and> 1 \<le> p \<and> p \<le> 65535" and "suffix ls' ls"
  using readPortInput_ok[OF _ parseIntPort_ok[OF assms(2)]] assms(1)
  by (fastforce simp: prompt_addr_def port_ok_iff split: prod.splits)+

text \<open>C35: the addresses after the prompts: on a terminal the program listens on all interfaces,
  whatever host was configured, on three ports between 1 and 65535, whatever is typed, and the
  prompts only take lines from the front of the input.\<close>

theorem prompted_addresses:
  assumes "prompt_ports True cfg ls = (cfg', ls')"
  shows "list_all (\<lambda>a. \<exists>p. a = ''0.0.0.0:'' @ FormatInt p \<and> 1 \<le> p \<and> p \<le> 65535)
      [cfg_DNSAddr cfg', cfg_DoTAddr cfg', cfg_DoHAddr cfg'] \<and> suffix ls' ls"
proof -
  obtain d1 l1 where 1: "prompt_addr (cfg_DNSAddr cfg) 15353 ls = (d1, l1)" by fastforce
  obtain d2 l2 where 2: "prompt_addr (cfg_DoTAddr cfg) 1853 l1 = (d2, l2)" by fastforce
  obtain d3 l3 where 3: "prompt_addr (cfg_DoHAddr cfg) 1443 l2 = (d3, l3)" by fastforce
  have c: "cfg' = cfg\<lparr>cfg_DNSAddr := d1, cfg_DoTAddr := d2, cfg_DoHAddr := d3\<rparr>" "ls' = l3"
    using assms 1 2 3 by (simp_all add: prompt_ports_def)
  have ok: "port_ok 15353" "port_ok 1853" "port_ok 1443" by (simp_all add: port_ok_def)
  have "suffix ls' ls"
    using prompt_addr_ok(2)[OF 1 ok(1)] prompt_addr_ok(2)[OF 2 ok(2)] prompt_addr_ok(2)[OF 3 ok(3)] c(2)
    by (meson suffix_order.trans)
  then show ?thesis
    using prompt_addr_ok(1)[OF 1 ok(1)] prompt_addr_ok(1)[OF 2 ok(2)] prompt_addr_ok(1)[OF 3 ok(3)] by (simp add: c)
qed

section \<open>Files\<close>

lemma path_Clean_nonempty: "path_Clean p \<noteq> []"
  by (simp add: path_Clean_def Let_def)

lemma path_Join_nonempty: "e \<noteq> [] \<Longrightarrow> path_Join [d, e] \<noteq> []"
  by (simp add: path_Join_def path_Clean_nonempty)

lemma finish_files: "cfg_CertFile (finish_config cfg) \<noteq> []" "cfg_KeyFile (finish_config cfg) \<noteq> []"
  using path_Join_nonempty[of "''server.crt''"] path_Join_nonempty[of "''server.key''"]
  by (auto simp: finish_config_def Let_def)

lemma prompt_ports_files:
  assumes "prompt_ports t cfg ls = (cfg', ls')"
  shows "cfg_CertFile cfg' = cfg_CertFile cfg" "cfg_KeyFile cfg' = cfg_KeyFile cfg" "cfg_DBCacheDir cfg' = cfg_DBCacheDir cfg"
  using assms by (auto simp: prompt_ports_def split: if_splits prod.splits)

text \<open>Making directories makes no file.\<close>

lemma mkdir_no_file: "map_of (snd (fs_MkdirAll E p d)) q = Some (FileNode b) \<Longrightarrow> map_of d q = Some (FileNode b)"
  by (auto simp: fs_MkdirAll_def map_of_mkdirs split: option.splits if_splits)

lemma load_config_ok:
  assumes "load_config V M = (Inr cfg, M1)"
  shows "\<exists>c. cfg = finish_config c" and "mc_dbs M1 = mc_dbs M" "mc_net M1 = mc_net M" "mc_log M1 = mc_log M"
    and "map_of (cs_fs (mc_files M1)) q = Some (FileNode b) \<Longrightarrow> map_of (cs_fs (mc_files M)) q = Some (FileNode b)"
  using assms
  by (auto simp: load_config_def Let_def dest!: mkdir_no_file dest: Load_ok split: sum.splits)

lemma LoadX509KeyPair_files:
  assumes "LoadX509KeyPair E cert key d = Inr c"
  shows "\<exists>b. map_of d cert = Some (FileNode b)" "\<exists>b. map_of d key = Some (FileNode b)"
  using assms by (auto simp: LoadX509KeyPair_def fs_ReadFile_def split: sum.splits option.splits node.splits)

section \<open>The parts of a start that succeeds\<close>

lemma Fatalf_not_running [simp]: "log_Fatalf V msg M \<noteq> (Running R, M')"
  by (simp add: log_Fatalf_def split: option.split prod.split)

lemma start_https_running:
  "start_https V cfg a s M = (Running R, M') \<Longrightarrow>
     rn_cfg R = cfg \<and> rn_admin R = a \<and> rn_dns R = s \<and> mc_net M' = mc_net M \<and> mc_dbs M' = mc_dbs M"
  by (auto simp: start_https_def Let_def split: prod.splits sum.splits)

lemma start_dns_running:
  assumes "start_dns V cfg a M = (Running R, M')"
  shows "rn_cfg R = cfg" "rn_admin R = a" "mc_dbs M' = mc_dbs M"
    and "\<exists>s1 w1 s2 w2. Start (mn_listen V) (NewServer (cfg_DNSAddr cfg)) (mc_net M) = (Inr (), s1, w1) \<and>
      StartTLS (mn_listen V) (\<lambda>c k. LoadX509KeyPair (mn_cert V) c k (cs_fs (mc_files M))) (cfg_DoTAddr cfg)
        (cfg_CertFile cfg) (cfg_KeyFile cfg) s1 w1 = (Inr (), s2, w2) \<and> rn_dns R = s2 \<and> mc_net M' = w2"
  using assms by (auto simp: start_dns_def dest!: start_https_running split: prod.splits sum.splits)

lemma main_running:
  assumes "main V M = (Running R, M')"
  obtains cfg0 M1 L cfg ls s M2 where "load_config V M = (Inr cfg0, M1)"
    "Init (mn_log V) (path_Join [path_Dir (os_Executable (mn_os V)), ''logs'']) (mn_today V) (mc_log M1) = Some ((), L)"
    "prompt_ports (mn_terminal V) cfg0 (mc_stdin M1) = (cfg, ls)"
    "open_db V (cfg_DBCacheDir cfg @ ''dns.db'') (M1\<lparr>mc_log := L, mc_stdin := ls\<rparr>) = (Inr s, M2)"
    "start_dns V cfg (new_admin (mn_sql V) s) M2 = (Running R, M')"
  using assms by (auto simp: main_def Let_def split: prod.splits sum.splits option.splits)

text \<open>C26: the program does not start without certificates: when it gets to serve, the certificate and
  the key were both in their files before it was started. The pair that the HTTPS servers would
  make comes too late, since the DNS over TLS listener loads its own first and the program exits
  when it cannot.\<close>

theorem no_start_without_certificates:
  assumes "main V M = (Running R, M')"
  shows "(\<exists>c. map_of (cs_fs (mc_files M)) (cfg_CertFile (rn_cfg R)) = Some (FileNode c)) \<and>
    (\<exists>k. map_of (cs_fs (mc_files M)) (cfg_KeyFile (rn_cfg R)) = Some (FileNode k))"
proof (rule main_running[OF assms])
  fix cfg0 M1 L cfg ls s M2
  assume l: "load_config V M = (Inr cfg0, M1)" and p: "prompt_ports (mn_terminal V) cfg0 (mc_stdin M1) = (cfg, ls)"
    and o: "open_db V (cfg_DBCacheDir cfg @ ''dns.db'') (M1\<lparr>mc_log := L, mc_stdin := ls\<rparr>) = (Inr s, M2)"
    and d: "start_dns V cfg (new_admin (mn_sql V) s) M2 = (Running R, M')"
  have files: "mc_files M2 = mc_files M1" using o by (auto simp: open_db_def split: prod.splits)
  obtain c where "cfg0 = finish_config c" using load_config_ok(1)[OF l] by blast
  then have ne: "cfg_CertFile cfg \<noteq> []" "cfg_KeyFile cfg \<noteq> []"
    using prompt_ports_files[OF p] finish_files by simp_all
  obtain s1 w1 s2 w2 where "StartTLS (mn_listen V) (\<lambda>c k. LoadX509KeyPair (mn_cert V) c k (cs_fs (mc_files M2)))
      (cfg_DoTAddr cfg) (cfg_CertFile cfg) (cfg_KeyFile cfg) s1 w1 = (Inr (), s2, w2)"
    using start_dns_running(4)[OF d] by blast
  from StartTLS_ok[OF this] ne obtain x where
    "LoadX509KeyPair (mn_cert V) (cfg_CertFile cfg) (cfg_KeyFile cfg) (cs_fs (mc_files M2)) = Inr x" by blast
  from LoadX509KeyPair_files[OF this] load_config_ok(5)[OF l] files start_dns_running(1)[OF d]
  show ?thesis by metis
qed

section \<open>Ready to serve\<close>

lemma open_db_ok:
  assumes "open_db V path M = (Inr s, M')" and "never_fails (mn_sql V)" and "gcm_ok (sql_gcm (mn_sql V))"
    and "nonces_ok (mn_sql V)" and "file_ok (mc_dbs M path)"
  shows "db_wf s" and "has_account s" and "domain_rules s = domain_rules (tables_of (mc_dbs M path))"
    and "host_records s = host_records (tables_of (with_mode (mc_dbs M path)))"
proof -
  from assms(1) obtain d where "Open (mn_sql V) (mc_dbs M path) = (Inr d, d)" "s = tables_of d"
    by (auto simp: open_db_def map_sum_Inr Open_def split: prod.splits sum.splits)
  with Open_upgraded[OF assms(2,5,3,4)] show "db_wf s" and "has_account s"
    and "domain_rules s = domain_rules (tables_of (mc_dbs M path))"
    and "host_records s = host_records (tables_of (with_mode (mc_dbs M path)))" by auto
qed

lemma new_admin_ready:
  assumes "never_fails E" and "order_ok E" and "db_wf s" and "has_account s"
  shows "store_ok E (ad_store (new_admin E s))" and "coherent E (ad_rel (new_admin E s))"
    and "has_account (ad_store (new_admin E s))" and "\<exists>n. ad_store (new_admin E s) = s\<lparr>stmt_count := n\<rparr>"
proof -
  let ?R = "NewReloaderWithHosts s RuleCache_New NewHostCache"
  have ok: "store_ok E (rd_store ?R)" using assms(2,3) by (simp add: store_ok_def NewReloaderWithHosts_def)
  from Reload_never_fails[OF assms(1) ok] have "Reload E ?R = (Inr (), snd (Reload E ?R))" by (metis prod.collapse)
  note r = Reload_ok[OF this ok]
  show "coherent E (ad_rel (new_admin E s))" using r(1) by (simp add: new_admin_def)
  show st: "\<exists>n. ad_store (new_admin E s) = s\<lparr>stmt_count := n\<rparr>"
    using r(2) by (simp add: new_admin_def NewReloaderWithHosts_def)
  show "store_ok E (ad_store (new_admin E s))" "has_account (ad_store (new_admin E s))"
    using st assms(2-4) by (auto simp: store_ok_def has_account_def)
qed

lemma started_ready:
  assumes "main V M = (Running R, M')" and "never_fails (mn_sql V)" and "order_ok (mn_sql V)"
    and "gcm_ok (sql_gcm (mn_sql V))" and "nonces_ok (mn_sql V)" and "\<forall>p. file_ok (mc_dbs M p)"
  shows "store_ok (mn_sql V) (ad_store (rn_admin R)) \<and> coherent (mn_sql V) (ad_rel (rn_admin R)) \<and>
    has_account (ad_store (rn_admin R)) \<and>
    domain_rules (ad_store (rn_admin R)) = domain_rules (tables_of (mc_dbs M (cfg_DBCacheDir (rn_cfg R) @ ''dns.db''))) \<and>
    host_records (ad_store (rn_admin R)) =
      host_records (tables_of (with_mode (mc_dbs M (cfg_DBCacheDir (rn_cfg R) @ ''dns.db''))))"
proof (rule main_running[OF assms(1)])
  fix cfg0 M1 L cfg ls s M2
  assume l: "load_config V M = (Inr cfg0, M1)"
    and o: "open_db V (cfg_DBCacheDir cfg @ ''dns.db'') (M1\<lparr>mc_log := L, mc_stdin := ls\<rparr>) = (Inr s, M2)"
    and d: "start_dns V cfg (new_admin (mn_sql V) s) M2 = (Running R, M')"
  have f: "file_ok (mc_dbs (M1\<lparr>mc_log := L, mc_stdin := ls\<rparr>) (cfg_DBCacheDir cfg @ ''dns.db''))"
    using assms(6) load_config_ok(2)[OF l] by simp
  note op = open_db_ok[OF o assms(2,4,5) f]
  note na = new_admin_ready[OF assms(2,3) op(1,2)]
  have "domain_rules (ad_store (new_admin (mn_sql V) s)) = domain_rules (tables_of (mc_dbs M (cfg_DBCacheDir cfg @ ''dns.db'')))"
    and "host_records (ad_store (new_admin (mn_sql V) s)) =
      host_records (tables_of (with_mode (mc_dbs M (cfg_DBCacheDir cfg @ ''dns.db''))))"
    using na(4) op(3,4) load_config_ok(2)[OF l] by auto
  then show "store_ok (mn_sql V) (ad_store (rn_admin R)) \<and> coherent (mn_sql V) (ad_rel (rn_admin R)) \<and>
    has_account (ad_store (rn_admin R)) \<and>
    domain_rules (ad_store (rn_admin R)) = domain_rules (tables_of (mc_dbs M (cfg_DBCacheDir (rn_cfg R) @ ''dns.db''))) \<and>
    host_records (ad_store (rn_admin R)) =
      host_records (tables_of (with_mode (mc_dbs M (cfg_DBCacheDir (rn_cfg R) @ ''dns.db''))))"
    using na(1-3) start_dns_running(1,2)[OF d] by simp
qed

text \<open>A start that succeeds is ready: on database files that the program wrote, with a driver that
  does not fail, the store is well-formed and has an administrator, both caches hold its tables
  before the first query, and every stored rule and record is the one that was in the file (records of
  an old file in the mode exact).\<close>

theorem startup_ready:
  assumes "main V M = (Running R, M')" and "never_fails (mn_sql V)" and "order_ok (mn_sql V)"
    and "gcm_ok (sql_gcm (mn_sql V))" and "nonces_ok (mn_sql V)" and "\<forall>p. file_ok (mc_dbs M p)"
  shows "store_ok (mn_sql V) (ad_store (rn_admin R)) \<and> coherent (mn_sql V) (ad_rel (rn_admin R)) \<and>
    has_account (ad_store (rn_admin R)) \<and>
    domain_rules (ad_store (rn_admin R)) = domain_rules (tables_of (mc_dbs M (cfg_DBCacheDir (rn_cfg R) @ ''dns.db''))) \<and>
    host_records (ad_store (rn_admin R)) =
      host_records (tables_of (with_mode (mc_dbs M (cfg_DBCacheDir (rn_cfg R) @ ''dns.db''))))"
  by (rule started_ready[OF assms])

section \<open>The log at an exit\<close>

definition log_line :: "main_env \<Rightarrow> string \<Rightarrow> log_state \<Rightarrow> bytes" where
  "log_line V msg L = le_stamp (mn_log V) (lg_prints L) @ msg @ [CHR 0x0A]"

lemma Printf_buffered:
  assumes "quiet_disk (mn_log V)" and "log_good L" and "lg_writer L = Some b"
    and "length (log_line V msg L) \<le> bufsize - length (bw_buf b)"
  shows "\<exists>L'. log_Printf (mn_log V) msg L = Some ((), L') \<and> log_good L' \<and> lg_data L' = lg_data L \<and>
    lg_file L' = lg_file L \<and> log_view L' = log_view L @ log_line V msg L"
proof -
  let ?l = "log_line V msg L"
  have g: "\<not> lg_mu L" "lg_multi L" "bw_err b = None" using assms(2,3) by (auto simp: log_good_def)
  let ?L' = "L\<lparr>lg_prints := lg_prints L + 1, lg_writer := Some (b\<lparr>bw_buf := bw_buf b @ ?l\<rparr>)\<rparr>"
  have "bw_Write (mn_log V) ?l b S 0 = ((length ?l, None), b\<lparr>bw_buf := bw_buf b @ ?l\<rparr>, S)" for S
    using assms(4) g(3) by (subst bw_Write.simps) simp
  then have "log_Printf (mn_log V) msg L = Some ((), ?L')"
    using g assms(1,3) unfolding log_line_def[symmetric] log_Printf_def
    by (cases L) (simp add: log_Output_def logWriter_Write_def with_mu_def quiet_disk_def Let_def)
  moreover have "log_good ?L'" using assms(2,3) by (auto simp: log_good_def)
  moreover have "log_view ?L' = log_view L @ ?l" using assms(3) by (simp add: log_view_def bw_view_def)
  ultimately show ?thesis by (intro exI[of _ ?L']) simp
qed

text \<open>The reason of an exit is not in the log file: the text of \<open>log.Fatalf\<close> goes to the buffer,
  where it fits behind what is waiting there, and the process ends without a flush, so the bytes of
  every file stay as they were.\<close>

theorem exit_text_not_in_file:
  assumes "quiet_disk (mn_log V)" and "log_good (mc_log M)" and "lg_writer (mc_log M) = Some b"
    and "length (log_line V msg (mc_log M)) \<le> bufsize - length (bw_buf b)"
  shows "\<exists>M'. log_Fatalf V msg M = (Exit msg, M') \<and> lg_data (mc_log M') = lg_data (mc_log M) \<and>
    log_view (mc_log M') = log_view (mc_log M) @ log_line V msg (mc_log M)"
  using Printf_buffered[OF assms] by (auto simp: log_Fatalf_def)

section \<open>A concrete machine\<close>

definition example_main :: main_env where
  "example_main =
     \<lparr>mn_os = example_os [], mn_terminal = False, mn_today = ''2025-01-01'', mn_log = example_log_env (\<lambda>_. None),
      mn_sql = quiet, mn_cert = healthy_certs, mn_listen = example_listen (\<lambda>_. Inr)\<rparr>"

definition example_machine :: "fs \<Rightarrow> machine" where
  "example_machine d =
     \<lparr>mc_files = \<lparr>cs_fs = d, cs_draws = 0\<rparr>, mc_dbs = (\<lambda>_. new_file), mc_net = no_sockets, mc_log = fresh_log,
      mc_stdin = []\<rparr>"

definition pair_files :: fs where
  "pair_files =
     [(''/opt/dns/certs/server.crt'', FileNode (pem_block ''CERTIFICATE'' ''c'')),
      (''/opt/dns/certs/server.key'', FileNode (pem_block ''EC PRIVATE KEY'' ''k''))]"

definition is_running :: "outcome \<Rightarrow> bool" where
  "is_running r = (case r of Running _ \<Rightarrow> True | _ \<Rightarrow> False)"

lemma example_main_fields [simp]:
  "mn_sql example_main = quiet" "mn_log example_main = example_log_env (\<lambda>_. None)"
  "le_stamp (example_log_env opens) n = ''2025/01/02 00:05:00 ''"
  by (simp_all add: example_main_def example_log_env_def)

definition example_cfg :: config where
  "example_cfg = finish_config (parsed_config (example_os []) [])"

definition example_files :: "fs \<Rightarrow> fs" where
  "example_files d = cs_fs (mc_files (snd (load_config example_main (example_machine d))))"

lemma example_load:
  "load_config example_main (example_machine pair_files) =
     (Inr example_cfg, (example_machine pair_files)\<lparr>mc_files := \<lparr>cs_fs = example_files pair_files, cs_draws = 0\<rparr>\<rparr>)"
proof -
  have "fst (load_config example_main (example_machine pair_files)) = Inr example_cfg" by code_simp
  then show ?thesis
    by (auto simp: example_files_def load_config_def Let_def example_machine_def split: sum.splits prod.splits)
qed

lemma example_init: "\<exists>L. Init (example_log_env (\<lambda>_. None)) dir today fresh_log = Some ((), L)"
  by (auto simp: Init_def Let_def example_log_env_def openTodayLog_def with_mu_def flush_writer_def fresh_log_def
      OpenFile_def split: option.split)

lemma example_dns:
  "is_running (fst (start_dns example_main example_cfg a
     \<lparr>mc_files = \<lparr>cs_fs = example_files pair_files, cs_draws = 0\<rparr>, mc_dbs = dbs, mc_net = no_sockets, mc_log = L, mc_stdin = ls\<rparr>))"
  by code_simp

lemma load_config_dbs: "load_config V (M\<lparr>mc_dbs := g\<rparr>) = map_prod id (\<lambda>M. M\<lparr>mc_dbs := g\<rparr>) (load_config V M)"
  by (cases M) (simp add: load_config_def Let_def split: sum.split)

lemma example_run_on:
  assumes "is_ok (fst (Open quiet f))"
  shows "is_running (fst (main example_main ((example_machine pair_files)\<lparr>mc_dbs := \<lambda>_. f\<rparr>)))"
proof -
  let ?M = "(example_machine pair_files)\<lparr>mc_dbs := \<lambda>_. f\<rparr>"
  have o: "\<not> mn_terminal example_main" "mn_os example_main = example_os []" "mn_today example_main = ''2025-01-01''"
    by (simp_all add: example_main_def)
  obtain L where L: "Init (example_log_env (\<lambda>_. None)) (path_Join [path_Dir (os_Executable (example_os [])), ''logs'']) ''2025-01-01'' fresh_log
      = Some ((), L)" using example_init by blast
  obtain d where d: "Open quiet f = (Inr d, d)"
    using assms by (auto simp: Open_def split: prod.splits sum.splits)
  let ?M2 = "\<lparr>mc_files = \<lparr>cs_fs = example_files pair_files, cs_draws = 0\<rparr>,
    mc_dbs = (\<lambda>_. f)(cfg_DBCacheDir example_cfg @ ''dns.db'' := d), mc_net = no_sockets, mc_log = L, mc_stdin = []\<rparr>"
  have l: "load_config example_main ?M = (Inr example_cfg, ?M\<lparr>mc_files := \<lparr>cs_fs = example_files pair_files, cs_draws = 0\<rparr>\<rparr>)"
    unfolding load_config_dbs example_load by simp
  have "main example_main ?M = start_dns example_main example_cfg (new_admin quiet (tables_of d)) ?M2"
    using L d o by (simp add: main_def l Let_def) (simp add: example_machine_def prompt_ports_def open_db_def)
  then show ?thesis using example_dns by simp
qed

lemma example_run: "is_running (fst (main example_main (example_machine pair_files)))"
proof -
  have "is_ok (fst (Open quiet new_file))" by code_simp
  from example_run_on[OF this] show ?thesis by (simp add: example_machine_def)
qed

theorem prompted_addresses_witness:
  "suffix (snd (prompt_ports True (parsed_config (example_os []) []) [''70000'', '' 5353 '', [], ''853'']))
     [''70000'', '' 5353 '', [], ''853'']"
  using prompted_addresses[of "parsed_config (example_os []) []" "[''70000'', '' 5353 '', [], ''853'']"
      "fst (prompt_ports True (parsed_config (example_os []) []) [''70000'', '' 5353 '', [], ''853''])"
      "snd (prompt_ports True (parsed_config (example_os []) []) [''70000'', '' 5353 '', [], ''853''])"] by simp

theorem no_start_without_certificates_witness:
  "\<exists>R M' c. main example_main (example_machine pair_files) = (Running R, M') \<and>
     map_of pair_files (cfg_CertFile (rn_cfg R)) = Some (FileNode c)"
proof -
  obtain R M' where r: "main example_main (example_machine pair_files) = (Running R, M')"
    using example_run by (cases "main example_main (example_machine pair_files)") (auto simp: is_running_def split: outcome.splits)
  from no_start_without_certificates[OF this] r show ?thesis by (auto simp: example_machine_def)
qed

theorem startup_ready_witness:
  "\<exists>R M'. main example_main (example_machine pair_files) = (Running R, M') \<and> coherent quiet (ad_rel (rn_admin R)) \<and>
     has_account (ad_store (rn_admin R))"
proof -
  obtain R M' where r: "main example_main (example_machine pair_files) = (Running R, M')"
    using example_run by (cases "main example_main (example_machine pair_files)") (auto simp: is_running_def split: outcome.splits)
  have "\<forall>p. file_ok (mc_dbs (example_machine pair_files) p)"
    by (simp add: example_machine_def file_ok_def new_file_def)
  with startup_ready[OF r] r show ?thesis by simp
qed

theorem exit_text_not_in_file_witness:
  "\<exists>M'. log_Fatalf example_main ''open db: disk I/O error'' (example_machine []\<lparr>mc_log := started_log\<rparr>) =
        (Exit ''open db: disk I/O error'', M') \<and> lg_data (mc_log M') = (\<lambda>_. [])"
proof -
  have w: "lg_writer started_log = Some (NewWriterSize \<lparr>lf_id = 0, lf_name = ''/logs/dns-proxy-2025-01-01.log'', lf_node = 0\<rparr>)"
    and d: "lg_data started_log = (\<lambda>_. [])" by (simp_all add: started_log_def fresh_log_def)
  from exit_text_not_in_file[of example_main "example_machine []\<lparr>mc_log := started_log\<rparr>" _ "''open db: disk I/O error''"]
    started_log_good w d show ?thesis
    by (simp add: log_line_def NewWriterSize_def bufsize_def) blast
qed

end
