(* ===== verification/Proxy.thy ===== *)
theory Proxy
  imports Concurrent AdminExamples Doh StartupProps
begin

text \<open>
  The program while it serves: DNS messages, DoH requests and management requests, one after the
  other, on the state they share. The resolver and the management server hold pointers to the same
  two caches and counters, so the resolver's state is a view of the program's.
\<close>

section \<open>The shared state\<close>

record proxy =
  px_admin :: admin
  px_default :: string
  px_calls :: nat

definition resolver_view :: "proxy \<Rightarrow> resolver" where
  "resolver_view P =
     \<lparr>rv_cache = rd_cache (ad_rel (px_admin P)), rv_hosts = rd_hosts (ad_rel (px_admin P)),
      rv_defaultUpstream = px_default P, rv_local = ad_local (px_admin P), rv_forward = ad_forward (px_admin P),
      rv_calls = px_calls P\<rparr>"

definition put_resolver :: "resolver \<Rightarrow> proxy \<Rightarrow> proxy" where
  "put_resolver R P =
     P\<lparr>px_admin := (px_admin P)\<lparr>ad_rel := (ad_rel (px_admin P))\<lparr>rd_cache := rv_cache R, rd_hosts := rv_hosts R\<rparr>,
                               ad_local := rv_local R, ad_forward := rv_forward R\<rparr>,
       px_calls := rv_calls R\<rparr>"

text \<open>The state \<open>main\<close> hands over: a new handler on the caches the reloader filled.\<close>

definition serving :: "running \<Rightarrow> proxy" where
  "serving R = \<lparr>px_admin = rn_admin R, px_default = cfg_DefaultUpstream (rn_cfg R), px_calls = 0\<rparr>"

datatype request = Dns msg | DohRequest http_request | Manage http_request

datatype response = DnsResponse "msg option" | HttpResponse http_response

record proxy_env =
  pe_lib :: dns_lib
  pe_net :: net_env
  pe_admin :: admin_env
  pe_cfg :: config

fun serve :: "proxy_env \<Rightarrow> request \<Rightarrow> proxy \<Rightarrow> response \<times> proxy" where
  "serve V (Dns m) P =
     (case Handle (pe_lib V) (pe_net V) m (resolver_view P) of
        (resp, R) \<Rightarrow> (DnsResponse resp, put_resolver R P))"
| "serve V (DohRequest rq) P =
     (case buildDoHMux (pe_lib V) (Resolve (pe_lib V) (pe_net V)) rq (resolver_view P) of
        (resp, R) \<Rightarrow> (HttpResponse resp, put_resolver R P))"
| "serve V (Manage rq) P =
     (case buildAdminMux (pe_cfg V) (pe_admin V) rq (px_admin P) of
        (resp, a) \<Rightarrow> (HttpResponse resp, P\<lparr>px_admin := a\<rparr>))"

definition serve_all :: "proxy_env \<Rightarrow> request list \<Rightarrow> proxy \<Rightarrow> proxy" where
  "serve_all V rqs P = foldl (\<lambda>P rq. snd (serve V rq P)) P rqs"

lemma view_NewHandler:
  "resolver_view (serving R) =
     (NewHandler (rd_cache (ad_rel (rn_admin R))) (rd_hosts (ad_rel (rn_admin R))) (cfg_DefaultUpstream (rn_cfg R)))
       \<lparr>rv_local := ad_local (rn_admin R), rv_forward := ad_forward (rn_admin R)\<rparr>"
  by (simp add: resolver_view_def serving_def NewHandler_def)

section \<open>Management requests keep the caches right\<close>

definition admin_ok :: "sql_env \<Rightarrow> admin \<Rightarrow> bool" where
  "admin_ok E a \<longleftrightarrow> store_ok E (ad_store a) \<and> coherent E (ad_rel a) \<and> rd_hosts (ad_rel a) \<noteq> None"

definition keeps_ok :: "sql_env \<Rightarrow> handler \<Rightarrow> bool" where
  "keeps_ok E h \<longleftrightarrow> (\<forall>rq a. admin_ok E a \<longrightarrow> admin_ok E (snd (h rq a)))"

lemma admin_ok_same: "admin_ok E a \<Longrightarrow> same_tables (ad_store a) s \<Longrightarrow> admin_ok E (with_store a s)"
  using coherent_same[of a s E] store_ok_same[of E "ad_store a" s] by (simp add: admin_ok_def)

lemma Reload_hosts: "Reload E R = (Inr (), R') \<Longrightarrow> rd_hosts R \<noteq> None \<Longrightarrow> rd_hosts R' \<noteq> None"
  by (auto simp: Reload_def reload_rules_load reload_hosts_def split: prod.splits sum.splits option.splits)

lemma admin_ok_reload:
  assumes "never_fails E" and "store_ok E s" and "rd_hosts (ad_rel a) \<noteq> None"
  shows "admin_ok E (snd (reload_and_answer E b (with_store a s)))"
proof -
  let ?R = "ad_rel (with_store a s)"
  have ok: "store_ok E (rd_store ?R)" using assms(2) by simp
  from Reload_never_fails[OF assms(1) ok] obtain R where R: "Reload E ?R = (Inr (), R)" by (metis prod.collapse)
  note r = Reload_ok(1,2)[OF R ok]
  from r(2) assms(2) have "store_ok E (rd_store R)" by auto
  with r(1) R Reload_hosts[OF R] assms(3) show ?thesis by (simp add: admin_ok_def reload_and_answer_def)
qed

text \<open>An operation that is refused leaves the tables alone, one that runs leaves them well-formed.\<close>

lemma refused_ops:
  assumes "never_fails E" and "db_wf s"
  shows "CreateRule E c s = (Inl e, s1) \<Longrightarrow> same_tables s s1" "UpdateRule E i u s = (Inl e, s1) \<Longrightarrow> same_tables s s1"
    "DeleteRule E i s = (Inl e, s1) \<Longrightarrow> same_tables s s1" "CreateHost E hc s = (Inl e, s1) \<Longrightarrow> same_tables s s1"
    "UpdateHost E i hu s = (Inl e, s1) \<Longrightarrow> same_tables s s1" "DeleteHost E i s = (Inl e, s1) \<Longrightarrow> same_tables s s1"
  using refused_CreateRule[OF assms, of c] refused_UpdateRule[OF assms, of i u] refused_Delete[OF assms, of i]
    refused_CreateHost[OF assms, of hc] refused_UpdateHost[OF assms, of i hu] by auto

lemma read_same:
  "ListRules E s = (r1, s1) \<Longrightarrow> same_tables s s1" "ListHosts E s = (r2, s1) \<Longrightarrow> same_tables s s1"
  "GetRule E i s = (r3, s1) \<Longrightarrow> same_tables s s1" "GetHost E i s = (r4, s1) \<Longrightarrow> same_tables s s1"
  by (auto dest!: read_state_eq)

lemma admin_ok_wf: "admin_ok E a \<Longrightarrow> db_wf (ad_store a) \<and> store_ok E (ad_store a) \<and> rd_hosts (ad_rel a) \<noteq> None"
  by (simp add: admin_ok_def store_ok_def)


lemma ok_rules: "never_fails (en_sql V) \<Longrightarrow> keeps_ok (en_sql V) (rulesHandler V)"
  by (auto simp: keeps_ok_def rulesHandler_def not_allowed_def
      intro!: admin_ok_same admin_ok_reload dest: admin_ok_wf read_same store_ok_ops refused_ops
      split: prod.splits sum.splits if_splits)

lemma ok_hosts: "never_fails (en_sql V) \<Longrightarrow> keeps_ok (en_sql V) (hostsHandler V)"
  by (auto simp: keeps_ok_def hostsHandler_def not_allowed_def
      intro!: admin_ok_same admin_ok_reload dest: admin_ok_wf read_same store_ok_ops refused_ops
      split: prod.splits sum.splits if_splits)

lemma ok_ruleByID: "never_fails (en_sql V) \<Longrightarrow> keeps_ok (en_sql V) (ruleByIDHandler V)"
  by (auto simp: keeps_ok_def ruleByIDHandler_def Let_def not_allowed_def
      intro!: admin_ok_same admin_ok_reload dest: admin_ok_wf read_same store_ok_ops refused_ops
      split: prod.splits sum.splits option.splits if_splits)

lemma ok_hostByID: "never_fails (en_sql V) \<Longrightarrow> keeps_ok (en_sql V) (hostByIDHandler V)"
  by (auto simp: keeps_ok_def hostByIDHandler_def Let_def not_allowed_def
      intro!: admin_ok_same admin_ok_reload dest: admin_ok_wf read_same store_ok_ops refused_ops
      split: prod.splits sum.splits option.splits if_splits)

lemma ok_reload:
  assumes "never_fails (en_sql V)"
  shows "keeps_ok (en_sql V) (reloadHandler V)"
proof -
  have "admin_ok (en_sql V) (snd (reload_and_answer (en_sql V) b a))" if "admin_ok (en_sql V) a" for a b
    using admin_ok_reload[OF assms, of "ad_store a" a b] that by (simp add: with_store_def admin_ok_def)
  then show ?thesis by (auto simp: keeps_ok_def reloadHandler_def)
qed

lemma ok_pages:
  "keeps_ok E (configHandler cfg)" "keeps_ok E (statusHandler cfg)"
  "keeps_ok E (serveIndex V)" "keeps_ok E (serveStaticFile V name)"
  by (auto simp: keeps_ok_def configHandler_def statusHandler_def serveIndex_def serveStaticFile_def
      Let_def split: sum.splits if_splits)

lemma ok_auth: "keeps_ok (en_sql V) (authHandler V)"
  unfolding keeps_ok_def
proof (intro allI impI)
  fix rq a
  assume ok: "admin_ok (en_sql V) a"
  let ?E = "en_sql V"
  obtain r1 s1 where 1: "GetAdminUser ?E (ad_store a) = (r1, s1)" by (cases "GetAdminUser ?E (ad_store a)")
  obtain r2 s2 where 2: "GetAdminPass ?E s1 = (r2, s2)" by (cases "GetAdminPass ?E s1")
  have s1: "same_tables (ad_store a) s1" by (rule rules_of_account_ops(1)[OF 1])
  have s2: "same_tables (ad_store a) s2" by (rule same_tables_trans[OF s1 rules_of_account_ops(2)[OF 2]])
  have upd: "admin_ok ?E (with_store a s3)" if "UpdateAdminAccount ?E u p s2 = (r, s3)" for u p r s3
  proof -
    have "db_wf s2" using db_wf_same_tables[OF _ s2] ok by (simp add: admin_ok_def store_ok_def)
    from db_wf_UpdateAdminAccount[OF this, of ?E u p] that have "db_wf s3" by simp
    moreover have "coherent ?E (ad_rel (with_store a s3)) = coherent ?E (ad_rel a)"
      by (rule coherent_tables) (use s2 rules_of_account_change[OF that] in \<open>simp_all add: same_tables_def\<close>)
    ultimately show ?thesis using ok by (simp add: admin_ok_def store_ok_def)
  qed
  show "admin_ok ?E (snd (authHandler V rq a))"
    using ok 1 2 admin_ok_same[OF ok s1] admin_ok_same[OF ok s2] upd
    by (auto simp: authHandler_def not_allowed_def split: sum.split prod.split)
qed

lemma ok_route: "never_fails (en_sql V) \<Longrightarrow> keeps_ok (en_sql V) (admin_handler cfg V r)"
  by (cases r) (simp_all add: ok_rules ok_hosts ok_ruleByID ok_hostByID ok_reload ok_pages ok_auth)

lemma admin_request_ok:
  assumes "never_fails (en_sql V)" and "admin_ok (en_sql V) a"
  shows "admin_ok (en_sql V) (snd (buildAdminMux cfg V rq a))"
proof (cases "mux_dispatch admin_routes rq")
  case (Serve r)
  let ?h = "admin_handler cfg V r"
  obtain v s where v: "check_credentials (GetAdminUser (en_sql V)) (GetAdminPass (en_sql V)) (BasicAuth rq) (ad_store a) = (v, s)"
    by fastforce
  then have "same_tables (ad_store a) s" using account.check_same[of "ad_store a" "en_sql V" "BasicAuth rq"] by simp
  from admin_ok_same[OF assms(2) this] ok_route[OF assms(1), of cfg r] Serve v show ?thesis
    by (cases v) (simp_all add: buildAdminMux_def auth_def keeps_ok_def)
qed (use assms in \<open>simp_all add: buildAdminMux_def\<close>)

section \<open>Queries keep the tables of the caches\<close>

definition same_caches :: "resolver \<Rightarrow> resolver \<Rightarrow> bool" where
  "same_caches R R' \<longleftrightarrow>
     rule_tables (rv_cache R') = rule_tables (rv_cache R) \<and>
     map_option host_tables_of (rv_hosts R') = map_option host_tables_of (rv_hosts R)"

lemma resolveLocal_same:
  assumes "m_Question req \<noteq> []" and "resolveLocal L (Suc n) req R = Some (r, R')"
  shows "same_caches R R'"
proof -
  obtain q qs where q: "m_Question req = q # qs" using assms(1) by (cases "m_Question req") auto
  show ?thesis
  proof (cases "rv_hosts R")
    case None
    with assms(2) q show ?thesis by (simp add: resolveLocal.simps(2) same_caches_def)
  next
    case (Some h)
    obtain es ok where l: "fst (HostCache_Lookup h (ToLower (q_Name q)) (type_looked_up (q_Qtype q))) = (es, ok)" by fastforce
    from resolveLocal_closed[OF q Some l, of L n] assms(2) Some show ?thesis
      by (auto simp: same_caches_def host_tables_of_def split: if_splits)
  qed
qed

lemma Resolve_same: "same_caches R (snd (Resolve L N req R))"
proof (cases "m_Question req")
  case Nil
  then show ?thesis by (simp add: Resolve_def same_caches_def)
next
  case (Cons q qs)
  then have ne: "m_Question req \<noteq> []" by simp
  from resolveLocal_returns[OF ne, of L R] obtain r R1 where r: "resolveLocal L (Suc 0) req R = Some (r, R1)" by (metis surj_pair)
  note same = resolveLocal_same[OF ne r]
  have "same_caches R1 (snd (Resolve L N req R))"
    using r Cons Match_tables[of "rv_cache R1" "q_Name q"]
    by (auto simp: Resolve_def Handler_Match_def Let_def same_caches_def split: option.split prod.split)
  with same show ?thesis by (simp add: same_caches_def)
qed

lemma doh_state: "snd (buildDoHMux L resolve rq s) = s \<or> (\<exists>req. snd (buildDoHMux L resolve rq s) = snd (resolve req s))"
proof -
  have "snd (doh_reply L resolve req s) = snd (resolve req s)" for req
    by (auto simp: doh_reply_def split: prod.split option.split sum.split)
  then have "snd (dohHandler L resolve rq s) = s \<or> (\<exists>req. snd (dohHandler L resolve rq s) = snd (resolve req s))"
    by (auto simp: dohHandler_def Let_def split: sum.split)
  then show ?thesis by (auto simp: buildDoHMux_def split: dispatch.split doh_route.split)
qed

lemma put_same:
  assumes "admin_ok E (px_admin P)" and "same_caches (resolver_view P) R"
  shows "admin_ok E (px_admin (put_resolver R P))"
proof -
  let ?a = "px_admin P"
  have c: "rule_tables (rv_cache R) = rule_tables (rd_cache (ad_rel ?a))"
    and h: "map_option host_tables_of (rv_hosts R) = map_option host_tables_of (rd_hosts (ad_rel ?a))"
    using assms(2) by (simp_all add: same_caches_def resolver_view_def)
  have "hosts_coherent E s (rv_hosts R) = hosts_coherent E s (rd_hosts (ad_rel ?a))" for s
    using h by (cases "rv_hosts R"; cases "rd_hosts (ad_rel ?a)") (simp_all add: hosts_coherent_def)
  moreover have "rules_coherent E s (rv_cache R) = rules_coherent E s (rd_cache (ad_rel ?a))" for s
    using c by (simp add: rules_coherent_def)
  moreover have "rv_hosts R = None \<longleftrightarrow> rd_hosts (ad_rel ?a) = None" using h by (metis map_option_is_None)
  ultimately show ?thesis using assms(1) by (simp add: admin_ok_def coherent_def put_resolver_def)
qed

lemma serve_ok:
  assumes "never_fails (en_sql (pe_admin V))" and "admin_ok (en_sql (pe_admin V)) (px_admin P)"
  shows "admin_ok (en_sql (pe_admin V)) (px_admin (snd (serve V rq P)))"
proof (cases rq)
  case (Dns m)
  have "snd (Handle (pe_lib V) (pe_net V) m (resolver_view P)) = snd (Resolve (pe_lib V) (pe_net V) m (resolver_view P))"
    by (simp add: Handle_def split: prod.split)
  with Dns put_same[OF assms(2) Resolve_same] show ?thesis by (simp add: split_beta)
next
  case (DohRequest r)
  have "same_caches (resolver_view P) (snd (buildDoHMux (pe_lib V) (Resolve (pe_lib V) (pe_net V)) r (resolver_view P)))"
    using doh_state[of "pe_lib V" "Resolve (pe_lib V) (pe_net V)" r "resolver_view P"] Resolve_same
    by (metis same_caches_def)
  with DohRequest put_same[OF assms(2)] show ?thesis by (simp add: split_beta)
next
  case (Manage r)
  with admin_request_ok[OF assms, of "pe_cfg V" r] show ?thesis by (simp add: split_beta)
qed

lemma serve_all_ok:
  assumes "never_fails (en_sql (pe_admin V))"
  shows "admin_ok (en_sql (pe_admin V)) (px_admin P) \<Longrightarrow> admin_ok (en_sql (pe_admin V)) (px_admin (serve_all V rqs P))"
  unfolding serve_all_def by (induction rqs arbitrary: P) (simp_all add: serve_ok[OF assms])

section \<open>The program\<close>

text \<open>The conditions on the surroundings: the driver does not fail, the AEAD is one, and the database
  files are ones the program wrote.\<close>

definition sound_env :: "main_env \<Rightarrow> proxy_env \<Rightarrow> machine \<Rightarrow> bool" where
  "sound_env M V W \<longleftrightarrow>
     mn_sql M = en_sql (pe_admin V) \<and> never_fails (mn_sql M) \<and> order_ok (mn_sql M) \<and>
     gcm_ok (sql_gcm (mn_sql M)) \<and> nonces_ok (mn_sql M) \<and> (\<forall>p. file_ok (mc_dbs W p))"

lemma new_admin_hosts: "rd_hosts (ad_rel (new_admin E s)) \<noteq> None"
  by (auto simp: new_admin_def NewReloaderWithHosts_def Reload_def reload_rules_load reload_hosts_def
      split: prod.splits sum.splits option.splits)

lemma started_hosts: "main V M = (Running R, M') \<Longrightarrow> rd_hosts (ad_rel (rn_admin R)) \<noteq> None"
  by (erule main_running) (use start_dns_running(2) new_admin_hosts in metis)

lemma program_ok:
  assumes "main M W = (Running R, W')" and "sound_env M V W"
  shows "admin_ok (en_sql (pe_admin V)) (px_admin (serve_all V rqs (serving R)))"
proof (rule serve_all_ok)
  show "never_fails (en_sql (pe_admin V))" using assms(2) unfolding sound_env_def by metis
  show "admin_ok (en_sql (pe_admin V)) (px_admin (serving R))"
    using started_ready[OF assms(1)] started_hosts[OF assms(1)] assms(2)
    unfolding admin_ok_def serving_def sound_env_def by (metis proxy.select_convs(1))
qed

lemma program_specs:
  assumes "main M W = (Running R, W')" and "sound_env M V W"
    and "rel = ad_rel (px_admin (serve_all V rqs (serving R)))"
  shows "rule_spec (stored_rules (en_sql (pe_admin V)) (rd_store rel)) (normalize_domain name)
      (fst (RuleCache_Match (rd_cache rel) name)) \<and>
    (\<exists>h. rd_hosts rel = Some h \<and>
      host_spec (stored_hosts (en_sql (pe_admin V)) (rd_store rel)) (normalize_domain name) (query_type qt)
        (fst (HostCache_Lookup h name qt)))"
proof -
  have "coherent (en_sql (pe_admin V)) rel" "rd_hosts rel \<noteq> None"
    using program_ok[OF assms(1,2), of rqs] assms(3) by (simp_all add: admin_ok_def)
  then show ?thesis using coherent_Match coherent_Lookup by blast
qed

text \<open>C1: from its start on, the program answers what its store says: after a start on files it wrote
  and any sequence of DNS messages, DoH requests and management requests, valid or not, with or
  without credentials, the rule cache selects for every name what the stored rules select, and the
  host cache answers what the stored records say.\<close>

theorem program_follows_store:
  assumes "main M W = (Running R, W')" and "sound_env M V W"
    and "rel = ad_rel (px_admin (serve_all V rqs (serving R)))"
  shows "rule_spec (stored_rules (en_sql (pe_admin V)) (rd_store rel)) (normalize_domain name)
      (fst (RuleCache_Match (rd_cache rel) name)) \<and>
    (\<exists>h. rd_hosts rel = Some h \<and>
      host_spec (stored_hosts (en_sql (pe_admin V)) (rd_store rel)) (normalize_domain name) (query_type qt)
        (fst (HostCache_Lookup h name qt)))"
  by (rule program_specs[OF assms])

text \<open>C2: end to end: after a start and any sequence of requests, a DNS question for the addresses of a
  name that the store has A records for is answered with exactly those of them that are IPv4
  addresses, and no upstream server is asked.\<close>

theorem program_answers_stored_addresses:
  assumes "main M W = (Running R, W')" and "sound_env M V W" and "dns_lib_ok (pe_lib V)"
    and "P = serve_all V rqs (serving R)" and "m_Question req = q # qs" and "q_Qtype q = TypeA"
    and "es = filter (type_matches ''A'')
      (entries_at (stored_hosts (en_sql (pe_admin V)) (ad_store (px_admin P))) (normalize_domain (q_Name q)))" and "es \<noteq> []"
  shows "\<exists>resp P'. serve V (Dns req) P = (DnsResponse (Some resp), P') \<and>
    m_Answer resp = address_answers (ToLower (q_Name q)) es \<and> px_calls P' = px_calls P"
proof -
  let ?rel = "ad_rel (px_admin P)"
  from program_specs[OF assms(1,2), of ?rel rqs "ToLower (q_Name q)" "''A''"] assms(4) obtain h where
    h: "rd_hosts ?rel = Some h"
      "host_spec (stored_hosts (en_sql (pe_admin V)) (rd_store ?rel)) (normalize_domain (q_Name q)) ''A''
        (fst (HostCache_Lookup h (ToLower (q_Name q)) ''A''))" by auto
  have v: "rv_hosts (resolver_view P) = Some h" using h(1) by (simp add: resolver_view_def)
  from address_question[OF assms(3,5,6) v h(2) assms(7,8), of "pe_net V"] obtain resp where
    r: "fst (Resolve (pe_lib V) (pe_net V) req (resolver_view P)) = (Some resp, None)"
      "rv_calls (snd (Resolve (pe_lib V) (pe_net V) req (resolver_view P))) = rv_calls (resolver_view P)"
      "m_Answer resp = address_answers (ToLower (q_Name q)) es" by blast
  then show ?thesis
    by (cases "Resolve (pe_lib V) (pe_net V) req (resolver_view P)")
      (simp add: Handle_def put_resolver_def resolver_view_def)
qed

section \<open>Witnesses\<close>

definition example_proxy_env :: proxy_env where
  "example_proxy_env = \<lparr>pe_lib = example_lib, pe_net = example_net, pe_admin = example_decoders, pe_cfg = example_cfg\<rparr>"

lemma example_sound: "sound_env example_main example_proxy_env (example_machine pair_files)"
  by (simp add: sound_env_def example_proxy_env_def example_machine_def file_ok_def new_file_def)

lemma example_started: "\<exists>R W. main example_main (example_machine pair_files) = (Running R, W)"
  using example_run
  by (cases "main example_main (example_machine pair_files)") (auto simp: is_running_def split: outcome.splits)

theorem program_follows_store_witness:
  "\<exists>R W rel. main example_main (example_machine pair_files) = (Running R, W) \<and>
     rel = ad_rel (px_admin (serve_all example_proxy_env
       [Manage (example_request ''POST'' ''/api/rules'' as_admin), Dns (query_msg ''corp.lan.'' TypeA)] (serving R))) \<and>
     rule_spec (stored_rules quiet (rd_store rel)) (normalize_domain ''corp.lan.'') (fst (RuleCache_Match (rd_cache rel) ''corp.lan.''))"
proof -
  obtain R W where r: "main example_main (example_machine pair_files) = (Running R, W)" using example_started by blast
  from program_follows_store[OF r example_sound refl] r show ?thesis
    by (fastforce simp: example_proxy_env_def)
qed

text \<open>A start on a file with one record, an address of \<open>nas.lan\<close> and of every name below it.\<close>

definition home_machine :: machine where
  "home_machine = (example_machine pair_files)\<lparr>mc_dbs := \<lambda>_. file_of True one_host_db\<rparr>"

lemma home_file: "file_ok (file_of True one_host_db)"
  using example_dbs_wf(2) by (simp add: file_ok_def file_of_def db_wf_def)

lemma home_sound: "sound_env example_main example_proxy_env home_machine"
  using home_file by (simp add: sound_env_def example_proxy_env_def home_machine_def)

lemma home_started: "\<exists>R W. main example_main home_machine = (Running R, W)"
proof -
  have "is_ok (fst (Open quiet (file_of True one_host_db)))" by code_simp
  from example_run_on[OF this] show ?thesis unfolding home_machine_def
    by (cases "main example_main ((example_machine pair_files)\<lparr>mc_dbs := \<lambda>_. file_of True one_host_db\<rparr>)")
      (auto simp: is_running_def split: outcome.splits)
qed

lemma home_hosts:
  assumes "main example_main home_machine = (Running R, W)"
  shows "stored_hosts quiet (ad_store (px_admin (serve_all V [Dns m] (serving R)))) = stored_hosts quiet one_host_db"
proof -
  have "host_records (ad_store (rn_admin R)) = host_records one_host_db"
    using started_ready[OF assms] home_file
    by (simp add: home_machine_def with_mode_def tables_of_def file_of_def)
  then show ?thesis by (simp add: stored_hosts_def serve_all_def serving_def put_resolver_def split_beta)
qed

lemma home_records: "stored_hosts quiet one_host_db = [example_host 1 ''nas.lan'' ''A'' ''suffix'' ''10.0.0.9'' 0]"
proof -
  have "map (rowToHost quiet) (t_rows (host_records one_host_db)) =
      [Inr (example_host 1 ''nas.lan'' ''A'' ''suffix'' ''10.0.0.9'' 0)]" by code_simp
  then obtain r where r: "t_rows (host_records one_host_db) = [r]"
    "rowToHost quiet r = Inr (example_host 1 ''nas.lan'' ''A'' ''suffix'' ''10.0.0.9'' 0)" by auto
  moreover have "hosts_order quiet [r] = [r]" by (simp add: example_env_def)
  ultimately show ?thesis by (simp add: stored_hosts_def)
qed

lemma home_entries:
  "entries_at (stored_hosts quiet one_host_db) (normalize_domain ''NAS.lan.'') = [\<lparr>he_Type = ''A'', he_Value = ''10.0.0.9'', he_TTL = 0\<rparr>]"
proof -
  have "host_class (example_host 1 ''nas.lan'' ''A'' ''suffix'' ''10.0.0.9'' 0) = Some (''nas.lan.'', True)"
    "normalize_domain ''NAS.lan.'' = ''nas.lan.''"
    "host_entry_of (example_host 1 ''nas.lan'' ''A'' ''suffix'' ''10.0.0.9'' 0) =
      \<lparr>he_Type = ''A'', he_Value = ''10.0.0.9'', he_TTL = 0\<rparr>" by code_simp+
  then show ?thesis by (simp add: entries_at_def home_records ex_bool_eq)
qed

theorem program_answers_stored_addresses_witness:
  "\<exists>R W P P' resp. main example_main home_machine = (Running R, W) \<and>
     P = serve_all example_proxy_env [Dns (query_msg ''example.com.'' TypeA)] (serving R) \<and>
     serve example_proxy_env (Dns (query_msg ''NAS.lan.'' TypeA)) P = (DnsResponse (Some resp), P') \<and>
     m_Answer resp = address_answers ''nas.lan.'' [\<lparr>he_Type = ''A'', he_Value = ''10.0.0.9'', he_TTL = 0\<rparr>]"
proof -
  obtain R W where r: "main example_main home_machine = (Running R, W)" using home_started by blast
  let ?V = example_proxy_env and ?e = "[\<lparr>he_Type = ''A'', he_Value = ''10.0.0.9'', he_TTL = 0\<rparr>]"
  have env: "pe_lib ?V = example_lib" "en_sql (pe_admin ?V) = quiet" by (simp_all add: example_proxy_env_def)
  have lib: "dns_lib_ok (pe_lib ?V)" using example_lib_ok env by simp
  have es: "?e = filter (type_matches ''A'') (entries_at (stored_hosts (en_sql (pe_admin ?V))
      (ad_store (px_admin (serve_all ?V [Dns (query_msg ''example.com.'' TypeA)] (serving R))))) (normalize_domain ''NAS.lan.''))"
    by (simp add: env home_hosts[OF r] home_entries type_matches_def)
  have low: "ToLower ''NAS.lan.'' = ''nas.lan.''" by code_simp
  from program_answers_stored_addresses[OF r home_sound lib refl query_msg_question, of _ TypeA ?e] es low r show ?thesis
    by (fastforce simp: query_msg_def)
qed

end
