(* ===== verification/Spec2Isabelle.thy ===== *)
theory Spec2Isabelle
  imports Concurrent Migration Doh AdminExamples DnsTypes StartupProps Proxy
begin

text \<open>
  A DNS proxy in Go. It answers DNS questions over UDP, TCP and TLS, and over HTTPS (DoH), first from
  local host records and else from an upstream server that domain rules select. Records, rules and
  the administrator's account are in an SQLite file; a management server over HTTPS changes them.
  Two caches in memory hold the records and the rules in the form the resolver looks them up; every
  change through the management server reloads both.

  \<^bold>\<open>The parts and where they are modelled\<close>

    \<^item> Go's library, as far as the program uses it: \<open>Prelude\<close> (results, maps, unfolding hints),
      \<open>GoStrings\<close> (trimming, case, prefixes, numbers), \<open>GoPath\<close>, \<open>GoBase64\<close>, \<open>GoNet\<close> (host and
      port, IP addresses as text), \<open>GoOs\<close> (a file system whose calls may fail, PEM), \<open>Http\<close>
      (requests, basic authentication, the route table). A string is the list of its bytes.
    \<^item> \<open>DataModel\<close>: the structs of \<open>internal/model\<close>.
    \<^item> \<open>SuffixTable\<close>, \<open>RuleCache\<close>, \<open>HostCache\<close>, \<open>Reloader\<close>: \<open>internal/cache/rule_cache.go\<close>. A cache is
      a record with the exact table, the sorted suffix table and the counters; \<open>Reload\<close> reads the
      store and replaces both. \<open>SuffixTable\<close> states the contract both suffix tables share as a
      locale, \<open>Reloader\<close> the contract of a cached table; both are interpreted for the two caches.
      \<open>Notify\<close> of \<open>reload_notify.go\<close> is in \<open>Reloader\<close>.
    \<^item> \<open>Crypto\<close>: \<open>internal/crypto/aes.go\<close> over an AEAD given by its contract.
    \<^item> \<open>Storage\<close>: \<open>internal/storage/sqlite.go\<close>, a table as the list of its rows with the next key,
      every statement with the meaning of its SQL text; each may fail, as the environment says.
      \<open>IdTable\<close> has the laws of a table with keys, \<open>StorageLaws\<close>, \<open>StoreContract\<close> (a locale
      for the two tables with its interpretations), \<open>StoreRuns\<close> and \<open>HostStore\<close> the laws of the
      operations, \<open>Migration\<close> the opening of a file (\<open>Open\<close>, \<open>migrate\<close>) of any older form.
    \<^item> \<open>DnsMsg\<close>, \<open>Upstream\<close>, \<open>DnsHandler\<close>, \<open>DnsServer\<close>: \<open>internal/dns\<close>. The message library is a
      parameter; the resolver is a record of the two caches, the counters and the number of calls
      made to the network. The listeners work on a state of open sockets.
    \<^item> \<open>Doh\<close>: \<open>internal/doh/server.go\<close> and the DoH endpoint of \<open>cmd/dns-proxy/main.go\<close>
      (\<open>dohHandler\<close>, \<open>buildDoHMux\<close>).
    \<^item> \<open>Config\<close>: \<open>internal/config/config.go\<close> with the syntax of the package flag.
    \<^item> \<open>Admin\<close>: the management server of \<open>main.go\<close>: \<open>auth\<close> around every handler, the routes of
      \<open>buildAdminMux\<close>. \<open>AdminProps\<close> and \<open>AdminAccount\<close> hold its properties, \<open>AdminExamples\<close> a
      server at work.
    \<^item> \<open>Cert\<close>, \<open>HttpServer\<close>: \<open>internal/httpserver\<close>, the generation and loading of the certificates, the
      HTTPS servers and the filter of their error log.
    \<^item> \<open>Logging\<close>: \<open>internal/logging/logger.go\<close>, the buffered file behind a mutex, with rotation and
      cleanup. A call that waits for a mutex that its own thread holds does not return: \<open>None\<close>.
    \<^item> \<open>Startup\<close>: \<open>main\<close> of \<open>cmd/dns-proxy/main.go\<close> with its helpers, in the order of the source and with
      its exits, and the end after the signal.
    \<^item> \<open>Goroutine\<close>, \<open>Requests\<close>, \<open>Concurrent\<close>: the management server with any number of requests at
      work. A goroutine is the tree of its accesses to the shared state, each followed by what the
      values read lead to; the scheduler is an inductive step relation that picks any goroutine.
      \<open>Requests\<close> has every handler of \<open>main.go\<close>, every operation of the store and \<open>Reload\<close> in that
      form, statement by statement, with the lock of the rule cache; \<open>run_admin_task\<close> proves that a
      goroutine left alone does what the handlers of \<open>Admin\<close> do. \<open>Concurrent\<close> adds the lookups of DNS
      queries; \<open>ReloadModes\<close> and \<open>Refusals\<close> hold the lemmas of its invariant.
    \<^item> \<open>Proxy\<close>: the program while it serves, one request after the other on the shared state, from
      \<open>main\<close> on.

  \<^bold>\<open>What is shown\<close>

    \<^item> Lookups. The answers of the caches are those of a specification over the lists of rules and
      records (\<open>rule_spec\<close>, \<open>host_spec\<close>): the last exact entry, else the longest covering suffix,
      else the default or a miss (\<open>Match_refines_rules\<close>, \<open>Lookup_refines_records\<close>).
    \<^item> Store. The tables stay well-formed under every sequence of operations with any failures
      (\<open>store_invariant\<close>); updates merge, account changes are atomic and are read back; files of
      older versions are opened without a loss, and get the new column unless \<open>ALTER TABLE\<close> fails,
      which \<open>Open\<close> does not report (\<open>Open_upgrades\<close>).
    \<^item> Coherence of caches and store: after a reload, after every management request that is
      answered 200, and for the whole program from its start through any sequence of requests
      (\<open>program_follows_store\<close>). For interleaved requests: whenever all of them are answered, if no
      statement fails (\<open>quiescent_caches_coherent\<close>); and from every reachable state they can all be
      answered and the lock is free, whatever fails (\<open>requests_can_finish\<close>).
    \<^item> Answers. The loop over the local entries equals a direct definition, its records are well
      typed, its call of itself is never reached; other questions go to the upstream selected; every
      query gets a reply; the stored addresses come out of the whole program
      (\<open>program_answers_stored_addresses\<close>).
    \<^item> Access. Without the stored credentials no route changes anything, and the whole answer is a
      fixed text; after a change of the password the authentication lets the new one through and no
      other; a truncated stored value opens the server to the empty password.
    \<^item> Surroundings. Certificates (names, a missing pair is made and then kept, a half written key
      sticks), sockets (a shutdown closes what the starts opened, a failed start leaves none but one
      case), the log (lines in order, none
      lost by a rotation, a failed rotation blocks, bounds of the cleanup), settings (the source of
      every one), ports, and the exits of \<open>main\<close> (it does not start without certificates).

  Each property whose statement has a hypothesis is followed, in its theory or in one that builds on
  it, by a theorem of the same name ending in \<open>_witness\<close> that applies it to a concrete state.

  \<^bold>\<open>Bounds\<close>

  \<open>resolveLocal\<close> takes a number that bounds its calls of itself; \<open>local_chase_unreachable\<close> shows that
  one unit is enough for every question, and \<open>Resolve\<close> uses one. All other loops are structural or
  have a termination proof (\<open>bw_Write\<close>, whose buffer holds 64 KiB, and \<open>pem_lines\<close>). Counters and
  sizes are signed 64-bit words, times to live unsigned 32-bit words, keys of rows unbounded.
  Letters are mapped to lower and upper case in ASCII only, the path separator is the slash, and
  request paths need no unescaping.

  \<^bold>\<open>Parameters\<close>

  Not under the repository and so arguments of the definitions: the message library (\<open>dns_lib\<close>), the
  network (\<open>net_env\<close>, \<open>listen_env\<close>), the database driver with its errors, clock and nonces
  (\<open>sql_env\<close>), the AEAD, x509 and the random numbers (\<open>cert_env\<close>), the operating system's errors,
  JSON decoding and the embedded files (\<open>admin_env\<close>), \<open>sort.Slice\<close> and the order of map traversals.
  What the properties need of them is a named predicate, such as \<open>gcm_ok\<close>, \<open>order_ok\<close>, \<open>dns_lib_ok\<close>,
  \<open>never_fails\<close>, \<open>crypto_ok\<close> or \<open>quiet_disk\<close>, and concrete instances satisfy them.

  \<^bold>\<open>Not modelled\<close>

  The embedding of the web files (no logic), \<open>installCARootCert\<close> and \<open>runCertutil\<close> (they run a
  Windows program and print), the text printed after a generation of certificates, log lines of
  ordinary progress (a line that goes with an exit is modelled), timeouts and contexts, and
  \<open>Store.Close\<close>. In \<open>Proxy\<close> requests are served one after the other; interleavings are the subject
  of \<open>Concurrent\<close>, where a goroutine yields only between its accesses to shared state, and a
  transaction is one access since the store has one connection. The operations of the store assume
  the column of the match mode; in the case where \<open>Open_upgrades\<close> says that it is missing they are not
  what \<open>Storage\<close> models.
\<close>

end
